(* ===== verification/Prelude.thy ===== *)
theory Prelude
  imports Main
begin

text \<open>
  What every component of the development shares: the type of timestamps, the
  Go error values with \<open>errors.Is\<close>, sequencing of fallible calls
  (\<open>if err != nil { return err }\<close>), and tables, that is lists of rows
  with the effect of an SQL \<open>UPDATE .. WHERE\<close> and a lookup by key. The locales are the
  contracts that the components share: \<open>run_relation\<close> for what is followed through the calls of a
  handler, \<open>guarded_steps\<close> and \<open>simulation\<close> for step relations, \<open>keyed_update\<close> for an
  \<open>UPDATE\<close> that leaves the key column alone.
\<close>

named_theorems table_simps \<open>lookup, keys and row counts after a statement\<close>
named_theorems call_simps \<open>sequencing of calls that may fail\<close>

type_synonym time = int
type_synonym uuid = string

subsection \<open>Errors\<close>

text \<open>
  \<open>Wrapped m e\<close> is \<open>fmt.Errorf("m: %w", e)\<close>; \<open>ErrDriver\<close> is any error a driver
  reports for a call that did not reach its server or whose answer was lost;
  \<open>ErrConstraint\<close> is a statement the database rejects.
\<close>

datatype go_error =
    ErrNoRows
  | RedisNil
  | ErrDriver
  | ErrConstraint string
  | ErrStaleAttempt
  | ErrJobAlreadyClaimed
  | ErrUploadTooLarge
  | ErrInvalidVideoType
  | ErrNumber
  | ErrEOF
  | ErrUnexpectedEOF
  | ErrText string
  | Wrapped string go_error

fun errors_is :: "go_error \<Rightarrow> go_error \<Rightarrow> bool" where
  "errors_is (Wrapped m e) target = (Wrapped m e = target \<or> errors_is e target)"
| "errors_is e target = (e = target)"

type_synonym 'a result = "go_error + 'a"

subsection \<open>Sequencing of calls\<close>

text \<open>
  A call takes the state of the world and returns its result with the new state.
  \<open>and_then m f\<close> is the Go idiom \<open>x, err := m(); if err != nil { return err }; f(x)\<close>.
\<close>

type_synonym ('w, 'a) call = "'w \<Rightarrow> 'a result \<times> 'w"

definition ok :: "'a \<Rightarrow> ('w, 'a) call" where
  "ok x w = (Inr x, w)"

definition fail_with :: "go_error \<Rightarrow> ('w, 'a) call" where
  "fail_with e w = (Inl e, w)"

definition and_then :: "('w, 'a) call \<Rightarrow> ('a \<Rightarrow> ('w, 'b) call) \<Rightarrow> ('w, 'b) call" where
  "and_then m f w = (case m w of (Inl e, w') \<Rightarrow> (Inl e, w') | (Inr x, w') \<Rightarrow> f x w')"

text \<open>\<open>wrap_err s m\<close> is \<open>if err := m(); err != nil { return fmt.Errorf("s: %w", err) }\<close>.\<close>

definition wrap_err :: "string \<Rightarrow> ('w, 'a) call \<Rightarrow> ('w, 'a) call" where
  "wrap_err s m w = (case m w of (Inl e, w') \<Rightarrow> (Inl (Wrapped s e), w') | (Inr x, w') \<Rightarrow> (Inr x, w'))"

text \<open>A call whose error is logged and otherwise ignored.\<close>

definition log_err :: "('w, 'a) call \<Rightarrow> ('w, unit) call" where
  "log_err m w = (Inr (), snd (m w))"

text \<open>A \<open>for .. range\<close> loop whose body returns early on an error.\<close>

fun for_each :: "('b \<Rightarrow> ('w, unit) call) \<Rightarrow> 'b list \<Rightarrow> ('w, unit) call" where
  "for_each body [] w = (Inr (), w)"
| "for_each body (x # xs) w =
     (case body x w of (Inl e, w') \<Rightarrow> (Inl e, w') | (Inr _, w') \<Rightarrow> for_each body xs w')"

lemma and_then_ok [call_simps, simp]: "and_then (ok x) f = f x"
  by (simp add: and_then_def ok_def fun_eq_iff)

lemma and_then_fail [call_simps, simp]: "and_then (fail_with e) f = fail_with e"
  by (simp add: and_then_def fail_with_def fun_eq_iff)

lemma and_then_assoc:
  "and_then (and_then m f) g = and_then m (\<lambda>x. and_then (f x) g)"
  by (auto simp: and_then_def fun_eq_iff split: prod.splits sum.splits)

lemma for_each_append:
  "for_each body (xs @ ys) w =
     (case for_each body xs w of (Inl e, w') \<Rightarrow> (Inl e, w') | (Inr _, w') \<Rightarrow> for_each body ys w')"
  by (induction xs arbitrary: w) (auto split: prod.splits sum.splits)

definition runs_in :: "('w \<Rightarrow> 'w \<Rightarrow> bool) \<Rightarrow> ('w, 'a) call \<Rightarrow> bool" where
  "runs_in R m \<longleftrightarrow> (\<forall>w. R w (snd (m w)))"

lemma runs_inI: "(\<And>w. R w (snd (m w))) \<Longrightarrow> runs_in R m"
  by (simp add: runs_in_def)

lemma runs_inD: "runs_in R m \<Longrightarrow> m w = (r, w') \<Longrightarrow> R w w'"
  unfolding runs_in_def by (metis snd_conv)

lemma runs_in_wrap: "runs_in R m \<Longrightarrow> runs_in R (wrap_err s m)"
  by (auto simp: runs_in_def wrap_err_def split: prod.splits sum.splits) (metis snd_conv)+

lemma runs_in_log: "runs_in R m \<Longrightarrow> runs_in R (log_err m)"
  by (simp add: runs_in_def log_err_def)

text \<open>
  The contract a property of calls has to meet to pass from the parts of a handler to the whole:
  the relation between the worlds before and after is a preorder. Every relation that the
  components follow through their handlers (runs of the system, what a sweep may change, the state
  of the lock) interprets it.
\<close>

locale run_relation =
  fixes R :: "'w \<Rightarrow> 'w \<Rightarrow> bool"
  assumes stay: "R w w"
    and join: "R u v \<Longrightarrow> R v w \<Longrightarrow> R u w"
begin

lemma run_ok: "runs_in R (ok x)"
  by (simp add: runs_in_def ok_def stay)

lemma run_fail: "runs_in R (fail_with e)"
  by (simp add: runs_in_def fail_with_def stay)

text \<open>The second call is only made with a result of the first, in the world the first left.\<close>

lemma step_and_then:
  assumes "R w (snd (m w))" and "\<And>x w'. m w = (Inr x, w') \<Longrightarrow> R w' (snd (f x w'))"
  shows "R w (snd (and_then m f w))"
  using assms by (auto simp: and_then_def split: prod.splits sum.splits intro: join)

lemma run_and_then_dep:
  assumes "runs_in R m" and "\<And>x w w'. m w = (Inr x, w') \<Longrightarrow> R w' (snd (f x w'))"
  shows "runs_in R (and_then m f)"
  using assms by (auto simp: runs_in_def intro: step_and_then)

lemma run_and_then: "runs_in R m \<Longrightarrow> (\<And>x. runs_in R (f x)) \<Longrightarrow> runs_in R (and_then m f)"
  by (rule run_and_then_dep) (simp_all add: runs_in_def)

lemma run_for_each:
  assumes "\<And>x. runs_in R (body x)"
  shows "runs_in R (for_each body xs)"
proof (rule runs_inI)
  show "R w (snd (for_each body xs w))" for w
  proof (induction xs arbitrary: w)
    case (Cons x xs)
    obtain r w' where b: "body x w = (r, w')" by fastforce
    with assms have step: "R w w'" by (rule runs_inD)
    from b step join [OF step Cons.IH [of w']] show ?case by (cases r) simp_all
  qed (simp add: stay)
qed

text \<open>
  A loop whose bodies succeed under an invariant, each establishing a condition on its own
  element that the later ones keep.
\<close>

lemma for_each_post:
  assumes "I w"
    and body: "\<And>x w. x \<in> set xs \<Longrightarrow> I w \<Longrightarrow> \<exists>w'. body x w = (Inr (), w') \<and> I w' \<and> R w w' \<and> Q x w'"
    and keep: "\<And>x w w'. Q x w \<Longrightarrow> R w w' \<Longrightarrow> Q x w'"
  shows "\<exists>w'. for_each body xs w = (Inr (), w') \<and> I w' \<and> R w w' \<and> (\<forall>x \<in> set xs. Q x w')"
  using assms(1) body
proof (induction xs arbitrary: w)
  case Nil
  then show ?case by (simp add: stay)
next
  case (Cons x xs)
  then obtain u where u: "body x w = (Inr (), u)" "I u" "R w u" "Q x u" by (meson list.set_intros(1))
  from Cons.IH [OF u(2)] Cons.prems(2)
  obtain v where v: "for_each body xs u = (Inr (), v)" "I v" "R u v" "\<forall>y \<in> set xs. Q y v" by auto
  with u keep [OF u(4) v(3)] join [OF u(3) v(3)] show ?case by auto
qed

end

subsection \<open>Step relations\<close>

text \<open>
  A step relation with an invariant: what each step keeps under the invariant, every run keeps.
  The runs are a preorder, so the sequencing rules apply to them.
\<close>

locale guarded_steps =
  fixes step :: "'s \<Rightarrow> 's \<Rightarrow> bool" and inv :: "'s \<Rightarrow> bool"
  assumes inv_step: "step u v \<Longrightarrow> inv u \<Longrightarrow> inv v"
begin

lemma inv_run: "step\<^sup>*\<^sup>* u v \<Longrightarrow> inv u \<Longrightarrow> inv v"
  by (induction rule: rtranclp_induct) (auto intro: inv_step)

lemma kept_run:
  assumes "step\<^sup>*\<^sup>* u v" and "inv u" and "P u" and "\<And>x y. step x y \<Longrightarrow> inv x \<Longrightarrow> P x \<Longrightarrow> P y"
  shows "P v"
  using assms(1)
proof (induction rule: rtranclp_induct)
  case (step x y)
  from assms(4) [OF step.hyps(2) inv_run [OF step.hyps(1) assms(2)] step.IH] show ?case .
qed (rule assms(3))

end

sublocale guarded_steps \<subseteq> runs: run_relation "step\<^sup>*\<^sup>*"
  by unfold_locales auto

text \<open>A step relation that implements an abstract one: each step is an abstract step or stutters.\<close>

locale simulation = guarded_steps step inv
  for step :: "'s \<Rightarrow> 's \<Rightarrow> bool" and inv :: "'s \<Rightarrow> bool" +
  fixes view :: "'s \<Rightarrow> 'a" and abs_step :: "'a \<Rightarrow> 'a \<Rightarrow> bool"
  assumes sim_step: "step u v \<Longrightarrow> inv u \<Longrightarrow> view v = view u \<or> abs_step (view u) (view v)"
begin

lemma sim_run: "step\<^sup>*\<^sup>* u v \<Longrightarrow> inv u \<Longrightarrow> abs_step\<^sup>*\<^sup>* (view u) (view v)"
  by (erule kept_run) (auto dest: sim_step)

text \<open>What no abstract run changes, no run of the implementation changes.\<close>

lemma view_run: "step\<^sup>*\<^sup>* u v \<Longrightarrow> inv u \<Longrightarrow> P (view u) \<Longrightarrow> (\<And>x y. abs_step x y \<Longrightarrow> P x \<Longrightarrow> P y) \<Longrightarrow> P (view v)"
  by (erule kept_run) (auto dest: sim_step)

end

subsection \<open>Tables\<close>

text \<open>
  A table is the list of its rows. \<open>UPDATE t SET f WHERE p\<close> is \<open>update_where p f t\<close>;
  \<open>RowsAffected\<close> is \<open>rows_affected p t\<close>; a query by primary key is \<open>row_at\<close>.
\<close>

definition update_where :: "('r \<Rightarrow> bool) \<Rightarrow> ('r \<Rightarrow> 'r) \<Rightarrow> 'r list \<Rightarrow> 'r list" where
  "update_where p f t = map (\<lambda>r. if p r then f r else r) t"

definition rows_affected :: "('r \<Rightarrow> bool) \<Rightarrow> 'r list \<Rightarrow> nat" where
  "rows_affected p t = length (filter p t)"

fun row_at :: "('r \<Rightarrow> 'k) \<Rightarrow> 'r list \<Rightarrow> 'k \<Rightarrow> 'r option" where
  "row_at key [] k = None"
| "row_at key (r # rs) k = (if key r = k then Some r else row_at key rs k)"

definition set_row :: "('r \<Rightarrow> bool) \<Rightarrow> ('r \<Rightarrow> 'r) \<Rightarrow> 'r \<Rightarrow> 'r" where
  "set_row p f r = (if p r then f r else r)"

lemma row_at_Some_iff:
  "distinct (map key t) \<Longrightarrow> row_at key t k = Some r \<longleftrightarrow> r \<in> set t \<and> key r = k"
  by (induction t) force+

lemma row_at_SomeD: "row_at key t k = Some r \<Longrightarrow> r \<in> set t \<and> key r = k"
  by (induction t) (auto split: if_splits)

lemma row_at_key: "row_at key t k = Some r \<Longrightarrow> key r = k"
  by (drule row_at_SomeD) simp

lemma row_at_None_iff [table_simps]: "row_at key t k = None \<longleftrightarrow> k \<notin> key ` set t"
  by (induction t) auto

lemma row_at_append [table_simps]:
  "row_at key (t @ u) k = (case row_at key t k of None \<Rightarrow> row_at key u k | Some r \<Rightarrow> Some r)"
  by (induction t) auto

lemma rows_affected_key:
  "distinct (map key t) \<Longrightarrow>
   rows_affected (\<lambda>r. key r = k \<and> p r) t =
     (case row_at key t k of None \<Rightarrow> 0 | Some r \<Rightarrow> if p r then 1 else 0)"
proof (induction t)
  case Nil
  then show ?case by (simp add: rows_affected_def)
next
  case (Cons x t)
  show ?case
  proof (cases "key x = k")
    case True
    with Cons.prems have "filter (\<lambda>r. key r = k \<and> p r) t = []" by (simp add: filter_empty_conv) (metis imageI)
    with True show ?thesis by (simp add: rows_affected_def)
  next
    case False
    with Cons show ?thesis by (simp add: rows_affected_def)
  qed
qed

lemma filter_update_where_disjoint:
  "(\<And>r. p r \<Longrightarrow> q r = q (f r)) \<Longrightarrow>
   filter q (update_where p f t) = update_where p f (filter q t)"
  unfolding update_where_def by (induction t) auto

text \<open>
  The contract of an \<open>UPDATE\<close> that does not write the key column: the rows stay the same
  rows, and each lookup sees the assignment where the condition holds.
\<close>

locale keyed_update =
  fixes key :: "'r \<Rightarrow> 'k" and p :: "'r \<Rightarrow> bool" and f :: "'r \<Rightarrow> 'r"
  assumes keeps_key: "p r \<Longrightarrow> key (f r) = key r"
begin

lemma keys: "map key (update_where p f t) = map key t"
  by (simp add: update_where_def keeps_key)

lemma key_set: "key ` set (update_where p f t) = key ` set t"
  using arg_cong [OF keys, of set] by simp

lemma lookup: "row_at key (update_where p f t) k = map_option (set_row p f) (row_at key t k)"
  by (induction t) (auto simp: update_where_def set_row_def keeps_key)

lemma rows_kept: "length (update_where p f t) = length t"
  by (simp add: update_where_def)

lemma lookup_one:
  assumes "row_at key t k = Some r" and "p r" and "\<And>x. p x \<Longrightarrow> key x = k"
  shows "row_at key (update_where p f t) = (row_at key t)(k \<mapsto> f r)"
proof
  fix k'
  show "row_at key (update_where p f t) k' = ((row_at key t)(k \<mapsto> f r)) k'"
    using assms by (cases "row_at key t k'") (auto simp: lookup set_row_def dest: row_at_key)
qed

lemma lookup_None: "row_at key (update_where p f t) k = None \<longleftrightarrow> row_at key t k = None"
  by (simp add: lookup)

end

subsection \<open>Lists\<close>

lemma distinct_snoc: "distinct (xs @ [x]) \<longleftrightarrow> distinct xs \<and> x \<notin> set xs"
  by auto

lemma concat_map_upd_notin:
  "x \<notin> set ps \<Longrightarrow> concat (map ((f(x := y))) ps) = concat (map f ps)"
  by (induction ps) auto

end
