(* ===== verification/Go_Text.thy ===== *)
theory Go_Text
  imports Prelude
begin

text \<open>
  The parts of Go's standard library the program uses on text and integers: \<open>fmt.Sprint\<close> of an
  \<open>int\<close>, \<open>strconv.Atoi\<close> (\<open>strconv.ParseInt(s, 10, 64)\<close> is the same function on a 64-bit
  platform), \<open>strings.TrimSpace\<close>, \<open>Trim\<close>, \<open>TrimRight\<close>, \<open>Split\<close>, \<open>HasPrefix\<close>, and
  the wrap-around of 64-bit arithmetic. A string is its bytes.
\<close>

named_theorems text_simps \<open>evaluation of text operations\<close>

subsection \<open>Decimal text of an integer\<close>

definition digit_char :: "nat \<Rightarrow> char" where
  "digit_char d = char_of (48 + d)"

fun dec_nat :: "nat \<Rightarrow> string" where
  "dec_nat n = (if n < 10 then [digit_char n] else dec_nat (n div 10) @ [digit_char (n mod 10)])"

declare dec_nat.simps [simp del]

definition dec :: "int \<Rightarrow> string" where
  "dec i = (if i < 0 then CHR ''-'' # dec_nat (nat (- i)) else dec_nat (nat i))"

subsection \<open>strconv.Atoi\<close>

definition is_digit :: "char \<Rightarrow> bool" where
  "is_digit c \<longleftrightarrow> 48 \<le> (of_char c :: nat) \<and> (of_char c :: nat) \<le> 57"

definition digits_value :: "string \<Rightarrow> nat" where
  "digits_value s = foldl (\<lambda>n c. 10 * n + (of_char c - 48)) 0 s"

definition max_int64 :: int where
  "max_int64 = 2 ^ 63 - 1"

definition min_int64 :: int where
  "min_int64 = - (2 ^ 63)"

text \<open>
  An optional sign and at least one digit, nothing else, within the range of \<open>int64\<close>. Every
  caller only asks whether there was an error, so syntax and range errors are one value.
\<close>

fun split_sign :: "string \<Rightarrow> bool \<times> string" where
  "split_sign (CHR ''-'' # s) = (True, s)"
| "split_sign (CHR ''+'' # s) = (False, s)"
| "split_sign s = (False, s)"

definition Atoi :: "string \<Rightarrow> int result" where
  "Atoi s =
     (let (neg, ds) = split_sign s in
      if ds = [] \<or> \<not> list_all is_digit ds then Inl ErrNumber
      else let v = (if neg then - int (digits_value ds) else int (digits_value ds)) in
           if min_int64 \<le> v \<and> v \<le> max_int64 then Inr v else Inl ErrNumber)"

lemma of_char_digit_char: "d < 10 \<Longrightarrow> (of_char (digit_char d) :: nat) = 48 + d"
  by (simp add: digit_char_def)

lemma is_digit_digit_char [simp]: "d < 10 \<Longrightarrow> is_digit (digit_char d)"
  by (simp add: is_digit_def of_char_digit_char)

lemma dec_nat_nonempty [simp]: "dec_nat n \<noteq> []"
  by (subst dec_nat.simps) simp

lemma dec_nat_digits: "list_all is_digit (dec_nat n)"
proof (induction n rule: dec_nat.induct)
  case (1 n)
  show ?case
    by (subst dec_nat.simps) (simp add: "1.IH")
qed

lemma digits_value_snoc: "digits_value (s @ [c]) = 10 * digits_value s + (of_char c - 48)"
  by (simp add: digits_value_def)

lemma digits_value_dec_nat: "digits_value (dec_nat n) = n"
proof (induction n rule: dec_nat.induct)
  case (1 n)
  show ?case
  proof (cases "n < 10")
    case True
    then show ?thesis
      by (simp add: dec_nat.simps [of n] digits_value_def of_char_digit_char)
  next
    case False
    with "1.IH" show ?thesis
      by (simp add: dec_nat.simps [of n] digits_value_snoc of_char_digit_char)
  qed
qed

lemma is_digit_not_sign [simp]: "\<not> is_digit CHR ''-''" "\<not> is_digit CHR ''+''"
  by (simp_all add: is_digit_def)

lemma split_sign_digit: "list_all is_digit s \<Longrightarrow> split_sign s = (False, s)"
  by (cases s rule: split_sign.cases) auto

lemma Atoi_dec: "min_int64 \<le> i \<Longrightarrow> i \<le> max_int64 \<Longrightarrow> Atoi (dec i) = Inr i"
  by (simp add: Atoi_def dec_def split_sign_digit dec_nat_digits digits_value_dec_nat)

lemma dec_nat_inj: "dec_nat m = dec_nat n \<Longrightarrow> m = n"
  by (metis digits_value_dec_nat)

lemma dec_nat_not_minus: "dec_nat n \<noteq> CHR ''-'' # s"
  using dec_nat_digits [of n] by (auto simp: is_digit_def)

lemma dec_inject [simp]: "dec i = dec j \<longleftrightarrow> i = j"
  by (auto simp: dec_def dec_nat_not_minus dest: dec_nat_inj split: if_splits)
     (metis dec_nat_not_minus)+

lemma Atoi_range: "Atoi s = Inr v \<Longrightarrow> min_int64 \<le> v \<and> v \<le> max_int64"
  by (auto simp: Atoi_def Let_def split: prod.splits if_splits)

lemma Atoi_empty [text_simps, simp]: "Atoi [] = Inl ErrNumber"
  by (simp add: Atoi_def)

subsection \<open>64-bit arithmetic\<close>

text \<open>Two's complement wrap-around, and division that truncates towards zero.\<close>

definition wrap64 :: "int \<Rightarrow> int" where
  "wrap64 i = (i + 2 ^ 63) mod 2 ^ 64 - 2 ^ 63"

definition quot :: "int \<Rightarrow> int \<Rightarrow> int" where
  "quot a b = sgn a * sgn b * (\<bar>a\<bar> div \<bar>b\<bar>)"

lemma wrap64_id: "min_int64 \<le> i \<Longrightarrow> i \<le> max_int64 \<Longrightarrow> wrap64 i = i"
  by (simp add: wrap64_def min_int64_def max_int64_def)

lemma wrap64_range: "min_int64 \<le> wrap64 i \<and> wrap64 i \<le> max_int64"
  by (simp add: wrap64_def min_int64_def max_int64_def)

lemma quot_pos: "0 \<le> a \<Longrightarrow> 0 < b \<Longrightarrow> quot a b = a div b"
  by (cases "a = 0") (simp_all add: quot_def)

subsection \<open>Trimming, splitting, prefixes\<close>

definition has_prefix :: "string \<Rightarrow> string \<Rightarrow> bool" where
  "has_prefix s p \<longleftrightarrow> take (length p) s = p"

definition trim_right :: "char \<Rightarrow> string \<Rightarrow> string" where
  "trim_right c s = rev (dropWhile (\<lambda>x. x = c) (rev s))"

definition trim :: "char \<Rightarrow> string \<Rightarrow> string" where
  "trim c s = trim_right c (dropWhile (\<lambda>x. x = c) s)"

fun split_on :: "char \<Rightarrow> string \<Rightarrow> string list" where
  "split_on c [] = [[]]"
| "split_on c (x # s) =
     (if x = c then [] # split_on c s
      else case split_on c s of [] \<Rightarrow> [[x]] | w # ws \<Rightarrow> (x # w) # ws)"

text \<open>The UTF-8 encodings of the code points that \<open>unicode.IsSpace\<close> accepts.\<close>

definition space_runes :: "string list" where
  "space_runes = map (map char_of)
     ([[9], [10], [11], [12], [13], [32], [194, 133], [194, 160], [225, 154, 128],
       [226, 128, 128], [226, 128, 129], [226, 128, 130], [226, 128, 131], [226, 128, 132],
       [226, 128, 133], [226, 128, 134], [226, 128, 135], [226, 128, 136], [226, 128, 137],
       [226, 128, 138], [226, 128, 168], [226, 128, 169], [226, 128, 175], [226, 129, 159],
       [227, 128, 128]] :: nat list list)"

function strip :: "string list \<Rightarrow> string \<Rightarrow> string" where
  "strip rs s =
     (case find (\<lambda>r. r \<noteq> [] \<and> has_prefix s r) rs of
        None \<Rightarrow> s
      | Some r \<Rightarrow> strip rs (drop (length r) s))"
  by pat_completeness auto
termination
proof (relation "measure (\<lambda>(rs, s). length s)")
  fix rs :: "string list" and s r
  assume "find (\<lambda>r. r \<noteq> [] \<and> has_prefix s r) rs = Some r"
  then have "r \<noteq> []" and "take (length r) s = r"
    by (auto simp: find_Some_iff has_prefix_def)
  then show "((rs, drop (length r) s), rs, s) \<in> measure (\<lambda>(rs, s). length s)"
    by (cases s) auto
qed simp

declare strip.simps [simp del]

definition trim_space :: "string \<Rightarrow> string" where
  "trim_space s = rev (strip (map rev space_runes) (rev (strip space_runes s)))"

lemma strip_stops: "r \<in> set rs \<Longrightarrow> r \<noteq> [] \<Longrightarrow> \<not> has_prefix (strip rs s) r"
proof (induction rs s rule: strip.induct)
  case (1 rs s)
  show ?case
  proof (cases "find (\<lambda>r. r \<noteq> [] \<and> has_prefix s r) rs")
    case None
    then have "strip rs s = s" by (simp add: strip.simps [of rs s])
    with None "1.prems" show ?thesis by (auto simp: find_None_iff)
  next
    case (Some q)
    with "1" show ?thesis by (simp add: strip.simps [of rs s])
  qed
qed

lemma split_on_join: "concat (map (\<lambda>w. w @ [c]) (split_on c s)) = s @ [c]"
proof (induction s)
  case (Cons x s)
  then show ?case by (cases "split_on c s") auto
qed simp

lemma split_on_nonempty [simp]: "split_on c s \<noteq> []"
  by (cases s) (auto split: list.splits)

lemma split_on_no_sep: "w \<in> set (split_on c s) \<Longrightarrow> c \<notin> set w"
proof (induction s arbitrary: w)
  case (Cons x s)
  then show ?case by (cases "split_on c s") (auto split: if_splits)
qed simp

lemma trim_right_last: "trim_right c s = [] \<or> last (trim_right c s) \<noteq> c"
proof (cases "dropWhile (\<lambda>x. x = c) (rev s)")
  case (Cons y ys)
  then have "y \<noteq> c" using hd_dropWhile [of "\<lambda>x. x = c" "rev s"] by force
  with Cons show ?thesis by (simp add: trim_right_def)
qed (simp add: trim_right_def)

subsection \<open>White space around text\<close>

lemma find_unique:
  assumes "x \<in> set xs" and "P x" and "\<And>y. y \<in> set xs \<Longrightarrow> P y \<Longrightarrow> y = x"
  shows "find P xs = Some x"
proof (cases "find P xs")
  case None
  with assms(1,2) show ?thesis by (auto simp: find_None_iff)
next
  case (Some y)
  then have "y \<in> set xs" and "P y" by (auto simp: find_Some_iff)
  then have "y = x" by (rule assms(3))
  with Some show ?thesis by simp
qed

lemma has_prefix_hd: "has_prefix (c # s) r \<Longrightarrow> r \<noteq> [] \<Longrightarrow> hd r = c"
  by (cases r) (auto simp: has_prefix_def)

definition blank :: "char \<Rightarrow> bool" where
  "blank c \<longleftrightarrow> [c] \<in> set space_runes"

definition visible :: "char \<Rightarrow> bool" where
  "visible c \<longleftrightarrow> 33 \<le> (of_char c :: nat) \<and> (of_char c :: nat) < 128"

lemma rune_ends:
  assumes "r \<in> set space_runes"
  shows "(length r = 1 \<and> of_char (hd r) < (33::nat)) \<or> (r \<noteq> [] \<and> 128 \<le> (of_char (hd r) :: nat) \<and> 128 \<le> (of_char (last r) :: nat))"
  using assms by (auto simp: space_runes_def)

lemma blank_small: "blank c \<Longrightarrow> of_char c < (33 :: nat)"
  using rune_ends [of "[c]"] by (auto simp: blank_def space_runes_def)

lemma strip_blank:
  assumes "[c] \<in> set rs" and "\<And>r. r \<in> set rs \<Longrightarrow> r \<noteq> [] \<Longrightarrow> hd r = c \<Longrightarrow> r = [c]"
  shows "strip rs (c # s) = strip rs s"
proof -
  have "find (\<lambda>r. r \<noteq> [] \<and> has_prefix (c # s) r) rs = Some [c]"
  proof (rule find_unique)
    fix r assume "r \<in> set rs" "r \<noteq> [] \<and> has_prefix (c # s) r"
    then show "r = [c]" using assms(2) has_prefix_hd by blast
  qed (use assms(1) in \<open>auto simp: has_prefix_def\<close>)
  then show ?thesis by (simp add: strip.simps [of rs "c # s"])
qed

lemma strip_visible:
  assumes "\<And>r. r \<in> set rs \<Longrightarrow> r \<noteq> [] \<Longrightarrow> hd r \<noteq> c"
  shows "strip rs (c # s) = c # s"
proof -
  have "find (\<lambda>r. r \<noteq> [] \<and> has_prefix (c # s) r) rs = None"
    using assms has_prefix_hd by (fastforce simp: find_None_iff)
  then show ?thesis by (simp add: strip.simps [of rs "c # s"])
qed

lemma space_runes_blank:
  assumes "blank c" and "r \<in> set space_runes"
  shows "hd r = c \<Longrightarrow> r = [c]" and "last r = c \<Longrightarrow> r = [c]"
  using rune_ends [OF assms(2)] blank_small [OF assms(1)] by (auto simp: length_Suc_conv)

lemma space_runes_visible:
  assumes "visible c" and "r \<in> set space_runes"
  shows "hd r \<noteq> c" and "last r \<noteq> c"
  using rune_ends [OF assms(2)] assms(1) by (auto simp: visible_def length_Suc_conv)

lemma strip_blanks: "list_all blank sp \<Longrightarrow> strip space_runes (sp @ s) = strip space_runes s"
  by (induction sp) (auto simp: strip_blank space_runes_blank blank_def)

lemma strip_rev_blanks: "list_all blank sp \<Longrightarrow> strip (map rev space_runes) (sp @ s) = strip (map rev space_runes) s"
proof (induction sp)
  case (Cons c sp)
  have "strip (map rev space_runes) (c # sp @ s) = strip (map rev space_runes) (sp @ s)"
    using Cons.prems by (intro strip_blank) (auto simp: blank_def image_iff hd_rev space_runes_blank intro!: bexI [of _ "[c]"])
  with Cons show ?case by simp
qed simp

text \<open>Surrounding white space is removed from text that starts and ends with visible characters.\<close>

lemma trim_space_padded:
  assumes "list_all blank sp" and "list_all blank sp'" and "s \<noteq> []" and "visible (hd s)" and "visible (last s)"
  shows "trim_space (sp @ s @ sp') = s"
proof -
  obtain a u where a: "s = a # u" using assms(3) by (cases s) auto
  obtain v z where z: "s = v @ [z]" using assms(3) by (cases s rule: rev_cases) auto
  have "strip space_runes (sp @ s @ sp') = s @ sp'"
    using assms a space_runes_visible by (simp add: strip_blanks strip_visible)
  moreover have "strip (map rev space_runes) (rev sp' @ rev s) = rev s"
    using assms z by (simp add: strip_rev_blanks) (rule strip_visible, use space_runes_visible(2) [of z] in \<open>force simp: hd_rev\<close>)
  ultimately show ?thesis by (simp add: trim_space_def)
qed

lemma dec_visible: "visible (hd (dec i))" "visible (last (dec i))" "dec i \<noteq> []"
proof -
  have d: "visible c" if "is_digit c" for c using that by (auto simp: is_digit_def visible_def)
  have n: "visible (hd (dec_nat n))" "visible (last (dec_nat n))" for n
    using dec_nat_digits [of n] d by (auto simp: list_all_iff)
  show "visible (hd (dec i))" "visible (last (dec i))" "dec i \<noteq> []"
    using n by (auto simp: dec_def visible_def)
qed

subsection \<open>Quoting\<close>

definition hex_digit :: "nat \<Rightarrow> char" where
  "hex_digit n = ''0123456789abcdef'' ! n"

text \<open>\<open>%q\<close>: \<open>strconv.Quote\<close>. A byte from 0x80 belongs to a longer character, taken to be a printable one.\<close>

definition escapes :: "(char \<times> char) list" where
  "escapes = [(CHR 0x22, CHR 0x22), (CHR 0x5C, CHR 0x5C), (CHR 0x07, CHR ''a''), (CHR 0x08, CHR ''b''), (CHR 0x09, CHR ''t''),
     (CHR 0x0A, CHR ''n''), (CHR 0x0B, CHR ''v''), (CHR 0x0C, CHR ''f''), (CHR 0x0D, CHR ''r'')]"

definition quote_char :: "char \<Rightarrow> string" where
  "quote_char c =
     (case map_of escapes c of
        Some e \<Rightarrow> [CHR 0x5C, e]
      | None \<Rightarrow>
          (let n = of_char c :: nat in
           if n < 0x20 \<or> n = 0x7F then [CHR 0x5C, CHR ''x'', hex_digit (n div 16), hex_digit (n mod 16)] else [c]))"

definition Quote :: "string \<Rightarrow> string" where
  "Quote s = [CHR 0x22] @ concat (map quote_char s) @ [CHR 0x22]"

lemma escape_codes:
  "map_of escapes c = Some e \<Longrightarrow> map_of escapes c' = Some e \<Longrightarrow> c = c'" "map_of escapes c \<noteq> Some CHR ''x''"
  by (auto simp: escapes_def split: if_splits)

lemma hex_digit_inject: "m < 16 \<Longrightarrow> n < 16 \<Longrightarrow> hex_digit m = hex_digit n \<longleftrightarrow> m = n"
  unfolding hex_digit_def by (rule nth_eq_iff_index_eq) auto

lemma hex_inject:
  assumes "m < 256" and "n < 256" and "hex_digit (m div 16) = hex_digit (n div 16)" and "hex_digit (m mod 16) = hex_digit (n mod 16)"
  shows "m = (n :: nat)"
proof -
  have "m div 16 = n div 16" "m mod 16 = n mod 16" using assms by (simp_all add: hex_digit_inject)
  then show ?thesis by (metis div_mult_mod_eq)
qed

lemma quote_char_prefix_free:
  assumes "quote_char c @ x = quote_char c' @ y"
  shows "c = c' \<and> x = y"
proof -
  have esc: "map_of escapes CHR 0x5C = Some CHR 0x5C" by (simp add: escapes_def)
  have b: "of_char d < (256 :: nat)" for d :: char by simp
  show ?thesis
    using assms esc escape_codes(2) [of c] escape_codes(2) [of c'] hex_inject [OF b [of c] b [of c']]
    unfolding quote_char_def
    by (auto simp: Let_def split: option.splits if_splits dest: escape_codes(1))
qed

lemma quote_char_head: "quote_char c @ x \<noteq> CHR 0x22 # y"
proof -
  have "map_of escapes CHR 0x22 = Some CHR 0x22" by (simp add: escapes_def)
  then show ?thesis unfolding quote_char_def by (auto simp: Let_def split: option.splits if_splits)
qed

lemma Quote_prefix_free: "Quote s @ x = Quote s' @ y \<longleftrightarrow> s = s' \<and> x = y"
proof -
  have "s = s' \<and> x = y" if "concat (map quote_char s) @ CHR 0x22 # x = concat (map quote_char s') @ CHR 0x22 # y"
    using that
  proof (induction s arbitrary: s')
    case Nil
    then show ?case using quote_char_head by (cases s') (auto, metis)
  next
    case (Cons c s)
    then obtain c' t where s': "s' = c' # t" using quote_char_head by (cases s') auto
    with Cons.prems have "quote_char c @ concat (map quote_char s) @ CHR 0x22 # x = quote_char c' @ concat (map quote_char t) @ CHR 0x22 # y"
      by simp
    with quote_char_prefix_free [OF this] Cons.IH [of t] s' show ?case by simp
  qed
  then show ?thesis by (auto simp: Quote_def)
qed

end
