(* ===== verification/Redis_Store.thy ===== *)
theory Redis_Store
  imports Go_Text
begin

text \<open>
  The Redis keyspace and the commands that the program's Lua scripts and client calls issue:
  lists, sets, sorted sets and strings with an expiry. The keys of the program have fixed,
  distinct names and one type each, so a command on a key of the wrong type cannot occur.
  Scores are the integers the program stores.
\<close>

named_theorems redis_simps \<open>effect of the commands on the keyspace\<close>

record redis =
  r_lists :: "string \<Rightarrow> string list"
  r_sets :: "string \<Rightarrow> string set"
  r_zsets :: "string \<Rightarrow> (string \<times> int) list"
  r_strs :: "string \<Rightarrow> (string \<times> time) option"

definition empty_redis :: redis where
  "empty_redis = \<lparr>r_lists = (\<lambda>_. []), r_sets = (\<lambda>_. {}), r_zsets = (\<lambda>_. []), r_strs = (\<lambda>_. None)\<rparr>"

subsection \<open>Sets\<close>

definition SADD :: "string \<Rightarrow> string \<Rightarrow> redis \<Rightarrow> int \<times> redis" where
  "SADD k m r = (if m \<in> r_sets r k then (0, r)
                 else (1, r\<lparr>r_sets := (r_sets r)(k := insert m (r_sets r k))\<rparr>))"

definition SREM :: "string \<Rightarrow> string \<Rightarrow> redis \<Rightarrow> redis" where
  "SREM k m r = r\<lparr>r_sets := (r_sets r)(k := r_sets r k - {m})\<rparr>"

definition SISMEMBER :: "string \<Rightarrow> string \<Rightarrow> redis \<Rightarrow> bool" where
  "SISMEMBER k m r \<longleftrightarrow> m \<in> r_sets r k"

definition SCARD :: "string \<Rightarrow> redis \<Rightarrow> nat" where
  "SCARD k r = card (r_sets r k)"

subsection \<open>Lists\<close>

definition RPUSH :: "string \<Rightarrow> string \<Rightarrow> redis \<Rightarrow> redis" where
  "RPUSH k v r = r\<lparr>r_lists := (r_lists r)(k := r_lists r k @ [v])\<rparr>"

definition LPOP :: "string \<Rightarrow> redis \<Rightarrow> string option \<times> redis" where
  "LPOP k r = (case r_lists r k of [] \<Rightarrow> (None, r)
               | v # vs \<Rightarrow> (Some v, r\<lparr>r_lists := (r_lists r)(k := vs)\<rparr>))"

definition LLEN :: "string \<Rightarrow> redis \<Rightarrow> nat" where
  "LLEN k r = length (r_lists r k)"

subsection \<open>Sorted sets\<close>

text \<open>Members are compared byte by byte where scores are equal.\<close>

fun bytes_less :: "string \<Rightarrow> string \<Rightarrow> bool" where
  "bytes_less s [] = False"
| "bytes_less [] (d # t) = True"
| "bytes_less (c # s) (d # t) =
     ((of_char c :: nat) < of_char d \<or> (c = d \<and> bytes_less s t))"

fun zset_before :: "string \<times> int \<Rightarrow> string \<times> int \<Rightarrow> bool" where
  "zset_before (m1, s1) (m2, s2) = (s1 < s2 \<or> (s1 = s2 \<and> bytes_less m1 m2))"

fun zset_last :: "(string \<times> int) list \<Rightarrow> (string \<times> int) option" where
  "zset_last [] = None"
| "zset_last (x # xs) =
     (case zset_last xs of None \<Rightarrow> Some x | Some y \<Rightarrow> Some (if zset_before x y then y else x))"

text \<open>\<open>ZREVRANGE k 0 0\<close>: the member with the highest score, if there is one.\<close>

definition ZREVRANGE0 :: "string \<Rightarrow> redis \<Rightarrow> string option" where
  "ZREVRANGE0 k r = map_option fst (zset_last (r_zsets r k))"

definition ZADD :: "string \<Rightarrow> int \<Rightarrow> string \<Rightarrow> redis \<Rightarrow> redis" where
  "ZADD k s m r = r\<lparr>r_zsets := (r_zsets r)(k :=
     (if m \<in> fst ` set (r_zsets r k) then map (\<lambda>(m', s'). (m', if m' = m then s else s')) (r_zsets r k)
      else r_zsets r k @ [(m, s)]))\<rparr>"

definition ZREM :: "string \<Rightarrow> string \<Rightarrow> redis \<Rightarrow> redis" where
  "ZREM k m r = r\<lparr>r_zsets := (r_zsets r)(k := filter (\<lambda>x. fst x \<noteq> m) (r_zsets r k))\<rparr>"

subsection \<open>Strings with an expiry\<close>

definition GET :: "time \<Rightarrow> string \<Rightarrow> redis \<Rightarrow> string option" where
  "GET t k r = (case r_strs r k of None \<Rightarrow> None | Some (v, e) \<Rightarrow> if t < e then Some v else None)"

definition SETNX :: "time \<Rightarrow> string \<Rightarrow> string \<Rightarrow> int \<Rightarrow> redis \<Rightarrow> bool \<times> redis" where
  "SETNX t k v ttl r =
     (case GET t k r of
        None \<Rightarrow> (True, r\<lparr>r_strs := (r_strs r)(k \<mapsto> (v, t + ttl))\<rparr>)
      | Some _ \<Rightarrow> (False, r))"

definition EXPIRE :: "time \<Rightarrow> string \<Rightarrow> int \<Rightarrow> redis \<Rightarrow> redis" where
  "EXPIRE t k ttl r =
     (case GET t k r of
        None \<Rightarrow> r
      | Some v \<Rightarrow> if ttl \<le> 0 then r\<lparr>r_strs := (r_strs r)(k := None)\<rparr>
                  else r\<lparr>r_strs := (r_strs r)(k \<mapsto> (v, t + ttl))\<rparr>)"

definition DEL :: "string \<Rightarrow> redis \<Rightarrow> redis" where
  "DEL k r = r\<lparr>r_strs := (r_strs r)(k := None)\<rparr>"

lemmas redis_defs = SADD_def SREM_def SISMEMBER_def SCARD_def RPUSH_def LPOP_def LLEN_def
  ZREVRANGE0_def ZADD_def ZREM_def

subsection \<open>The highest member\<close>

lemma zset_last_None [simp]: "zset_last zs = None \<longleftrightarrow> zs = []"
  by (cases zs) (auto split: option.splits)

lemma zset_last_max:
  "zset_last zs = Some (m, s) \<Longrightarrow> (m, s) \<in> set zs \<and> (\<forall>(m', s') \<in> set zs. s' \<le> s)"
proof (induction zs arbitrary: m s)
  case (Cons x zs)
  show ?case
  proof (cases "zset_last zs")
    case None
    with Cons.prems show ?thesis by auto
  next
    case (Some y)
    then obtain m1 s1 where y: "zset_last zs = Some (m1, s1)" by (cases y) auto
    obtain m0 s0 where x: "x = (m0, s0)" by fastforce
    have IH: "(m1, s1) \<in> set zs" "\<forall>(m', s') \<in> set zs. s' \<le> s1"
      using Cons.IH [OF y] by auto
    from Cons.prems y x show ?thesis
      using IH by (fastforce split: if_splits)
  qed
qed simp

lemma ZADD_new:
  "m \<notin> fst ` set (r_zsets r k) \<Longrightarrow> r_zsets (ZADD k s m r) k = r_zsets r k @ [(m, s)]"
  by (simp add: ZADD_def)

lemma ZADD_present:
  assumes "(m, s) \<in> set (r_zsets r k)" and "inj_on fst (set (r_zsets r k))"
  shows "ZADD k s m r = r"
proof -
  have "map (\<lambda>(m', s'). (m', if m' = m then s else s')) (r_zsets r k) = r_zsets r k"
    using assms by (intro map_idI) (auto simp: inj_on_def, force)
  moreover have "m \<in> fst ` set (r_zsets r k)"
    using assms(1) by force
  ultimately show ?thesis by (simp add: ZADD_def)
qed

end
