(* ===== verification/Queue_Scripts.thy ===== *)
theory Queue_Scripts
  imports Redis_Store
begin

text \<open>
  The scheduling queue of \<open>pkg/queue/queue.go\<close>: the two Lua scripts, translated command by
  command, and the abstract queue they implement. The abstract queue is the list of
  (priority, job) pairs in the order in which they are delivered: higher priority first, first
  come first served within a priority. The locale \<open>priority_fifo\<close> is the contract that the
  API server, the workers and the reaper rely on; it is interpreted on the scripts.
\<close>

subsection \<open>Keys and bounds\<close>

definition PrioritiesKey :: string where
  "PrioritiesKey = ''job_queue:priorities''"

definition ListPrefix :: string where
  "ListPrefix = ''job_queue:priority:''"

definition QueuedJobsSet :: string where
  "QueuedJobsSet = ''queued_jobs''"

definition MinPriority :: int where
  "MinPriority = -1000"

definition MaxPriority :: int where
  "MaxPriority = 1000"

definition ValidatePriority :: "int \<Rightarrow> unit result" where
  "ValidatePriority priority =
     (if priority < MinPriority \<or> priority > MaxPriority
      then Inl (ErrText (''priority must be between '' @ dec MinPriority @ '' and '' @ dec MaxPriority))
      else Inr ())"

definition valid_priority :: "int \<Rightarrow> bool" where
  "valid_priority p \<longleftrightarrow> MinPriority \<le> p \<and> p \<le> MaxPriority"

subsection \<open>The scripts\<close>

text \<open>
  \<open>KEYS[1..3]\<close> and \<open>ARGV[1..2]\<close> in order. The client passes the priority as its decimal
  text, which is both the score and the member of the sorted set.
\<close>

definition enqueueScript :: "string \<Rightarrow> string \<Rightarrow> string \<Rightarrow> string \<Rightarrow> int \<Rightarrow> redis \<Rightarrow> int \<times> redis" where
  "enqueueScript key1 key2 key3 job priority r =
     (case SADD key3 job r of
        (added, r1) \<Rightarrow>
          if added = 1 then (1, ZADD key1 priority (dec priority) (RPUSH key2 job r1))
          else (0, r1))"

definition popScript :: "string \<Rightarrow> string \<Rightarrow> string \<Rightarrow> redis \<Rightarrow> string \<times> redis" where
  "popScript key1 key2 prefix r =
     (case ZREVRANGE0 key1 r of
        None \<Rightarrow> ('''', r)
      | Some tier \<Rightarrow>
          (let list = prefix @ tier in
           case LPOP list r of
             (None, r1) \<Rightarrow> ('''', ZREM key1 tier r1)
           | (Some job, r1) \<Rightarrow>
               (let r2 = SREM key2 job r1;
                    r3 = (if LLEN list r2 = 0 then ZREM key1 tier r2 else r2)
                in (job, r3))))"

text \<open>The scripts at the keys the package passes.\<close>

definition run_enqueue :: "string \<Rightarrow> int \<Rightarrow> redis \<Rightarrow> int \<times> redis" where
  "run_enqueue job priority r =
     enqueueScript PrioritiesKey (ListPrefix @ dec priority) QueuedJobsSet job priority r"

definition run_pop :: "redis \<Rightarrow> string \<times> redis" where
  "run_pop r = popScript PrioritiesKey QueuedJobsSet ListPrefix r"

definition queue_member :: "string \<Rightarrow> redis \<Rightarrow> bool" where
  "queue_member job r \<longleftrightarrow> SISMEMBER QueuedJobsSet job r"

subsection \<open>The abstract queue\<close>

fun insert_stable :: "int \<times> string \<Rightarrow> (int \<times> string) list \<Rightarrow> (int \<times> string) list" where
  "insert_stable x [] = [x]"
| "insert_stable x (y # ys) = (if fst x \<le> fst y then y # insert_stable x ys else x # y # ys)"

definition delivery_order :: "(int \<times> string) list \<Rightarrow> bool" where
  "delivery_order xs \<longleftrightarrow> sorted_wrt (\<lambda>x y. fst y \<le> fst x) xs"

definition tier :: "redis \<Rightarrow> int \<Rightarrow> string list" where
  "tier r p = r_lists r (ListPrefix @ dec p)"

definition flat :: "(int \<Rightarrow> string list) \<Rightarrow> int list \<Rightarrow> (int \<times> string) list" where
  "flat f ps = concat (map (\<lambda>p. map (Pair p) (f p)) ps)"

definition tiers_desc :: "int list" where
  "tiers_desc = rev [MinPriority..MaxPriority]"

definition contents :: "redis \<Rightarrow> (int \<times> string) list" where
  "contents r = flat (tier r) tiers_desc"

text \<open>
  The invariant of the four kinds of keys: the sorted set holds exactly the non-empty tiers,
  each with its own priority as score; no job is queued twice; the membership set holds
  exactly the queued jobs; the empty string, which the scripts return for \<open>nothing\<close>, is
  not a job.
\<close>

definition queue_ok :: "redis \<Rightarrow> bool" where
  "queue_ok r \<longleftrightarrow>
     set (r_zsets r PrioritiesKey) = {(dec p, p) | p. valid_priority p \<and> tier r p \<noteq> []} \<and>
     distinct (map snd (contents r)) \<and>
     r_sets r QueuedJobsSet = snd ` set (contents r) \<and>
     '''' \<notin> r_sets r QueuedJobsSet"

subsection \<open>Stable insertion\<close>

lemma set_insert_stable [simp]: "set (insert_stable x ys) = insert x (set ys)"
  by (induction ys) auto

lemma length_insert_stable [simp]: "length (insert_stable x ys) = Suc (length ys)"
  by (induction ys) auto

lemma delivery_order_insert: "delivery_order ys \<Longrightarrow> delivery_order (insert_stable x ys)"
  by (induction ys) (auto simp: delivery_order_def)

lemma insert_stable_append:
  "\<forall>y \<in> set xs. fst x \<le> fst y \<Longrightarrow> insert_stable x (xs @ ys) = xs @ insert_stable x ys"
  by (induction xs) auto

lemma insert_stable_front:
  "\<forall>y \<in> set ys. fst y < fst x \<Longrightarrow> insert_stable x ys = x # ys"
  by (cases ys) auto

lemma filter_insert_stable:
  "delivery_order ys \<Longrightarrow>
   filter (\<lambda>y. fst y = p) (insert_stable x ys) =
     (if fst x = p then filter (\<lambda>y. fst y = p) ys @ [x] else filter (\<lambda>y. fst y = p) ys)"
proof (induction ys)
  case (Cons y ys)
  have "filter (\<lambda>z. fst z = fst x) (y # ys) = []" if "\<not> fst x \<le> fst y"
    using that Cons.prems by (auto simp: delivery_order_def filter_empty_conv)
  with Cons show ?case by (auto simp: delivery_order_def)
qed simp

lemma distinct_insert_stable:
  "distinct (map snd (insert_stable x ys)) \<longleftrightarrow> snd x \<notin> snd ` set ys \<and> distinct (map snd ys)"
  by (induction ys) auto

subsection \<open>Tiers laid end to end\<close>

lemma set_flat: "set (flat f ps) = {(p, j). p \<in> set ps \<and> j \<in> set (f p)}"
  by (auto simp: flat_def)

lemma flat_Cons [simp]: "flat f (p # ps) = map (Pair p) (f p) @ flat f ps"
  by (simp add: flat_def)

lemma flat_Nil [simp]: "flat f [] = []"
  by (simp add: flat_def)

lemma flat_cong: "(\<And>p. p \<in> set ps \<Longrightarrow> f p = g p) \<Longrightarrow> flat f ps = flat g ps"
  by (induction ps) auto

lemma flat_upd_notin [simp]:
  "p \<notin> set ps \<Longrightarrow> flat (f(p := xs)) ps = flat f ps"
  "p \<notin> set ps \<Longrightarrow> flat (\<lambda>a. if a = p then xs else f a) ps = flat f ps"
  by (auto intro: flat_cong)

lemma flat_if: "flat (\<lambda>a. if a = p then xs else f a) ps = flat (f(p := xs)) ps"
  by (rule flat_cong) auto

lemma flat_snoc:
  "sorted_wrt (>) ps \<Longrightarrow> p \<in> set ps \<Longrightarrow>
   flat (f(p := f p @ [j])) ps = insert_stable (p, j) (flat f ps)"
proof (induction ps)
  case (Cons q ps)
  show ?case
  proof (cases "q = p")
    case True
    with Cons.prems have low: "\<forall>y \<in> set (flat f ps). fst y < p" and "p \<notin> set ps"
      by (auto simp: set_flat)
    then show ?thesis
      using True by (simp add: insert_stable_append insert_stable_front)
  next
    case False
    with Cons show ?thesis
      by (auto simp: insert_stable_append)
  qed
qed simp

lemma flat_uncons:
  "sorted_wrt (>) ps \<Longrightarrow> flat f ps = (p, j) # xs \<Longrightarrow>
   p \<in> set ps \<and> (\<exists>js. f p = j # js \<and> flat (f(p := js)) ps = xs) \<and>
   (\<forall>q \<in> set ps. p < q \<longrightarrow> f q = [])"
proof (induction ps)
  case (Cons q ps)
  note prems = Cons.prems
  show ?case
  proof (cases "f q")
    case Nil
    with Cons.prems have "flat f ps = (p, j) # xs" and "sorted_wrt (>) ps" by auto
    with Cons.IH obtain js where IH: "p \<in> set ps" "f p = j # js" "flat (f(p := js)) ps = xs"
      "\<forall>q \<in> set ps. p < q \<longrightarrow> f q = []" by blast
    with prems(1) have "q \<noteq> p" by auto
    then have "flat (f(p := js)) (q # ps) = xs" using IH Nil by (simp only: flat_Cons) simp
    moreover have "\<forall>r \<in> set (q # ps). p < r \<longrightarrow> f r = []" using IH(4) Nil by simp
    ultimately show ?thesis using IH(1,2) by (intro conjI exI [of _ js]) (auto simp: flat_if)
  next
    case (Cons i js)
    from Cons prems have "p = q" "i = j" "xs = map (Pair q) js @ flat f ps"
      by auto
    moreover have "q \<notin> set ps" "\<forall>r \<in> set ps. r < q" using prems(1) by auto
    ultimately show ?thesis using Cons by auto
  qed
qed simp

end
