(* ===== verification/Queue_Refinement.thy ===== *)
theory Queue_Refinement
  imports Queue_Scripts
begin

text \<open>
  The scripts implement the abstract queue: an enqueue inserts behind every job of the same or
  a higher priority, a pop takes the front, and both keep \<open>queue_ok\<close>. The contract is the
  locale \<open>priority_fifo\<close>; what a client can conclude from it (idempotent enqueue, delivery in
  order) is proved in the locale and reaches the scripts by interpretation.
\<close>

subsection \<open>Tiers of the keyspace\<close>

lemma tiers_desc_sorted: "sorted_wrt (>) tiers_desc"
  by (simp add: tiers_desc_def sorted_wrt_rev)

lemma set_tiers_desc [simp]: "p \<in> set tiers_desc \<longleftrightarrow> valid_priority p"
  by (simp add: tiers_desc_def valid_priority_def)

lemma set_contents: "set (contents r) = {(p, j). valid_priority p \<and> j \<in> set (tier r p)}"
  by (auto simp: contents_def set_flat)

lemma contents_delivery_order: "delivery_order (contents r)"
proof -
  have "delivery_order (flat f ps)" if "sorted_wrt (>) ps" for f ps
    using that
    by (induction ps) (auto simp: delivery_order_def sorted_wrt_append set_flat sorted_wrt_map)
  then show ?thesis by (simp add: contents_def tiers_desc_sorted)
qed

lemma tier_list_update [redis_simps]:
  "tier (r\<lparr>r_lists := (r_lists r)(ListPrefix @ dec p := xs)\<rparr>) = (tier r)(p := xs)"
  by (auto simp: tier_def fun_eq_iff)

lemma tier_cong [redis_simps]:
  "tier (r\<lparr>r_sets := a\<rparr>) = tier r" "tier (r\<lparr>r_zsets := b\<rparr>) = tier r" "tier (r\<lparr>r_strs := c\<rparr>) = tier r"
  by (simp_all add: tier_def fun_eq_iff)

lemma contents_other [redis_simps]:
  "contents (r\<lparr>r_strs := c\<rparr>) = contents r"
  by (simp add: contents_def tier_cong)

lemma queue_ok_strs [redis_simps]: "queue_ok (r\<lparr>r_strs := c\<rparr>) = queue_ok r"
  by (simp add: queue_ok_def redis_simps)

lemma flat_empty: "flat (\<lambda>_. []) ps = []"
  by (induction ps) simp_all

lemma queue_ok_empty: "queue_ok empty_redis"
proof -
  have "tier empty_redis = (\<lambda>_. [])" by (simp add: tier_def empty_redis_def fun_eq_iff)
  then show ?thesis by (simp add: queue_ok_def contents_def flat_empty) (simp add: empty_redis_def)
qed

lemma queue_ok_fsts:
  "queue_ok r \<Longrightarrow> fst ` set (r_zsets r PrioritiesKey) = {dec p | p. valid_priority p \<and> tier r p \<noteq> []}"
  unfolding queue_ok_def by (auto simp: image_iff)

lemma queue_ok_inj: "queue_ok r \<Longrightarrow> inj_on fst (set (r_zsets r PrioritiesKey))"
  by (auto simp: queue_ok_def inj_on_def)

lemma queue_ok_zset:
  "queue_ok r \<Longrightarrow>
   (m, s) \<in> set (r_zsets r PrioritiesKey) \<longleftrightarrow> m = dec s \<and> valid_priority s \<and> tier r s \<noteq> []"
  by (auto simp: queue_ok_def)

lemma queue_ok_no_empty: "queue_ok r \<Longrightarrow> '''' \<notin> r_sets r QueuedJobsSet"
  unfolding queue_ok_def by blast

subsection \<open>Enqueue\<close>

lemma run_enqueue_member: "queue_member j r \<Longrightarrow> run_enqueue j p r = (0, r)"
  by (simp add: run_enqueue_def enqueueScript_def SADD_def queue_member_def SISMEMBER_def)

definition pushed :: "string \<Rightarrow> int \<Rightarrow> redis \<Rightarrow> redis" where
  "pushed j p r = r\<lparr>r_sets := (r_sets r)(QueuedJobsSet := insert j (r_sets r QueuedJobsSet)),
                    r_lists := (r_lists r)(ListPrefix @ dec p := r_lists r (ListPrefix @ dec p) @ [j])\<rparr>"

lemma run_enqueue_new:
  "\<not> queue_member j r \<Longrightarrow> run_enqueue j p r = (1, ZADD PrioritiesKey p (dec p) (pushed j p r))"
  by (simp add: run_enqueue_def enqueueScript_def SADD_def RPUSH_def queue_member_def SISMEMBER_def
      pushed_def)

lemma tier_pushed: "tier (pushed j p r) = (tier r)(p := tier r p @ [j])"
  by (auto simp: pushed_def tier_def fun_eq_iff)

lemma tier_ZADD [simp]: "tier (ZADD k s m r) = tier r"
  by (simp add: ZADD_def tier_cong)

lemma tier_ZREM [simp]: "tier (ZREM k m r) = tier r"
  by (simp add: ZREM_def tier_cong)

lemma contents_by_tier: "tier r = tier q \<Longrightarrow> contents r = contents q"
  by (simp add: contents_def)

lemma contents_pushed:
  "valid_priority p \<Longrightarrow> contents (pushed j p r) = insert_stable (p, j) (contents r)"
  by (simp add: contents_def tier_pushed flat_snoc tiers_desc_sorted)

lemma zset_pushed:
  assumes "queue_ok r" and "valid_priority p"
  shows "set (r_zsets (ZADD PrioritiesKey p (dec p) (pushed j p r)) PrioritiesKey) =
         insert (dec p, p) (set (r_zsets r PrioritiesKey))"
proof (cases "tier r p = []")
  case True
  with assms have "dec p \<notin> fst ` set (r_zsets (pushed j p r) PrioritiesKey)"
    by (auto simp: queue_ok_fsts pushed_def)
  then show ?thesis by (simp add: ZADD_new) (simp add: pushed_def)
next
  case False
  with assms have "(dec p, p) \<in> set (r_zsets (pushed j p r) PrioritiesKey)"
    by (simp add: queue_ok_zset pushed_def)
  moreover have "inj_on fst (set (r_zsets (pushed j p r) PrioritiesKey))"
    using queue_ok_inj [OF assms(1)] by (simp add: pushed_def)
  ultimately show ?thesis
    by (simp add: ZADD_present) (simp add: pushed_def insert_absorb)
qed

lemma run_enqueue_contents:
  assumes "queue_ok r" and "valid_priority p"
  shows "contents (snd (run_enqueue j p r)) =
         (if queue_member j r then contents r else insert_stable (p, j) (contents r))"
  using assms
  by (auto simp: run_enqueue_member run_enqueue_new contents_pushed [symmetric] intro: contents_by_tier)

lemma queue_ok_enqueue:
  assumes ok: "queue_ok r" and p: "valid_priority p" and j: "j \<noteq> ''''"
  shows "queue_ok (snd (run_enqueue j p r))"
proof (cases "queue_member j r")
  case True
  with ok show ?thesis by (simp add: run_enqueue_member)
next
  case False
  let ?r = "ZADD PrioritiesKey p (dec p) (pushed j p r)"
  have c: "contents ?r = insert_stable (p, j) (contents r)"
    using contents_by_tier [OF tier_ZADD] contents_pushed [OF p] by (rule trans)
  have new: "j \<notin> snd ` set (contents r)"
    using False ok by (simp add: queue_member_def SISMEMBER_def queue_ok_def)
  have sets: "r_sets ?r QueuedJobsSet = insert j (r_sets r QueuedJobsSet)"
    by (simp add: ZADD_def pushed_def)
  have "insert (dec p, p) (set (r_zsets r PrioritiesKey)) =
        {(dec q, q) | q. valid_priority q \<and> tier ?r q \<noteq> []}"
    using ok p by (auto simp: queue_ok_def tier_pushed)
  moreover have "distinct (map snd (contents ?r))"
    using ok new by (simp add: c distinct_insert_stable queue_ok_def)
  moreover have "r_sets ?r QueuedJobsSet = snd ` set (contents ?r)"
    using ok by (simp add: c sets queue_ok_def)
  moreover have "'''' \<notin> r_sets ?r QueuedJobsSet"
    using queue_ok_no_empty [OF ok] j by (simp add: sets)
  ultimately have "queue_ok ?r"
    unfolding queue_ok_def [of ?r] zset_pushed [OF ok p] by blast
  with False show ?thesis by (simp add: run_enqueue_new)
qed

lemma run_enqueue_member_after:
  "queue_member k (snd (run_enqueue j p r)) \<longleftrightarrow> k = j \<or> queue_member k r"
  by (cases "queue_member j r")
     (auto simp: run_enqueue_member run_enqueue_new, auto simp: queue_member_def SISMEMBER_def ZADD_def pushed_def)

subsection \<open>Pop\<close>

lemma highest_tier:
  assumes ok: "queue_ok r" and c: "contents r = (p, j) # xs"
  shows "ZREVRANGE0 PrioritiesKey r = Some (dec p)"
proof -
  from flat_uncons [OF tiers_desc_sorted c [unfolded contents_def]]
  have p: "valid_priority p" "tier r p \<noteq> []" and low: "\<And>q. valid_priority q \<Longrightarrow> p < q \<Longrightarrow> tier r q = []"
    by auto
  with ok have mem: "(dec p, p) \<in> set (r_zsets r PrioritiesKey)" by (simp add: queue_ok_zset)
  then obtain m s where z: "zset_last (r_zsets r PrioritiesKey) = Some (m, s)"
    by (cases "zset_last (r_zsets r PrioritiesKey)") auto
  from zset_last_max [OF z] mem ok have "p \<le> s" and ms: "m = dec s" "valid_priority s" "tier r s \<noteq> []"
    by (auto simp: queue_ok_zset)
  with low [of s] have "s = p" by fastforce
  with z ms show ?thesis by (simp add: ZREVRANGE0_def)
qed

definition popped :: "string \<Rightarrow> int \<Rightarrow> string list \<Rightarrow> redis \<Rightarrow> redis" where
  "popped j p js r = r\<lparr>r_lists := (r_lists r)(ListPrefix @ dec p := js),
                       r_sets := (r_sets r)(QueuedJobsSet := r_sets r QueuedJobsSet - {j})\<rparr>"

lemma tier_popped: "tier (popped j p js r) = (tier r)(p := js)"
  by (auto simp: popped_def tier_def fun_eq_iff)

lemma run_pop_cons:
  assumes "ZREVRANGE0 PrioritiesKey r = Some (dec p)" and "tier r p = j # js"
  shows "run_pop r =
    (j, if js = [] then ZREM PrioritiesKey (dec p) (popped j p js r) else popped j p js r)"
  using assms
  by (simp add: run_pop_def popScript_def LPOP_def SREM_def LLEN_def tier_def popped_def Let_def)

lemma zset_popped:
  assumes ok: "queue_ok r" and p: "valid_priority p" and t: "tier r p = j # js"
  shows "set (r_zsets (if js = [] then ZREM PrioritiesKey (dec p) (popped j p js r) else popped j p js r)
           PrioritiesKey) = {(dec q, q) | q. valid_priority q \<and> ((tier r)(p := js)) q \<noteq> []}"
proof -
  have z: "set (r_zsets r PrioritiesKey) = {(dec q, q) | q. valid_priority q \<and> tier r q \<noteq> []}"
    using ok by (simp add: queue_ok_def)
  show ?thesis
    using p t z by (auto simp: ZREM_def popped_def)
qed

lemma run_pop_first:
  assumes ok: "queue_ok r" and c: "contents r = (p, j) # xs"
  shows "fst (run_pop r) = j" and "contents (snd (run_pop r)) = xs" and "queue_ok (snd (run_pop r))"
proof -
  obtain js where p: "valid_priority p" and t: "tier r p = j # js"
    and rest: "flat ((tier r)(p := js)) tiers_desc = xs"
    using flat_uncons [OF tiers_desc_sorted c [unfolded contents_def]] by auto
  let ?r = "if js = [] then ZREM PrioritiesKey (dec p) (popped j p js r) else popped j p js r"
  have pop: "run_pop r = (j, ?r)" by (rule run_pop_cons [OF highest_tier [OF ok c] t])
  have tr: "tier ?r = (tier r)(p := js)" by (simp add: tier_popped)
  have cr: "contents ?r = xs" by (simp only: contents_def tr rest)
  have sr: "r_sets ?r QueuedJobsSet = r_sets r QueuedJobsSet - {j}" by (simp add: ZREM_def popped_def)
  have "r_sets ?r QueuedJobsSet = snd ` set (contents ?r)"
    using ok c unfolding cr sr by (auto simp: queue_ok_def)
  moreover have "distinct (map snd (contents ?r))"
    using ok c unfolding cr by (simp add: queue_ok_def)
  moreover have "'''' \<notin> r_sets ?r QueuedJobsSet"
    using queue_ok_no_empty [OF ok] unfolding sr by simp
  ultimately have "queue_ok ?r"
    unfolding queue_ok_def tr using zset_popped [OF ok p t] by blast
  with pop cr show "fst (run_pop r) = j" and "contents (snd (run_pop r)) = xs"
    and "queue_ok (snd (run_pop r))" by simp_all
qed

lemma run_pop_empty:
  assumes ok: "queue_ok r" and c: "contents r = []"
  shows "run_pop r = ('''', r)"
proof -
  have "tier r p = []" if "valid_priority p" for p
    using c that set_contents [of r] by auto
  then have "{(dec p, p) | p. valid_priority p \<and> tier r p \<noteq> []} = {}" by blast
  with ok have "r_zsets r PrioritiesKey = []" by (simp add: queue_ok_def)
  then show ?thesis by (simp add: run_pop_def popScript_def ZREVRANGE0_def)
qed

lemma queue_ok_pop: "queue_ok r \<Longrightarrow> queue_ok (snd (run_pop r))"
  by (cases "contents r") (auto simp: run_pop_empty run_pop_first)

lemma run_pop_subset:
  "queue_ok r \<Longrightarrow> set (contents (snd (run_pop r))) \<subseteq> set (contents r)"
  by (cases "contents r") (auto simp: run_pop_empty run_pop_first)

lemma queue_member_contents: "queue_ok r \<Longrightarrow> queue_member j r \<longleftrightarrow> j \<in> snd ` set (contents r)"
  by (simp add: queue_member_def SISMEMBER_def queue_ok_def)

subsection \<open>The contract\<close>

text \<open>
  What the clients rely on. \<open>enq j p\<close> and \<open>deq\<close> are the state changes of the scripts, \<open>items\<close>
  the pending jobs in delivery order; \<open>deq\<close> returns the empty string when there is no job.
\<close>

locale priority_fifo =
  fixes invar :: "'q \<Rightarrow> bool"
    and items :: "'q \<Rightarrow> (int \<times> string) list"
    and admissible :: "int \<Rightarrow> bool"
    and enq :: "string \<Rightarrow> int \<Rightarrow> 'q \<Rightarrow> 'q"
    and deq :: "'q \<Rightarrow> string \<times> 'q"
    and member :: "string \<Rightarrow> 'q \<Rightarrow> bool"
  assumes items_order: "invar q \<Longrightarrow> delivery_order (items q)"
    and items_distinct: "invar q \<Longrightarrow> distinct (map snd (items q))"
    and items_proper: "invar q \<Longrightarrow> '''' \<notin> snd ` set (items q)"
    and member_items: "invar q \<Longrightarrow> member j q \<longleftrightarrow> j \<in> snd ` set (items q)"
    and enq_items: "invar q \<Longrightarrow> admissible p \<Longrightarrow> j \<noteq> '''' \<Longrightarrow>
      items (enq j p q) = (if member j q then items q else insert_stable (p, j) (items q))"
    and enq_invar: "invar q \<Longrightarrow> admissible p \<Longrightarrow> j \<noteq> '''' \<Longrightarrow> invar (enq j p q)"
    and deq_empty: "invar q \<Longrightarrow> items q = [] \<Longrightarrow> deq q = ('''', q)"
    and deq_items: "invar q \<Longrightarrow> items q = (p, j) # xs \<Longrightarrow> fst (deq q) = j \<and> items (snd (deq q)) = xs"
    and deq_invar: "invar q \<Longrightarrow> invar (snd (deq q))"
begin

lemma enq_member: "invar q \<Longrightarrow> admissible p \<Longrightarrow> j \<noteq> '''' \<Longrightarrow> member j (enq j p q)"
  by (simp add: member_items enq_invar enq_items)

lemma enq_idempotent:
  assumes "invar q" and "admissible p" and "admissible p'" and "j \<noteq> ''''"
  shows "items (enq j p' (enq j p q)) = items (enq j p q)"
  using assms enq_member [of q p j] by (simp add: enq_items [of "enq j p q"] enq_invar)

lemma deq_none_iff: "invar q \<Longrightarrow> fst (deq q) = '''' \<longleftrightarrow> items q = []"
  using deq_empty [of q] deq_items [of q] items_proper [of q]
  by (cases "items q") force+

lemma deq_not_member: "invar q \<Longrightarrow> \<not> member (fst (deq q)) (snd (deq q))"
  using deq_empty [of q] deq_items [of q] items_distinct [of q] items_proper [of q]
  by (cases "items q") (force simp: member_items deq_invar)+

lemma deq_highest:
  assumes "invar q" and "items q = (p, j) # xs" and "(p', j') \<in> set (items q)"
  shows "p' \<le> p"
  using items_order [OF assms(1)] assms(2,3) by (auto simp: delivery_order_def)

lemma deqs_drop:
  "invar q \<Longrightarrow> items (((\<lambda>q. snd (deq q)) ^^ n) q) = drop n (items q) \<and> invar (((\<lambda>q. snd (deq q)) ^^ n) q)"
proof (induction n)
  case (Suc n)
  let ?q = "((\<lambda>q. snd (deq q)) ^^ n) q"
  from Suc have q: "items ?q = drop n (items q)" "invar ?q" by blast+
  show ?case
  proof (cases "items ?q")
    case Nil
    with q have "deq ?q = ('''', ?q)" and "drop (Suc n) (items q) = []" by (simp_all add: deq_empty)
    with q Nil show ?thesis by simp
  next
    case (Cons x xs)
    obtain p j where "x = (p, j)" by fastforce
    with Cons q deq_items [of ?q p j xs] have "items (snd (deq ?q)) = xs" by simp
    moreover have "drop (Suc n) (items q) = xs"
      using Cons q by (metis drop_Suc list.sel(3) tl_drop)
    ultimately show ?thesis using q by (simp add: deq_invar)
  qed
qed simp

lemma enq_other_tiers:
  assumes "invar q" and "admissible p" and "j \<noteq> ''''" and "p' \<noteq> p"
  shows "filter (\<lambda>x. fst x = p') (items (enq j p q)) = filter (\<lambda>x. fst x = p') (items q)"
  using assms by (simp add: enq_items filter_insert_stable items_order)

lemma enq_fifo:
  assumes "invar q" and "admissible p" and "j \<noteq> ''''" and "\<not> member j q"
  shows "filter (\<lambda>x. fst x = p) (items (enq j p q)) = filter (\<lambda>x. fst x = p) (items q) @ [(p, j)]"
  using assms by (simp add: enq_items filter_insert_stable items_order)

end

interpretation rq: priority_fifo queue_ok contents valid_priority "\<lambda>j p r. snd (run_enqueue j p r)" run_pop queue_member
proof
  fix q :: redis
  assume "queue_ok q"
  then show "distinct (map snd (contents q))" and "'''' \<notin> snd ` set (contents q)"
    using queue_ok_no_empty [of q] by (auto simp: queue_ok_def)
qed (auto simp: contents_delivery_order queue_member_contents run_enqueue_contents queue_ok_enqueue
    run_pop_empty run_pop_first queue_ok_pop)

end
