(* ===== verification/Schema.thy ===== *)
theory Schema
  imports Go_Text
begin

text \<open>
  The database of \<open>migrations/000001_init_schema.up.sql\<close> and
  \<open>migrations/000002_attempts_and_timings.up.sql\<close>: its enumerations, one record per table row,
  and the statements' shared parts: inserts that check the table's constraints, updates of
  \<open>jobs\<close> that fire the trigger \<open>set_updated_at\<close>, lookups by primary key. Timestamps and
  durations are in nanoseconds; \<open>t\<close> is the \<open>now()\<close> of the statement's transaction.
\<close>

datatype job_status = Queued | Processing | Completed | Dead
datatype attempt_status = Running | AttemptCompleted | Failed | Expired
datatype worker_status = Idle | Busy | WorkerDead
datatype output_type = Video360 | Video720 | Video1080 | Thumbnail

fun job_status_text :: "job_status \<Rightarrow> string" where
  "job_status_text Queued = ''queued''"
| "job_status_text Processing = ''processing''"
| "job_status_text Completed = ''completed''"
| "job_status_text Dead = ''dead''"

fun attempt_status_text :: "attempt_status \<Rightarrow> string" where
  "attempt_status_text Running = ''running''"
| "attempt_status_text AttemptCompleted = ''completed''"
| "attempt_status_text Failed = ''failed''"
| "attempt_status_text Expired = ''expired''"

fun worker_status_text :: "worker_status \<Rightarrow> string" where
  "worker_status_text Idle = ''idle''"
| "worker_status_text Busy = ''busy''"
| "worker_status_text WorkerDead = ''dead''"

fun output_type_text :: "output_type \<Rightarrow> string" where
  "output_type_text Video360 = ''video_360p''"
| "output_type_text Video720 = ''video_720p''"
| "output_type_text Video1080 = ''video_1080p''"
| "output_type_text Thumbnail = ''thumbnail''"

text \<open>The cast of a text parameter to the enumeration.\<close>

definition output_type_of :: "string \<Rightarrow> output_type option" where
  "output_type_of s = find (\<lambda>ty. output_type_text ty = s) [Video360, Video720, Video1080, Thumbnail]"

lemma output_type_of_text [simp]: "output_type_of (output_type_text ty) = Some ty"
  by (cases ty) (simp_all add: output_type_of_def)

lemma output_type_of_Some: "output_type_of s = Some ty \<Longrightarrow> s = output_type_text ty"
  by (auto simp: output_type_of_def split: if_splits)

text \<open>
  The contract of an enumerated column read as text: different values have different labels, and
  the labels are the listed ones.
\<close>

locale enum_text =
  fixes label :: "'e \<Rightarrow> string" and labels :: "string list"
  assumes text_inject: "label a = label b \<longleftrightarrow> a = b"
    and text_label: "label a \<in> set labels"
begin

lemma column_filter: "filter (\<lambda>r. label (column r) = label a) rows = filter (\<lambda>r. column r = a) rows"
  by (simp add: text_inject)

end

interpretation job_text: enum_text job_status_text "map job_status_text [Queued, Processing, Completed, Dead]"
proof
  show "job_status_text a = job_status_text b \<longleftrightarrow> a = b" for a b by (cases a; cases b) simp_all
  show "job_status_text a \<in> set (map job_status_text [Queued, Processing, Completed, Dead])" for a by (cases a) simp_all
qed

interpretation attempt_text: enum_text attempt_status_text "[''running'', ''completed'', ''failed'', ''expired'']"
proof
  show "attempt_status_text a = attempt_status_text b \<longleftrightarrow> a = b" for a b by (cases a; cases b) simp_all
  show "attempt_status_text a \<in> set [''running'', ''completed'', ''failed'', ''expired'']" for a by (cases a) simp_all
qed

interpretation worker_text: enum_text worker_status_text "[''idle'', ''busy'', ''dead'']"
proof
  show "worker_status_text a = worker_status_text b \<longleftrightarrow> a = b" for a b by (cases a; cases b) simp_all
  show "worker_status_text a \<in> set [''idle'', ''busy'', ''dead'']" for a by (cases a) simp_all
qed

interpretation output_text: enum_text output_type_text "map output_type_text [Video360, Video720, Video1080, Thumbnail]"
proof
  show "output_type_text a = output_type_text b \<longleftrightarrow> a = b" for a b by (metis output_type_of_text option.inject)
  show "output_type_text a \<in> set (map output_type_text [Video360, Video720, Video1080, Thumbnail])" for a by (cases a) simp_all
qed

record job_row =
  j_id :: uuid
  j_status :: job_status
  j_retry_count :: int
  j_max_retries :: int
  j_priority :: int
  j_input_file :: string
  j_created_at :: time
  j_updated_at :: time
  j_queue_entered_at :: time
  j_current_attempt :: "uuid option"
  j_completed_attempt :: "uuid option"
  j_completed_at :: "time option"

record attempt_row =
  a_id :: uuid
  a_job :: uuid
  a_number :: int
  a_worker :: "uuid option"
  a_status :: attempt_status
  a_queue_entered_at :: time
  a_started_at :: time
  a_last_heartbeat :: time
  a_lease_expires_at :: time
  a_finished_at :: "time option"
  a_phase :: string
  a_mode :: string
  a_failure_category :: "string option"
  a_failure_detail :: "string option"
  a_download_ms :: "int option"
  a_processing_ms :: "int option"
  a_upload_ms :: "int option"

record worker_row =
  w_id :: uuid
  w_status :: worker_status
  w_current_job :: "uuid option"
  w_last_heartbeat :: time

record output_row =
  o_id :: uuid
  o_job :: uuid
  o_attempt :: "uuid option"
  o_type :: output_type
  o_cdn_url :: string
  o_file_size :: int
  o_created_at :: time

record database =
  jobs :: "job_row list"
  job_attempts :: "attempt_row list"
  workers :: "worker_row list"
  job_outputs :: "output_row list"

definition empty_db :: database where
  "empty_db = \<lparr>jobs = [], job_attempts = [], workers = [], job_outputs = []\<rparr>"

definition job_at :: "database \<Rightarrow> uuid \<Rightarrow> job_row option" where
  "job_at d = row_at j_id (jobs d)"

definition attempt_at :: "database \<Rightarrow> uuid \<Rightarrow> attempt_row option" where
  "attempt_at d = row_at a_id (job_attempts d)"

definition worker_at :: "database \<Rightarrow> uuid \<Rightarrow> worker_row option" where
  "worker_at d = row_at w_id (workers d)"

definition int4 :: "int \<Rightarrow> bool" where
  "int4 i \<longleftrightarrow> - (2 ^ 31) \<le> i \<and> i < 2 ^ 31"

definition int8 :: "int \<Rightarrow> bool" where
  "int8 i \<longleftrightarrow> - (2 ^ 63) \<le> i \<and> i < 2 ^ 63"

subsection \<open>Inserts\<close>

definition insert_job :: "job_row \<Rightarrow> database \<Rightarrow> database result" where
  "insert_job row d =
     (if \<not> int4 (j_retry_count row) \<or> \<not> int4 (j_max_retries row) \<or> \<not> int4 (j_priority row)
      then Inl (ErrConstraint ''integer out of range'')
      else if j_retry_count row < 0 then Inl (ErrConstraint ''jobs_retry_count_check'')
      else if j_max_retries row < 0 then Inl (ErrConstraint ''jobs_max_retries_check'')
      else if job_at d (j_id row) \<noteq> None then Inl (ErrConstraint ''jobs_pkey'')
      else Inr (d\<lparr>jobs := jobs d @ [row]\<rparr>))"

definition insert_attempt :: "attempt_row \<Rightarrow> database \<Rightarrow> database result" where
  "insert_attempt row d =
     (if \<not> int4 (a_number row) then Inl (ErrConstraint ''integer out of range'')
      else if a_number row \<le> 0 then Inl (ErrConstraint ''job_attempts_attempt_number_check'')
      else if attempt_at d (a_id row) \<noteq> None then Inl (ErrConstraint ''job_attempts_pkey'')
      else if list_ex (\<lambda>a. a_job a = a_job row \<and> a_number a = a_number row) (job_attempts d)
      then Inl (ErrConstraint ''job_attempts_job_id_attempt_number_key'')
      else if job_at d (a_job row) = None then Inl (ErrConstraint ''job_attempts_job_id_fkey'')
      else if (case a_worker row of None \<Rightarrow> False | Some w \<Rightarrow> worker_at d w = None)
      then Inl (ErrConstraint ''job_attempts_worker_id_fkey'')
      else Inr (d\<lparr>job_attempts := job_attempts d @ [row]\<rparr>))"

text \<open>\<open>INSERT .. ON CONFLICT (job_id, type) DO UPDATE\<close> of an output row.\<close>

definition upsert_output :: "output_row \<Rightarrow> database \<Rightarrow> database result" where
  "upsert_output row d =
     (if \<not> int8 (o_file_size row) then Inl (ErrConstraint ''bigint out of range'')
      else if o_file_size row < 0 then Inl (ErrConstraint ''job_outputs_file_size_check'')
      else if job_at d (o_job row) = None then Inl (ErrConstraint ''job_outputs_job_id_fkey'')
      else if (case o_attempt row of None \<Rightarrow> False | Some a \<Rightarrow> attempt_at d a = None)
      then Inl (ErrConstraint ''job_outputs_attempt_id_fkey'')
      else if list_ex (\<lambda>o'. o_job o' = o_job row \<and> o_type o' = o_type row) (job_outputs d)
      then Inr (d\<lparr>job_outputs := update_where (\<lambda>o'. o_job o' = o_job row \<and> o_type o' = o_type row)
              (\<lambda>o'. o'\<lparr>o_attempt := o_attempt row, o_cdn_url := o_cdn_url row,
                      o_file_size := o_file_size row\<rparr>) (job_outputs d)\<rparr>)
      else if list_ex (\<lambda>o'. o_id o' = o_id row) (job_outputs d)
      then Inl (ErrConstraint ''job_outputs_pkey'')
      else Inr (d\<lparr>job_outputs := job_outputs d @ [row]\<rparr>))"

subsection \<open>Updates\<close>

text \<open>\<open>UPDATE jobs\<close>: the trigger \<open>trg_jobs_updated_at\<close> stamps every row it changes.\<close>

definition update_jobs :: "time \<Rightarrow> (job_row \<Rightarrow> bool) \<Rightarrow> (job_row \<Rightarrow> job_row) \<Rightarrow> database \<Rightarrow> database" where
  "update_jobs t p f d = d\<lparr>jobs := update_where p (\<lambda>j. (f j)\<lparr>j_updated_at := t\<rparr>) (jobs d)\<rparr>"

definition update_attempts :: "(attempt_row \<Rightarrow> bool) \<Rightarrow> (attempt_row \<Rightarrow> attempt_row) \<Rightarrow> database \<Rightarrow> database" where
  "update_attempts p f d = d\<lparr>job_attempts := update_where p f (job_attempts d)\<rparr>"

definition update_workers :: "(worker_row \<Rightarrow> bool) \<Rightarrow> (worker_row \<Rightarrow> worker_row) \<Rightarrow> database \<Rightarrow> database" where
  "update_workers p f d = d\<lparr>workers := update_where p f (workers d)\<rparr>"

subsection \<open>Lookups after a statement\<close>

lemma at_update_jobs [table_simps]:
  "attempt_at (update_jobs t p f d) = attempt_at d" "worker_at (update_jobs t p f d) = worker_at d"
  "job_attempts (update_jobs t p f d) = job_attempts d" "workers (update_jobs t p f d) = workers d"
  "job_outputs (update_jobs t p f d) = job_outputs d"
  by (simp_all add: update_jobs_def attempt_at_def worker_at_def)

lemma at_update_attempts [table_simps]:
  "job_at (update_attempts p f d) = job_at d" "worker_at (update_attempts p f d) = worker_at d"
  "jobs (update_attempts p f d) = jobs d" "workers (update_attempts p f d) = workers d"
  "job_outputs (update_attempts p f d) = job_outputs d"
  by (simp_all add: update_attempts_def job_at_def worker_at_def)

lemma at_update_workers [table_simps]:
  "job_at (update_workers p f d) = job_at d" "attempt_at (update_workers p f d) = attempt_at d"
  "jobs (update_workers p f d) = jobs d" "job_attempts (update_workers p f d) = job_attempts d"
  "job_outputs (update_workers p f d) = job_outputs d"
  by (simp_all add: update_workers_def job_at_def attempt_at_def)

lemma job_at_key: "job_at d k = Some j \<Longrightarrow> j_id j = k"
  unfolding job_at_def by (rule row_at_key)

lemma attempt_at_key: "attempt_at d k = Some a \<Longrightarrow> a_id a = k"
  unfolding attempt_at_def by (rule row_at_key)

lemma worker_at_key: "worker_at d k = Some w \<Longrightarrow> w_id w = k"
  unfolding worker_at_def by (rule row_at_key)

lemma empty_db_at [simp]: "job_at empty_db k = None" "attempt_at empty_db k = None" "worker_at empty_db k = None"
  by (simp_all add: empty_db_def job_at_def attempt_at_def worker_at_def)

end
