(* ===== verification/World.thy ===== *)
theory World
  imports Schema Redis_Store
begin

text \<open>
  The state all processes share (PostgreSQL, Redis, the object store, the clock) and the way a
  process talks to it. \<open>net\<close> lists how the coming calls will be answered and how long each
  takes: a call is executed and answered (\<open>Reply\<close>), not executed (\<open>Refused\<close>), or executed
  with its answer lost (\<open>Lost\<close>); the process sees a driver error in the last two cases. When
  the list is used up every call is answered at once. Theorems quantify over \<open>net\<close>, so they
  hold for every pattern of failures.

  A transaction is one call: a failure of \<open>Begin\<close> or of a statement before the commit leaves
  nothing behind, so all of them are \<open>Refused\<close>; a commit whose outcome the client does not
  learn is \<open>Refused\<close> or \<open>Lost\<close>. A body that returns early without \<open>Commit\<close> returns the
  database it started from. What the model does not contain and a server may still object to (an
  invalid text encoding, a full disk, a cancelled context) is \<open>Refused\<close> too.
\<close>

datatype reply = Reply | Refused | Lost

record object =
  content :: string
  content_type :: string
  cache_control :: string

record world =
  db :: database
  rds :: redis
  objs :: "string \<Rightarrow> object option"
  clock :: time
  net :: "(reply \<times> nat) list"

definition next_reply :: "world \<Rightarrow> reply \<times> world" where
  "next_reply w = (case net w of [] \<Rightarrow> (Reply, w)
     | (r, dt) # rest \<Rightarrow> (r, w\<lparr>net := rest, clock := clock w + int dt\<rparr>))"

text \<open>A statement or a transaction: its effect on the database at a time, or its rejection.\<close>

type_synonym 'a stmt = "time \<Rightarrow> database \<Rightarrow> ('a \<times> database) result"

definition pg :: "'a stmt \<Rightarrow> (world, 'a) call" where
  "pg stmt w =
     (case next_reply w of
        (Refused, w') \<Rightarrow> (Inl ErrDriver, w')
      | (Reply, w') \<Rightarrow>
          (case stmt (clock w') (db w') of
             Inl e \<Rightarrow> (Inl e, w')
           | Inr (x, d) \<Rightarrow> (Inr x, w'\<lparr>db := d\<rparr>))
      | (Lost, w') \<Rightarrow>
          (case stmt (clock w') (db w') of
             Inl e \<Rightarrow> (Inl ErrDriver, w')
           | Inr (x, d) \<Rightarrow> (Inl ErrDriver, w'\<lparr>db := d\<rparr>)))"

definition rd :: "(time \<Rightarrow> redis \<Rightarrow> 'a \<times> redis) \<Rightarrow> (world, 'a) call" where
  "rd cmd w =
     (case next_reply w of
        (Refused, w') \<Rightarrow> (Inl ErrDriver, w')
      | (Reply, w') \<Rightarrow> (case cmd (clock w') (rds w') of (x, r) \<Rightarrow> (Inr x, w'\<lparr>rds := r\<rparr>))
      | (Lost, w') \<Rightarrow> (case cmd (clock w') (rds w') of (x, r) \<Rightarrow> (Inl ErrDriver, w'\<lparr>rds := r\<rparr>)))"

text \<open>A query: a call that reads the database and changes nothing.\<close>

definition query :: "(time \<Rightarrow> database \<Rightarrow> 'a result) \<Rightarrow> (world, 'a) call" where
  "query q = pg (\<lambda>t d. case q t d of Inl e \<Rightarrow> Inl e | Inr x \<Rightarrow> Inr (x, d))"

subsection \<open>The object store\<close>

definition put_object :: "string \<Rightarrow> object \<Rightarrow> (world, unit) call" where
  "put_object k ob w =
     (case next_reply w of
        (Refused, w') \<Rightarrow> (Inl ErrDriver, w')
      | (Reply, w') \<Rightarrow> (Inr (), w'\<lparr>objs := (objs w')(k \<mapsto> ob)\<rparr>)
      | (Lost, w') \<Rightarrow> (Inl ErrDriver, w'\<lparr>objs := (objs w')(k \<mapsto> ob)\<rparr>))"

definition remove_object :: "string \<Rightarrow> (world, unit) call" where
  "remove_object k w =
     (case next_reply w of
        (Refused, w') \<Rightarrow> (Inl ErrDriver, w')
      | (Reply, w') \<Rightarrow> (Inr (), w'\<lparr>objs := (objs w')(k := None)\<rparr>)
      | (Lost, w') \<Rightarrow> (Inl ErrDriver, w'\<lparr>objs := (objs w')(k := None)\<rparr>))"

definition get_object :: "string \<Rightarrow> (world, object) call" where
  "get_object k w =
     (case next_reply w of
        (Reply, w') \<Rightarrow> (case objs w' k of None \<Rightarrow> (Inl (ErrText ''NoSuchKey''), w') | Some ob \<Rightarrow> (Inr ob, w'))
      | (_, w') \<Rightarrow> (Inl ErrDriver, w'))"

definition empty_world :: world where
  "empty_world = \<lparr>db = empty_db, rds = empty_redis, objs = (\<lambda>_. None), clock = 0, net = []\<rparr>"

text \<open>Reading the clock (\<open>time.Now()\<close>) is local and always succeeds.\<close>

definition now :: "(world, time) call" where
  "now w = (Inr (clock w), w)"

subsection \<open>Calls that are answered\<close>

lemma next_reply_Nil [simp]: "net w = [] \<Longrightarrow> next_reply w = (Reply, w)"
  by (simp add: next_reply_def)

lemma next_reply_frame [simp]:
  "db (snd (next_reply w)) = db w" "rds (snd (next_reply w)) = rds w" "objs (snd (next_reply w)) = objs w"
  "clock w \<le> clock (snd (next_reply w))"
  by (simp_all add: next_reply_def split: list.splits prod.splits)

lemma pg_answered [call_simps]:
  "net w = [] \<Longrightarrow> pg stmt w =
     (case stmt (clock w) (db w) of Inl e \<Rightarrow> (Inl e, w) | Inr (x, d) \<Rightarrow> (Inr x, w\<lparr>db := d\<rparr>))"
  by (simp add: pg_def)

lemma rd_answered [call_simps]:
  "net w = [] \<Longrightarrow> rd cmd w = (case cmd (clock w) (rds w) of (x, r) \<Rightarrow> (Inr x, w\<lparr>rds := r\<rparr>))"
  by (simp add: rd_def)

lemma query_answered [call_simps]:
  "net w = [] \<Longrightarrow> query q w = (q (clock w) (db w), w)"
  by (simp add: query_def pg_def split: sum.splits)

lemma query_db: "query q w = (r, w') \<Longrightarrow> db w' = db w \<and> rds w' = rds w \<and> objs w' = objs w \<and> clock w \<le> clock w'"
  by (auto simp: query_def pg_def next_reply_def split: list.splits prod.splits reply.splits sum.splits)

text \<open>A statement that is rejected or that changes nothing leaves the world as it was.\<close>

lemma pg_rejects:
  assumes "\<And>t. stmt t (db w) = Inl e"
  shows "db (snd (pg stmt w)) = db w \<and> rds (snd (pg stmt w)) = rds w \<and> fst (pg stmt w) \<in> {Inl e, Inl ErrDriver}"
  using assms by (auto simp: pg_def next_reply_def split: list.splits prod.splits reply.splits)

lemma pg_unchanged:
  assumes "\<And>t. stmt t (db w) = Inr (x, db w)"
  shows "db (snd (pg stmt w)) = db w \<and> rds (snd (pg stmt w)) = rds w \<and> fst (pg stmt w) \<in> {Inr x, Inl ErrDriver}"
  using assms by (auto simp: pg_def next_reply_def split: list.splits prod.splits reply.splits)

lemma pg_fails:
  assumes "\<And>t. \<exists>e. stmt t (db w) = Inl e"
  shows "db (snd (pg stmt w)) = db w \<and> (\<exists>e. fst (pg stmt w) = Inl e)"
proof -
  obtain r u where u: "next_reply w = (r, u)" by fastforce
  then have d: "db u = db w" by (auto simp: next_reply_def split: list.splits prod.splits)
  obtain e where "stmt (clock u) (db u) = Inl e" using assms [of "clock u"] d by auto
  with u d show ?thesis by (cases r) (simp_all add: pg_def)
qed

end
