(* ===== verification/Queue_Client.thy ===== *)
theory Queue_Client
  imports Queue_Refinement World
begin

text \<open>
  \<open>Enqueue\<close> and \<open>Pop\<close> of \<open>pkg/queue/queue.go\<close> as the services call them: validation, the
  script, and the Go errors. The scripts run in Redis, so a call may fail with or without effect.
\<close>

definition Enqueue :: "string \<Rightarrow> int \<Rightarrow> (world, unit) call" where
  "Enqueue jobID priority =
     (case ValidatePriority priority of
        Inl e \<Rightarrow> fail_with e
      | Inr _ \<Rightarrow> and_then (rd (\<lambda>_ r. run_enqueue jobID priority r)) (\<lambda>_. ok ()))"

definition Pop :: "(world, string) call" where
  "Pop = and_then (rd (\<lambda>_ r. run_pop r))
           (\<lambda>jobID. if jobID = '''' then fail_with RedisNil else ok jobID)"

lemma ValidatePriority_ok: "ValidatePriority p = Inr () \<longleftrightarrow> valid_priority p"
  by (simp add: ValidatePriority_def valid_priority_def not_less)

lemma ValidatePriority_Inr: "ValidatePriority p = Inr x \<Longrightarrow> valid_priority p"
  by (cases x) (simp add: ValidatePriority_ok)

text \<open>
  Every outcome of \<open>Enqueue\<close> is one of three: rejected by the validation, not executed, or
  executed.
\<close>

lemma Enqueue_cases:
  assumes "Enqueue j p w = (res, w')"
  obtains (invalid) "\<not> valid_priority p" "w' = w" "res \<noteq> Inr ()"
  | (refused) "valid_priority p" "w' = snd (next_reply w)" "res = Inl ErrDriver"
  | (executed) "valid_priority p" "w' = (snd (next_reply w))\<lparr>rds := snd (run_enqueue j p (rds w))\<rparr>"
proof (cases "valid_priority p")
  case False
  then obtain e where "ValidatePriority p = Inl e"
    by (cases "ValidatePriority p") (auto dest: ValidatePriority_Inr)
  with assms False invalid show ?thesis by (simp add: Enqueue_def fail_with_def) blast
next
  case True
  then have "Enqueue j p w = and_then (rd (\<lambda>_ r. run_enqueue j p r)) (\<lambda>_. ok ()) w"
    by (simp add: Enqueue_def ValidatePriority_ok [symmetric])
  with assms True refused executed show ?thesis
    by (auto simp: and_then_def ok_def rd_def next_reply_def
        split: prod.splits reply.splits sum.splits list.splits)
qed

lemma Enqueue_answered:
  "net w = [] \<Longrightarrow> valid_priority p \<Longrightarrow>
   Enqueue j p w = (Inr (), w\<lparr>rds := snd (run_enqueue j p (rds w))\<rparr>)"
  by (simp add: Enqueue_def ValidatePriority_ok [symmetric] and_then_def ok_def call_simps split: prod.splits)

lemma Pop_answered:
  "net w = [] \<Longrightarrow>
   Pop w = (if fst (run_pop (rds w)) = '''' then Inl RedisNil else Inr (fst (run_pop (rds w))),
            w\<lparr>rds := snd (run_pop (rds w))\<rparr>)"
  by (simp add: Pop_def and_then_def ok_def fail_with_def call_simps split: prod.splits)

lemma Enqueue_db: "db (snd (Enqueue j p w)) = db w"
proof -
  obtain r w' where e: "Enqueue j p w = (r, w')" by fastforce
  then show ?thesis by (rule Enqueue_cases) (simp_all add: e)
qed

end
