(* ===== verification/Config.thy ===== *)
theory Config
  imports Go_Text
begin

text \<open>
  The configuration of the three services (\<open>api/internal/server/config.go\<close>,
  \<open>worker/internal/worker/config.go\<close>, \<open>reaper/internal/reaper/config.go\<close>). The environment is
  the argument \<open>getenv\<close>, which is empty for a variable that is not set, as \<open>os.Getenv\<close> is.
  Durations are nanoseconds in a 64-bit integer; a multiplication that leaves the range wraps.
\<close>

type_synonym environ = "string \<Rightarrow> string"
type_synonym duration = int

definition Second :: duration where
  "Second = 1000000000"

definition Minute :: duration where
  "Minute = 60 * Second"

subsection \<open>Reading the environment\<close>

definition env :: "environ \<Rightarrow> string \<Rightarrow> string \<Rightarrow> string" where
  "env getenv key fallback = (let value = getenv key in if value \<noteq> '''' then value else fallback)"

definition envInt :: "environ \<Rightarrow> string \<Rightarrow> int \<Rightarrow> int" where
  "envInt getenv key fallback = (case Atoi (getenv key) of Inl _ \<Rightarrow> fallback | Inr value \<Rightarrow> value)"

definition envInt64 :: "environ \<Rightarrow> string \<Rightarrow> int \<Rightarrow> int" where
  "envInt64 getenv key fallback = (case Atoi (getenv key) of Inl _ \<Rightarrow> fallback | Inr value \<Rightarrow> value)"

definition envSeconds :: "environ \<Rightarrow> string \<Rightarrow> duration \<Rightarrow> duration" where
  "envSeconds getenv key fallback =
     (case Atoi (getenv key) of
        Inl _ \<Rightarrow> fallback
      | Inr value \<Rightarrow> if value \<le> 0 then fallback else wrap64 (value * Second))"

definition envList :: "environ \<Rightarrow> string \<Rightarrow> string list \<Rightarrow> string list" where
  "envList getenv key fallback =
     (let raw = getenv key in
      if raw = '''' then fallback
      else let values = filter (\<lambda>value. value \<noteq> '''') (map trim_space (split_on CHR '','' raw)) in
           if values = [] then fallback else values)"

subsection \<open>API server\<close>

record api_config =
  Addr :: string
  DatabaseURL :: string
  RedisURL :: string
  StorageEndpoint :: string
  StorageBucket :: string
  StorageAccessKey :: string
  StorageSecretKey :: string
  CDNBaseURL :: string
  UploadPrefix :: string
  UploadSizeLimit :: int
  WorkerMaxRetries :: int
  StatsStreamPeriod :: duration
  ReadHeaderTimeout :: duration
  ShutdownTimeout :: duration
  CORSAllowedOrigins :: "string list"

definition api_LoadConfig :: "environ \<Rightarrow> api_config" where
  "api_LoadConfig getenv =
    \<lparr>Addr = env getenv ''API_ADDR'' '':8080'',
     DatabaseURL = getenv ''DATABASE_URL'',
     RedisURL = getenv ''REDIS_URL'',
     StorageEndpoint = getenv ''STORAGE_ENDPOINT'',
     StorageBucket = getenv ''STORAGE_BUCKET'',
     StorageAccessKey = getenv ''STORAGE_ACCESS_KEY'',
     StorageSecretKey = getenv ''STORAGE_SECRET_KEY'',
     CDNBaseURL = trim_right CHR ''/'' (getenv ''CDN_BASE_URL''),
     UploadPrefix = trim CHR ''/'' (env getenv ''UPLOAD_PREFIX'' ''raw''),
     UploadSizeLimit = envInt64 getenv ''UPLOAD_SIZE_LIMIT_BYTES'' (500 * 2 ^ 20),
     WorkerMaxRetries = envInt getenv ''WORKER_MAX_RETRIES'' 3,
     StatsStreamPeriod = envSeconds getenv ''STATS_STREAM_INTERVAL_SECONDS'' (5 * Second),
     ReadHeaderTimeout = envSeconds getenv ''API_READ_HEADER_TIMEOUT_SECONDS'' (10 * Second),
     ShutdownTimeout = envSeconds getenv ''API_SHUTDOWN_TIMEOUT_SECONDS'' (10 * Second),
     CORSAllowedOrigins = envList getenv ''CORS_ALLOWED_ORIGINS''
       [''http://localhost:3000'', ''http://127.0.0.1:3000'', ''http://localhost:3001'',
        ''http://127.0.0.1:3001'', ''http://localhost:5173'', ''http://127.0.0.1:5173'']\<rparr>"

subsection \<open>Worker\<close>

record worker_config =
  wDatabaseURL :: string
  wRedisURL :: string
  wStorageEndpoint :: string
  wStorageBucket :: string
  wStorageAccessKey :: string
  wStorageSecretKey :: string
  wCDNBaseURL :: string
  TempDir :: string
  OutputPrefix :: string
  OutputCacheControl :: string
  FFmpegPath :: string
  ProcessingMode :: string
  HeartbeatInterval :: duration
  LeaseTTL :: duration
  PollBackoff :: duration
  ShutdownGracePeriod :: duration
  wWorkerMaxRetries :: int

definition processingModeParallel :: string where
  "processingModeParallel = ''parallel''"

definition processingModeSequential :: string where
  "processingModeSequential = ''sequential''"

definition loadProcessingMode :: "environ \<Rightarrow> string" where
  "loadProcessingMode getenv =
     (let mode = env getenv ''WORKER_PROCESSING_MODE'' processingModeParallel in
      if mode \<noteq> processingModeParallel \<and> mode \<noteq> processingModeSequential
      then processingModeParallel else mode)"

definition worker_LoadConfig :: "environ \<Rightarrow> worker_config" where
  "worker_LoadConfig getenv =
    \<lparr>wDatabaseURL = getenv ''DATABASE_URL'',
     wRedisURL = getenv ''REDIS_URL'',
     wStorageEndpoint = getenv ''STORAGE_ENDPOINT'',
     wStorageBucket = getenv ''STORAGE_BUCKET'',
     wStorageAccessKey = getenv ''STORAGE_ACCESS_KEY'',
     wStorageSecretKey = getenv ''STORAGE_SECRET_KEY'',
     wCDNBaseURL = trim_right CHR ''/'' (getenv ''CDN_BASE_URL''),
     TempDir = env getenv ''WORKER_TEMP_DIR'' '''',
     OutputPrefix = trim CHR ''/'' (env getenv ''OUTPUT_PREFIX'' ''outputs''),
     OutputCacheControl = env getenv ''OUTPUT_CACHE_CONTROL'' ''public, max-age=86400, immutable'',
     FFmpegPath = env getenv ''FFMPEG_PATH'' ''ffmpeg'',
     ProcessingMode = loadProcessingMode getenv,
     HeartbeatInterval = envSeconds getenv ''WORKER_HEARTBEAT_INTERVAL'' (10 * Second),
     LeaseTTL = envSeconds getenv ''WORKER_LEASE_TTL_SECONDS'' (5 * Minute),
     PollBackoff = envSeconds getenv ''WORKER_POLL_BACKOFF_SECONDS'' (2 * Second),
     ShutdownGracePeriod = envSeconds getenv ''WORKER_SHUTDOWN_GRACE_SECONDS'' (30 * Second),
     wWorkerMaxRetries = envInt getenv ''WORKER_MAX_RETRIES'' 3\<rparr>"

subsection \<open>Reaper\<close>

record reaper_config =
  rDatabaseURL :: string
  rRedisURL :: string
  SweepInterval :: duration
  LeadershipLockTTL :: duration
  DeadWorkerThreshold :: duration
  LeaseExpiryGrace :: duration
  StaleQueueThreshold :: duration

definition reaper_LoadConfig :: "environ \<Rightarrow> reaper_config" where
  "reaper_LoadConfig getenv =
     (let sweepInterval = envSeconds getenv ''REAPER_SWEEP_INTERVAL'' (30 * Second);
          ttl0 = envSeconds getenv ''REAPER_LEADERSHIP_LOCK_TTL_SECONDS'' (60 * Second);
          leadershipLockTTL = (if ttl0 \<le> sweepInterval then wrap64 (sweepInterval * 2) else ttl0)
      in \<lparr>rDatabaseURL = getenv ''DATABASE_URL'',
          rRedisURL = getenv ''REDIS_URL'',
          SweepInterval = sweepInterval,
          LeadershipLockTTL = leadershipLockTTL,
          DeadWorkerThreshold = envSeconds getenv ''REAPER_DEAD_WORKER_THRESHOLD_SECONDS'' (30 * Second),
          LeaseExpiryGrace = envSeconds getenv ''REAPER_LEASE_EXPIRY_GRACE_SECONDS'' 0,
          StaleQueueThreshold = envSeconds getenv ''REAPER_STALE_QUEUE_THRESHOLD_SECONDS'' (30 * Second)\<rparr>)"

text \<open>The renewal period of a lease or of the leadership lock: a third of it, at least a second.\<close>

definition refresh_period :: "duration \<Rightarrow> duration" where
  "refresh_period ttl = (let period = quot ttl 3 in if period \<le> 0 then Second else period)"

subsection \<open>Facts\<close>

text \<open>
  The seconds a variable may hold so that the product with a second stays inside \<open>int64\<close>.
\<close>

definition seconds_fit :: "environ \<Rightarrow> string \<Rightarrow> int \<Rightarrow> bool" where
  "seconds_fit getenv key bound \<longleftrightarrow> (case Atoi (getenv key) of Inl _ \<Rightarrow> True | Inr v \<Rightarrow> v \<le> bound)"

lemma envSeconds_fits:
  assumes "seconds_fit getenv key b" and "b \<le> 9223372036" and "0 < fallback" and "fallback \<le> b * Second"
  shows "0 < envSeconds getenv key fallback \<and> envSeconds getenv key fallback \<le> b * Second"
proof (cases "Atoi (getenv key)")
  case (Inr v)
  with assms(1) have v: "v \<le> b" by (simp add: seconds_fit_def)
  show ?thesis
  proof (cases "v \<le> 0")
    case False
    with v assms(2) have "wrap64 (v * Second) = v * Second"
      by (intro wrap64_id) (simp_all add: Second_def min_int64_def max_int64_def)
    with False v Inr show ?thesis by (simp add: envSeconds_def Second_def)
  qed (use Inr assms in \<open>simp add: envSeconds_def\<close>)
qed (use assms in \<open>simp add: envSeconds_def\<close>)

lemma loadProcessingMode_cases:
  "loadProcessingMode getenv = processingModeParallel \<or> loadProcessingMode getenv = processingModeSequential"
  by (simp add: loadProcessingMode_def Let_def)

lemma refresh_period_pos: "0 < refresh_period ttl"
  by (simp add: refresh_period_def Let_def Second_def)

lemma refresh_period_less: "Second < ttl \<Longrightarrow> refresh_period ttl < ttl"
  by (simp add: refresh_period_def Let_def quot_pos Second_def) linarith

end
