(* ===== verification/Worker_Store.thy ===== *)
theory Worker_Store
  imports Queue_Client Config
begin

text \<open>
  The statements and transactions of the worker (\<open>worker/internal/worker/worker.go\<close> and
  \<open>processor.go\<close>): registration and heartbeats, the claim of a job with a new attempt, lease
  renewal, phases and durations, completion fenced by the attempt, and the failure transition.
\<close>

text \<open>The \<open>Job\<close> struct of the worker and of the reaper.\<close>

record job_info =
  ID :: uuid
  Status :: string
  RetryCount :: int
  MaxRetries :: int
  Priority :: int
  InputFile :: string

definition job_info_of :: "job_row \<Rightarrow> job_info" where
  "job_info_of j = \<lparr>ID = j_id j, Status = job_status_text (j_status j), RetryCount = j_retry_count j,
     MaxRetries = j_max_retries j, Priority = j_priority j, InputFile = j_input_file j\<rparr>"

text \<open>The \<open>QueueMessage\<close> struct; its unset time is year 1 in nanoseconds around 1970.\<close>

definition zero_time :: time where
  "zero_time = - 62135596800000000000"

record queue_message =
  JobID :: uuid
  MsgInputFile :: string
  MsgPriority :: int
  EnqueuedAt :: time

record media_output =
  Type :: string
  LocalPath :: string
  ObjectKey :: string
  CDNURL :: string
  FileSize :: int
  ContentType :: string

subsection \<open>The workers table\<close>

definition register :: "uuid \<Rightarrow> unit stmt" where
  "register wid t d =
     Inr ((), if worker_at d wid = None
       then d\<lparr>workers := workers d @ [\<lparr>w_id = wid, w_status = Idle, w_current_job = None, w_last_heartbeat = t\<rparr>]\<rparr>
       else update_workers (\<lambda>r. w_id r = wid)
              (\<lambda>r. r\<lparr>w_status := Idle, w_current_job := None, w_last_heartbeat := t\<rparr>) d)"

definition heartbeat :: "uuid \<Rightarrow> unit stmt" where
  "heartbeat wid t d = Inr ((), update_workers (\<lambda>r. w_id r = wid) (\<lambda>r. r\<lparr>w_last_heartbeat := t\<rparr>) d)"

definition setWorkerBusy :: "uuid \<Rightarrow> uuid \<Rightarrow> unit stmt" where
  "setWorkerBusy wid jobID t d =
     (if worker_at d wid \<noteq> None \<and> job_at d jobID = None
      then Inl (ErrConstraint ''workers_current_job_fkey'')
      else Inr ((), update_workers (\<lambda>r. w_id r = wid)
             (\<lambda>r. r\<lparr>w_status := Busy, w_current_job := Some jobID, w_last_heartbeat := t\<rparr>) d))"

definition setWorkerIdle :: "uuid \<Rightarrow> unit stmt" where
  "setWorkerIdle wid t d =
     Inr ((), update_workers (\<lambda>r. w_id r = wid)
       (\<lambda>r. r\<lparr>w_status := Idle, w_current_job := None, w_last_heartbeat := t\<rparr>) d)"

subsection \<open>Reading a job\<close>

definition fetchJob :: "uuid \<Rightarrow> (world, job_info) call" where
  "fetchJob jobID = query (\<lambda>_ d. case job_at d jobID of None \<Rightarrow> Inl ErrNoRows | Some j \<Rightarrow> Inr (job_info_of j))"

text \<open>\<open>poll\<close>: \<open>None\<close> is the nil message without an error.\<close>

definition poll :: "(world, queue_message option) call" where
  "poll = and_then Pop (\<lambda>jobID w.
     case fetchJob jobID w of
       (Inl e, w') \<Rightarrow> if errors_is e ErrNoRows then (Inr None, w') else (Inl e, w')
     | (Inr job, w') \<Rightarrow>
         (Inr (Some \<lparr>JobID = ID job, MsgInputFile = InputFile job, MsgPriority = Priority job, EnqueuedAt = zero_time\<rparr>), w'))"

subsection \<open>Claiming\<close>

definition new_attempt_row :: "worker_config \<Rightarrow> uuid \<Rightarrow> time \<Rightarrow> uuid \<Rightarrow> job_row \<Rightarrow> attempt_row" where
  "new_attempt_row cfg wid t attemptID j =
    \<lparr>a_id = attemptID, a_job = j_id j, a_number = j_retry_count j + 1, a_worker = Some wid,
     a_status = Running, a_queue_entered_at = j_queue_entered_at j, a_started_at = t,
     a_last_heartbeat = t, a_lease_expires_at = t + LeaseTTL cfg, a_finished_at = None,
     a_phase = ''claiming'', a_mode = ProcessingMode cfg, a_failure_category = None,
     a_failure_detail = None, a_download_ms = None, a_processing_ms = None, a_upload_ms = None\<rparr>"

definition claim_row :: "uuid \<Rightarrow> job_row \<Rightarrow> job_row" where
  "claim_row attemptID j = j\<lparr>j_status := Processing, j_current_attempt := Some attemptID\<rparr>"

text \<open>\<open>Some attemptID\<close> is (attemptID, true, nil), \<open>None\<close> is ("", false, nil).\<close>

definition claim_tx :: "worker_config \<Rightarrow> uuid \<Rightarrow> uuid \<Rightarrow> uuid \<Rightarrow> uuid option stmt" where
  "claim_tx cfg wid attemptID jobID t d =
     (case job_at d jobID of
        None \<Rightarrow> Inr (None, d)
      | Some j \<Rightarrow>
          if j_status j \<noteq> Queued then Inr (None, d)
          else case insert_attempt (new_attempt_row cfg wid t attemptID j) d of
                 Inl e \<Rightarrow> Inl e
               | Inr d1 \<Rightarrow>
                   Inr (Some attemptID,
                     update_jobs t
                       (\<lambda>r. j_id r = jobID \<and> j_status r = Queued \<and> j_current_attempt r = None)
                       (claim_row attemptID) d1))"

definition markProcessing :: "worker_config \<Rightarrow> uuid \<Rightarrow> uuid \<Rightarrow> uuid \<Rightarrow> (world, uuid option) call" where
  "markProcessing cfg wid attemptID jobID = pg (claim_tx cfg wid attemptID jobID)"

subsection \<open>The lease\<close>

definition lease_held :: "uuid \<Rightarrow> database \<Rightarrow> attempt_row \<Rightarrow> bool" where
  "lease_held attemptID d a \<longleftrightarrow>
     a_id a = attemptID \<and> a_status a = Running \<and>
     list_ex (\<lambda>j. j_id j = a_job a \<and> j_status j = Processing \<and> j_current_attempt j = Some (a_id a)) (jobs d)"

definition renew_stmt :: "worker_config \<Rightarrow> uuid \<Rightarrow> bool stmt" where
  "renew_stmt cfg attemptID t d =
     Inr (rows_affected (lease_held attemptID d) (job_attempts d) = 1,
          update_attempts (lease_held attemptID d)
            (\<lambda>a. a\<lparr>a_last_heartbeat := t, a_lease_expires_at := t + LeaseTTL cfg\<rparr>) d)"

definition renewAttemptLease :: "worker_config \<Rightarrow> uuid \<Rightarrow> (world, bool) call" where
  "renewAttemptLease cfg attemptID = pg (renew_stmt cfg attemptID)"

text \<open>
  One tick of \<open>renewLeaseUntilDone\<close>: the lease loop goes on exactly when the renewal succeeded
  on one row; otherwise it cancels the job's context and ends.
\<close>

definition renewLease_tick :: "worker_config \<Rightarrow> uuid \<Rightarrow> world \<Rightarrow> bool \<times> world" where
  "renewLease_tick cfg attemptID w =
     (case renewAttemptLease cfg attemptID w of
        (Inl _, w') \<Rightarrow> (False, w')
      | (Inr updated, w') \<Rightarrow> (updated, w'))"

subsection \<open>Phases and durations\<close>

definition phase_stmt :: "uuid \<Rightarrow> string \<Rightarrow> unit stmt" where
  "phase_stmt attemptID phase t d =
     Inr ((), update_attempts (\<lambda>a. a_id a = attemptID \<and> a_status a = Running) (\<lambda>a. a\<lparr>a_phase := phase\<rparr>) d)"

definition setAttemptPhase :: "uuid \<Rightarrow> string \<Rightarrow> (world, unit) call" where
  "setAttemptPhase attemptID phase = pg (phase_stmt attemptID phase)"

definition milliseconds :: "duration \<Rightarrow> int" where
  "milliseconds d = quot d 1000000"

fun set_duration :: "string \<Rightarrow> int \<Rightarrow> attempt_row \<Rightarrow> attempt_row" where
  "set_duration field ms a =
     (if field = ''download_duration_ms'' then a\<lparr>a_download_ms := Some ms\<rparr>
      else if field = ''processing_duration_ms'' then a\<lparr>a_processing_ms := Some ms\<rparr>
      else a\<lparr>a_upload_ms := Some ms\<rparr>)"

definition duration_stmt :: "uuid \<Rightarrow> string \<Rightarrow> duration \<Rightarrow> unit stmt" where
  "duration_stmt attemptID field dur t d =
     Inr ((), update_attempts (\<lambda>a. a_id a = attemptID) (set_duration field (milliseconds dur)) d)"

definition recordAttemptDuration :: "uuid \<Rightarrow> string \<Rightarrow> duration \<Rightarrow> (world, unit) call" where
  "recordAttemptDuration attemptID field dur =
     (if field \<in> {''download_duration_ms'', ''processing_duration_ms'', ''upload_duration_ms''}
      then pg (duration_stmt attemptID field dur)
      else fail_with (ErrText (''unsupported attempt duration field '' @ Quote field)))"

subsection \<open>Completion\<close>

definition complete_row :: "time \<Rightarrow> uuid \<Rightarrow> job_row \<Rightarrow> job_row" where
  "complete_row t attemptID j =
     j\<lparr>j_status := Completed, j_completed_attempt := Some attemptID, j_completed_at := Some t,
       j_current_attempt := None\<rparr>"

definition new_output_row :: "time \<Rightarrow> uuid \<Rightarrow> uuid \<Rightarrow> uuid \<Rightarrow> output_type \<Rightarrow> media_output \<Rightarrow> output_row" where
  "new_output_row t oid jobID attemptID ty out =
    \<lparr>o_id = oid, o_job = jobID, o_attempt = Some attemptID, o_type = ty, o_cdn_url = CDNURL out,
     o_file_size = FileSize out, o_created_at = t\<rparr>"

text \<open>
  The loop over the outputs. The ids are those \<open>gen_random_uuid()\<close> returns, one per output; a
  type that is not in the enumeration is an invalid parameter.
\<close>

fun insert_outputs :: "time \<Rightarrow> uuid \<Rightarrow> uuid \<Rightarrow> (uuid \<times> media_output) list \<Rightarrow> database \<Rightarrow> database result" where
  "insert_outputs t jobID attemptID [] d = Inr d"
| "insert_outputs t jobID attemptID ((oid, out) # outs) d =
     (case output_type_of (Type out) of
        None \<Rightarrow> Inl (ErrConstraint ''invalid input value for enum job_output_type'')
      | Some ty \<Rightarrow>
          (case upsert_output (new_output_row t oid jobID attemptID ty out) d of
             Inl e \<Rightarrow> Inl e
           | Inr d' \<Rightarrow> insert_outputs t jobID attemptID outs d'))"

definition held_by :: "uuid \<Rightarrow> uuid \<Rightarrow> job_row \<Rightarrow> bool" where
  "held_by jobID attemptID j \<longleftrightarrow>
     j_id j = jobID \<and> j_status j = Processing \<and> j_current_attempt j = Some attemptID"

definition complete_tx :: "uuid \<Rightarrow> uuid \<Rightarrow> (uuid \<times> media_output) list \<Rightarrow> unit stmt" where
  "complete_tx jobID attemptID outs t d =
     (if rows_affected (held_by jobID attemptID) (jobs d) \<noteq> 1 then Inl ErrStaleAttempt
      else case insert_outputs t jobID attemptID outs
                  (update_jobs t (held_by jobID attemptID) (complete_row t attemptID) d) of
             Inl e \<Rightarrow> Inl e
           | Inr d' \<Rightarrow>
               Inr ((), update_attempts (\<lambda>a. a_id a = attemptID \<and> a_status a = Running)
                 (\<lambda>a. a\<lparr>a_status := AttemptCompleted, a_finished_at := Some t, a_phase := ''completed''\<rparr>) d'))"

definition completeJob :: "uuid \<Rightarrow> uuid \<Rightarrow> (uuid \<times> media_output) list \<Rightarrow> (world, unit) call" where
  "completeJob jobID attemptID outs = pg (complete_tx jobID attemptID outs)"

subsection \<open>Failure\<close>

definition dead_row :: "job_row \<Rightarrow> job_row" where
  "dead_row j = j\<lparr>j_status := Dead, j_current_attempt := None\<rparr>"

definition retry_row :: "time \<Rightarrow> job_row \<Rightarrow> job_row" where
  "retry_row t j = j\<lparr>j_retry_count := j_retry_count j + 1, j_status := Queued, j_current_attempt := None,
     j_queue_entered_at := t\<rparr>"

text \<open>\<open>left(s, n)\<close> counts characters; a byte 10xxxxxx continues the character before it.\<close>

fun left :: "nat \<Rightarrow> string \<Rightarrow> string" where
  "left n [] = []"
| "left n (c # s) =
     (if 128 \<le> (of_char c :: nat) \<and> (of_char c :: nat) < 192 then c # left n s
      else case n of 0 \<Rightarrow> [] | Suc m \<Rightarrow> c # left m s)"

definition failed_attempt :: "time \<Rightarrow> string \<Rightarrow> attempt_row \<Rightarrow> attempt_row" where
  "failed_attempt t detail a =
     a\<lparr>a_status := Failed, a_finished_at := Some t, a_failure_category := Some ''processing_failure'',
       a_failure_detail := Some (left 500 detail)\<rparr>"

text \<open>\<open>Some priority\<close> when the job is to be enqueued again after the commit.\<close>

definition failure_tx :: "uuid \<Rightarrow> uuid \<Rightarrow> string \<Rightarrow> int option stmt" where
  "failure_tx jobID attemptID cause t d =
     (case job_at d jobID of
        None \<Rightarrow> Inr (None, d)
      | Some j \<Rightarrow>
          if j_current_attempt j \<noteq> Some attemptID then Inr (None, d)
          else if j_status j \<noteq> Processing then Inr (None, d)
          else let d1 = update_attempts (\<lambda>a. a_id a = attemptID \<and> a_status a = Running)
                          (failed_attempt t cause) d;
                   d2 = (if j_retry_count j \<ge> j_max_retries j
                         then update_jobs t (\<lambda>r. j_id r = jobID) dead_row d1
                         else update_jobs t (\<lambda>r. j_id r = jobID) (retry_row t) d1)
               in Inr (if j_retry_count j < j_max_retries j then Some (j_priority j) else None, d2))"

text \<open>\<open>text_of\<close> is the text of an error (\<open>cause.Error()\<close>).\<close>

definition handleFailure :: "(go_error \<Rightarrow> string) \<Rightarrow> uuid \<Rightarrow> uuid \<Rightarrow> go_error \<Rightarrow> (world, unit) call" where
  "handleFailure text_of jobID attemptID cause =
     log_err (and_then (pg (failure_tx jobID attemptID (text_of cause)))
       (\<lambda>requeue. case requeue of None \<Rightarrow> ok () | Some priority \<Rightarrow> Enqueue jobID priority))"

datatype failure_action = Requeue | MarkDead

definition failureActionFor :: "job_info \<Rightarrow> failure_action" where
  "failureActionFor job = (if RetryCount job \<ge> MaxRetries job then MarkDead else Requeue)"

subsection \<open>Transitions the worker does not use\<close>

text \<open>
  \<open>markDead\<close> and \<open>requeueJob\<close> of \<open>processor.go\<close> have no caller. They write the status
  without the attempt.
\<close>

definition markDead_stmt :: "uuid \<Rightarrow> unit stmt" where
  "markDead_stmt jobID t d = Inr ((), update_jobs t (\<lambda>r. j_id r = jobID) (\<lambda>j. j\<lparr>j_status := Dead\<rparr>) d)"

definition requeue_stmt :: "uuid \<Rightarrow> unit stmt" where
  "requeue_stmt jobID t d =
     Inr ((), update_jobs t (\<lambda>r. j_id r = jobID)
       (\<lambda>j. j\<lparr>j_retry_count := j_retry_count j + 1, j_status := Queued\<rparr>) d)"

definition worker_requeueJob :: "job_info \<Rightarrow> (world, unit) call" where
  "worker_requeueJob job =
     and_then (pg (requeue_stmt (ID job))) (\<lambda>_. Enqueue (ID job) (Priority job))"

end
