(* ===== verification/Go_Path.thy ===== *)
theory Go_Path
  imports Go_Text
begin

text \<open>
  \<open>filepath.Clean\<close> and \<open>filepath.Join\<close> of Go's standard library on slash-separated paths, and what
  the worker relies on: a path built from a directory and two plain names is the first path, a
  slash and the second name.
\<close>

fun join_with :: "string \<Rightarrow> string list \<Rightarrow> string" where
  "join_with sep [] = ''''"
| "join_with sep [x] = x"
| "join_with sep (x # y # ys) = x @ sep @ join_with sep (y # ys)"

fun clean_part :: "bool \<Rightarrow> string \<Rightarrow> string list \<Rightarrow> string list" where
  "clean_part rooted c stack =
     (if c = '''' \<or> c = ''.'' then stack
      else if c = ''..'' then
        (if stack \<noteq> [] \<and> last stack \<noteq> ''..'' then butlast stack
         else if rooted then stack else stack @ [''..''])
      else stack @ [c])"

definition Clean :: "string \<Rightarrow> string" where
  "Clean p =
     (if p = '''' then ''.''
      else let rooted = (hd p = CHR ''/'');
               res = (if rooted then ''/'' else '''') @
                     join_with ''/'' (fold (clean_part rooted) (split_on CHR ''/'' p) [])
           in if res = '''' then ''.'' else res)"

definition Join :: "string \<Rightarrow> string \<Rightarrow> string" where
  "Join a b = (if a \<noteq> '''' then Clean (a @ ''/'' @ b) else if b \<noteq> '''' then Clean b else '''')"

text \<open>A path is in a directory when it is the directory or starts with it and a slash.\<close>

definition under :: "string \<Rightarrow> string \<Rightarrow> bool" where
  "under dir p \<longleftrightarrow> p = dir \<or> take (length dir + 1) p = dir @ ''/''"

text \<open>\<open>filepath.Base\<close>: the last element of a path, slashes at its end aside.\<close>

definition Base :: "string \<Rightarrow> string" where
  "Base p =
     (if p = '''' then ''.''
      else let e = last (split_on CHR ''/'' (trim_right CHR ''/'' p)) in if e = '''' then ''/'' else e)"

definition plain_name :: "string \<Rightarrow> bool" where
  "plain_name a \<longleftrightarrow> a \<noteq> '''' \<and> a \<noteq> ''.'' \<and> a \<noteq> ''..'' \<and> CHR ''/'' \<notin> set a"

subsection \<open>Splitting and joining\<close>

lemma split_on_append: "split_on c (s @ c # t) = split_on c s @ split_on c t"
proof (induction s)
  case (Cons x s)
  then show ?case by (cases "split_on c s") auto
qed simp

lemma split_on_single: "c \<notin> set s \<Longrightarrow> split_on c s = [s]"
  by (induction s) auto

lemma join_with_snoc: "join_with sep (xs @ [a]) = (if xs = [] then a else join_with sep xs @ sep @ a)"
  by (induction sep xs rule: join_with.induct) auto

lemma split_join: "xs \<noteq> [] \<Longrightarrow> (\<And>x. x \<in> set xs \<Longrightarrow> CHR ''/'' \<notin> set x) \<Longrightarrow> split_on CHR ''/'' (join_with ''/'' xs) = xs"
proof (induction xs rule: rev_induct)
  case (snoc a xs)
  show ?case
  proof (cases "xs = []")
    case True
    with snoc.prems show ?thesis by (simp add: split_on_single)
  next
    case False
    with snoc have "split_on CHR ''/'' (join_with ''/'' xs) = xs" and "CHR ''/'' \<notin> set a" by auto
    with False show ?thesis by (simp add: join_with_snoc split_on_append split_on_single)
  qed
qed simp

subsection \<open>Canonical component stacks\<close>

definition canon :: "bool \<Rightarrow> string list \<Rightarrow> bool" where
  "canon rooted st \<longleftrightarrow>
     (\<exists>k ss. st = replicate k ''..'' @ ss \<and> (\<forall>c \<in> set ss. plain_name c) \<and> (rooted \<longrightarrow> k = 0))"

lemma canon_part:
  assumes "canon rooted st" and "c \<in> set st"
  shows "c \<noteq> '''' \<and> CHR ''/'' \<notin> set c"
proof -
  from assms(1) obtain k ss where st: "st = replicate k ''..'' @ ss" "\<forall>x \<in> set ss. plain_name x"
    unfolding canon_def by blast
  with assms(2) have "c = ''..'' \<or> plain_name c" by (auto split: if_splits)
  then show ?thesis by (auto simp: plain_name_def)
qed

lemma clean_skip: "c = '''' \<or> c = ''.'' \<Longrightarrow> clean_part rooted c st = st"
  by auto

lemma clean_plain: "plain_name c \<Longrightarrow> clean_part rooted c st = st @ [c]"
  by (simp add: plain_name_def)

lemma clean_up:
  assumes "\<forall>c \<in> set ss. plain_name c" and "rooted \<longrightarrow> k = 0"
  shows "clean_part rooted ''..'' (replicate k ''..'' @ ss) =
    (if ss \<noteq> [] then replicate k ''..'' @ butlast ss else if rooted then [] else replicate (Suc k) ''..'')"
proof (cases "ss = []")
  case True
  with assms(2) show ?thesis by (cases k) (auto simp: replicate_append_same)
next
  case False
  with assms(1) have "last ss \<noteq> ''..''" by (auto simp: plain_name_def)
  with False show ?thesis by (simp add: butlast_append)
qed

declare clean_part.simps [simp del]

lemma clean_part_canon:
  assumes "canon rooted st" and "CHR ''/'' \<notin> set c"
  shows "canon rooted (clean_part rooted c st)"
proof -
  from assms(1) obtain k ss where st: "st = replicate k ''..'' @ ss" and ss: "\<forall>c \<in> set ss. plain_name c"
    and k: "rooted \<longrightarrow> k = 0" unfolding canon_def by blast
  consider (skip) "c = '''' \<or> c = ''.''" | (up) "c = ''..''" | (name) "plain_name c"
    using assms(2) by (auto simp: plain_name_def)
  then show ?thesis
  proof cases
    case skip
    with assms(1) show ?thesis by (simp add: clean_skip)
  next
    case name
    then have "clean_part rooted c st = replicate k ''..'' @ (ss @ [c])" by (simp add: st clean_plain)
    moreover have "\<forall>x \<in> set (ss @ [c]). plain_name x" using ss name by auto
    ultimately show ?thesis unfolding canon_def using k by blast
  next
    case up
    then have e: "clean_part rooted c st =
      (if ss \<noteq> [] then replicate k ''..'' @ butlast ss else if rooted then [] else replicate (Suc k) ''..'' @ [])"
      using clean_up [OF ss k] by (simp add: st)
    have b: "\<forall>x \<in> set (butlast ss). plain_name x" using ss by (auto dest: in_set_butlastD)
    show ?thesis
    proof (cases "ss = []")
      case True
      have "canon True []" "canon False (replicate (Suc k) ''..'' @ [])"
        unfolding canon_def by (simp, intro exI [of _ "Suc k"] exI [of _ "[]"], simp)
      with True e show ?thesis by (cases rooted) auto
    next
      case False
      with e have "clean_part rooted c st = replicate k ''..'' @ butlast ss" by simp
      with b k show ?thesis unfolding canon_def by blast
    qed
  qed
qed

lemma fold_clean_canon:
  "canon rooted st \<Longrightarrow> (\<And>c. c \<in> set cs \<Longrightarrow> CHR ''/'' \<notin> set c) \<Longrightarrow> canon rooted (fold (clean_part rooted) cs st)"
  by (induction cs arbitrary: st) (auto intro: clean_part_canon)

lemma fold_clean_plain: "\<forall>c \<in> set ss. plain_name c \<Longrightarrow> fold (clean_part rooted) ss st = st @ ss"
  by (induction ss arbitrary: st) (auto simp: clean_plain)

lemma fold_clean_ups: "\<not> rooted \<Longrightarrow> fold (clean_part rooted) (replicate k ''..'') (replicate m ''..'') = replicate (k + m) ''..''"
proof (induction k arbitrary: m)
  case (Suc k)
  have "clean_part rooted ''..'' (replicate m ''..'') = replicate (Suc m) ''..''"
    using Suc.prems clean_up [of "[]" rooted m] by simp
  with Suc.IH [OF Suc.prems, of "Suc m"] show ?case by simp
qed simp

lemma fold_clean_id:
  assumes "canon rooted st"
  shows "fold (clean_part rooted) st [] = st"
proof -
  from assms obtain k ss where st: "st = replicate k ''..'' @ ss" and ss: "\<forall>c \<in> set ss. plain_name c"
    and k: "rooted \<longrightarrow> k = 0" unfolding canon_def by blast
  have "fold (clean_part rooted) (replicate k ''..'') [] = replicate k ''..''"
    using k fold_clean_ups [of rooted k 0] by (cases rooted) simp_all
  with fold_clean_plain [OF ss] show ?thesis by (simp add: st)
qed

subsection \<open>Paths below a directory\<close>

lemma Clean_stack:
  assumes "p \<noteq> ''''" and "hd p = CHR ''/'' \<longleftrightarrow> rooted"
    and "fold (clean_part rooted) (split_on CHR ''/'' p) [] = st @ [a]" and "a \<noteq> ''''"
  shows "Clean p = (if rooted then ''/'' else '''') @ join_with ''/'' (st @ [a])"
proof -
  have "join_with ''/'' (st @ [a]) \<noteq> ''''" using assms(4) by (simp add: join_with_snoc)
  with assms(1-3) show ?thesis by (simp add: Clean_def Let_def)
qed

text \<open>What \<open>Join\<close> of a directory and a plain name looks like.\<close>

lemma Join_form:
  assumes "plain_name a"
  shows "\<exists>rooted st. canon rooted (st @ [a]) \<and> Join d a = (if rooted then ''/'' else '''') @ join_with ''/'' (st @ [a])"
proof -
  have a: "a \<noteq> ''''" "CHR ''/'' \<notin> set a" using assms by (simp_all add: plain_name_def)
  show ?thesis
  proof (cases "d = ''''")
    case True
    have "hd a \<noteq> CHR ''/''" using a by (cases a) auto
    then have "Clean a = (if False then ''/'' else '''') @ join_with ''/'' ([] @ [a])"
      using a assms by (intro Clean_stack) (simp_all add: split_on_single clean_plain)
    moreover have "canon False ([] @ [a])" unfolding canon_def using assms by (intro exI [of _ 0] exI [of _ "[a]"]) simp
    ultimately show ?thesis using True a by (intro exI [of _ False] exI [of _ "[]"]) (simp add: Join_def)
  next
    case False
    let ?r = "hd d = CHR ''/''"
    let ?st = "fold (clean_part ?r) (split_on CHR ''/'' d) []"
    have "canon ?r []" unfolding canon_def by auto
    then have c: "canon ?r ?st" by (rule fold_clean_canon) (rule split_on_no_sep)
    have "canon ?r (?st @ [a])" using clean_part_canon [OF c a(2)] assms by (simp add: clean_plain)
    moreover have "Clean (d @ ''/'' @ a) = (if ?r then ''/'' else '''') @ join_with ''/'' (?st @ [a])"
      using False a assms by (intro Clean_stack) (simp_all add: split_on_append split_on_single clean_plain)
    moreover have "Join d a = Clean (d @ ''/'' @ a)" using False by (simp add: Join_def)
    ultimately show ?thesis by (intro exI [of _ ?r] exI [of _ ?st] conjI) (simp_all only:)
  qed
qed

lemma Join_Join:
  assumes "plain_name a" and "plain_name b"
  shows "Join (Join d a) b = Join d a @ ''/'' @ b"
proof -
  obtain rooted st where c: "canon rooted (st @ [a])"
    and j: "Join d a = (if rooted then ''/'' else '''') @ join_with ''/'' (st @ [a])"
    using Join_form [OF assms(1)] by blast
  let ?p = "Join d a" and ?q = "join_with ''/'' (st @ [a])"
  have b: "b \<noteq> ''''" "CHR ''/'' \<notin> set b" using assms(2) by (simp_all add: plain_name_def)
  have split: "split_on CHR ''/'' ?q = st @ [a]" using canon_part [OF c] by (intro split_join) auto
  have ne: "?q \<noteq> ''''" using assms(1) by (simp add: join_with_snoc plain_name_def)
  have "hd ?q \<noteq> CHR ''/''"
  proof
    assume "hd ?q = CHR ''/''"
    with ne obtain t where "?q = CHR ''/'' # t" by (cases ?q) auto
    with split have "[] # split_on CHR ''/'' t = st @ [a]" by simp
    then have "'''' \<in> set (st @ [a])" by (metis list.set_intros(1))
    with canon_part [OF c] show False by blast
  qed
  with j ne have p: "?p \<noteq> ''''" "hd ?p = CHR ''/'' \<longleftrightarrow> rooted" by auto
  have "fold (clean_part rooted) (split_on CHR ''/'' ?p) [] = st @ [a]"
    using split j fold_clean_id [OF c] by (cases rooted) (simp_all add: clean_skip)
  then have "fold (clean_part rooted) (split_on CHR ''/'' (?p @ ''/'' @ b)) [] = (st @ [a]) @ [b]"
    using assms(2) b(2) by (simp add: split_on_append split_on_single clean_plain)
  then have "Clean (?p @ ''/'' @ b) = (if rooted then ''/'' else '''') @ join_with ''/'' ((st @ [a]) @ [b])"
    by (intro Clean_stack b(1)) (use p in auto)
  with p(1) have "Join ?p b = (if rooted then ''/'' else '''') @ join_with ''/'' ((st @ [a]) @ [b])"
    unfolding Join_def [of ?p b] by (simp only: if_True not_False_eq_True)
  also have "join_with ''/'' ((st @ [a]) @ [b]) = ?q @ ''/'' @ b" by (subst join_with_snoc) simp
  also have "(if rooted then ''/'' else '''') @ ?q @ ''/'' @ b = ?p @ ''/'' @ b" unfolding j by (simp only: append_assoc)
  finally show ?thesis .
qed

lemma under_Join: "plain_name a \<Longrightarrow> plain_name b \<Longrightarrow> under (Join d a) (Join (Join d a) b)"
  by (simp add: Join_Join under_def)

lemma Base_no_slash: "Base p = ''/'' \<or> (Base p \<noteq> '''' \<and> CHR ''/'' \<notin> set (Base p))"
proof (cases "p = ''''")
  case False
  define e where "e = last (split_on CHR ''/'' (trim_right CHR ''/'' p))"
  have "e \<in> set (split_on CHR ''/'' (trim_right CHR ''/'' p))" unfolding e_def by (rule last_in_set) simp
  with False split_on_no_sep show ?thesis unfolding Base_def e_def [symmetric] by (auto simp: Let_def)
qed (simp add: Base_def)

end
