(* ===== verification/Worker_Run.thy ===== *)
theory Worker_Run
  imports Worker_Store Go_Path
begin

text \<open>
  One job from claim to end in the worker (\<open>processJob\<close> and \<open>runJob\<close> of \<open>processor.go\<close>, one turn
  of \<open>Run\<close> in \<open>worker.go\<close>). A machine is the shared world with the worker's own files. An
  operating system call is answered like a call to a service, so it may fail with or without
  effect. ffmpeg is a parameter: a program that gets its arguments and the files and returns an
  error or not with the files it leaves. The goroutines of an errgroup run in an arbitrary order,
  also a parameter; the first error cancels the others, whose error is dropped. The lease loop
  runs beside the job; its ticks are operations of their own (\<open>renewLease_tick\<close>).
\<close>

type_synonym files = "string \<Rightarrow> string option"
type_synonym machine = "world \<times> files"
type_synonym ffmpeg_program = "string \<Rightarrow> string list \<Rightarrow> files \<Rightarrow> unit result \<times> files"

definition on_world :: "(world, 'a) call \<Rightarrow> (machine, 'a) call" where
  "on_world m s = (case s of (w, f) \<Rightarrow> (case m w of (r, w') \<Rightarrow> (r, (w', f))))"

definition os_call :: "(files \<Rightarrow> 'a result \<times> files) \<Rightarrow> (machine, 'a) call" where
  "os_call g s = (case s of (w, f) \<Rightarrow>
     (case next_reply w of
        (Refused, w') \<Rightarrow> (Inl ErrDriver, (w', f))
      | (Reply, w') \<Rightarrow> (case g f of (r, f') \<Rightarrow> (r, (w', f')))
      | (Lost, w') \<Rightarrow> (Inl ErrDriver, (w', snd (g f)))))"

text \<open>A deferred call: it runs whatever the result, and its own error is logged.\<close>

definition deferred :: "('w, unit) call \<Rightarrow> ('w, 'a) call \<Rightarrow> ('w, 'a) call" where
  "deferred cleanup m s = (case m s of (r, s') \<Rightarrow> (r, snd (cleanup s')))"

subsection \<open>Operating system calls\<close>

definition MkdirAll :: "string \<Rightarrow> (machine, unit) call" where
  "MkdirAll dir = os_call (\<lambda>f. (Inr (), f))"

definition RemoveAll :: "string \<Rightarrow> (machine, unit) call" where
  "RemoveAll dir = os_call (\<lambda>f. (Inr (), \<lambda>p. if under dir p then None else f p))"

definition write_file :: "string \<Rightarrow> string \<Rightarrow> (machine, unit) call" where
  "write_file p c = os_call (\<lambda>f. (Inr (), f(p \<mapsto> c)))"

definition Stat :: "string \<Rightarrow> (machine, int) call" where
  "Stat p = os_call (\<lambda>f. (case f p of None \<Rightarrow> Inl (ErrText ''no such file or directory'') | Some c \<Rightarrow> Inr (int (length c)), f))"

definition Open :: "string \<Rightarrow> (machine, string) call" where
  "Open p = os_call (\<lambda>f. (case f p of None \<Rightarrow> Inl (ErrText ''no such file or directory'') | Some c \<Rightarrow> Inr c, f))"

subsection \<open>Download\<close>

text \<open>The storage client's \<open>GetObject\<close> returns a reader; the object is fetched by the copy.\<close>

definition open_object :: "(world, unit) call" where
  "open_object w = (case next_reply w of (Reply, w') \<Rightarrow> (Inr (), w') | (_, w') \<Rightarrow> (Inl ErrDriver, w'))"

definition downloadInput :: "string \<Rightarrow> string \<Rightarrow> (machine, unit) call" where
  "downloadInput key destination =
     and_then (wrap_err ''download input'' (on_world open_object)) (\<lambda>_.
     and_then (wrap_err ''create raw file'' (write_file destination '''')) (\<lambda>_.
     wrap_err ''write raw file''
       (and_then (on_world (get_object key)) (\<lambda>ob. write_file destination (content ob)))))"

subsection \<open>Transcoding\<close>

record ffmpeg_task =
  OutputType :: string
  FileName :: string
  Args :: "string \<Rightarrow> string \<Rightarrow> string list"
  TaskContentType :: string

definition scale_args :: "string \<Rightarrow> string \<Rightarrow> string \<Rightarrow> string list" where
  "scale_args scale inputPath outputPath =
     [''-y'', ''-i'', inputPath, ''-vf'', scale, ''-c:v'', ''libx264'', ''-preset'', ''veryfast'',
      ''-c:a'', ''aac'', ''-movflags'', ''+faststart'', outputPath]"

definition thumbnail_args :: "string \<Rightarrow> string \<Rightarrow> string list" where
  "thumbnail_args inputPath outputPath =
     [''-y'', ''-ss'', ''00:00:01'', ''-i'', inputPath, ''-frames:v'', ''1'', ''-q:v'', ''2'', outputPath]"

definition tasks :: "ffmpeg_task list" where
  "tasks =
    [\<lparr>OutputType = ''video_360p'', FileName = ''360p.mp4'', Args = scale_args ''scale=-2:360'', TaskContentType = ''video/mp4''\<rparr>,
     \<lparr>OutputType = ''video_720p'', FileName = ''720p.mp4'', Args = scale_args ''scale=-2:720'', TaskContentType = ''video/mp4''\<rparr>,
     \<lparr>OutputType = ''video_1080p'', FileName = ''1080p.mp4'', Args = scale_args ''scale=-2:1080'', TaskContentType = ''video/mp4''\<rparr>,
     \<lparr>OutputType = ''thumbnail'', FileName = ''thumbnail.jpg'', Args = thumbnail_args, TaskContentType = ''image/jpeg''\<rparr>]"

definition zero_output :: media_output where
  "zero_output = \<lparr>Type = '''', LocalPath = '''', ObjectKey = '''', CDNURL = '''', FileSize = 0, ContentType = ''''\<rparr>"

definition runFFmpeg :: "ffmpeg_program \<Rightarrow> string \<Rightarrow> string list \<Rightarrow> (machine, unit) call" where
  "runFFmpeg ffmpeg ffmpegPath args = os_call (ffmpeg ffmpegPath args)"

definition run_task :: "ffmpeg_program \<Rightarrow> string \<Rightarrow> string \<Rightarrow> string \<Rightarrow> ffmpeg_task \<Rightarrow> (machine, media_output) call" where
  "run_task ffmpeg ffmpegPath inputPath workDir task =
     (let outputPath = Join workDir (FileName task) in
      and_then (wrap_err (OutputType task) (runFFmpeg ffmpeg ffmpegPath (Args task inputPath outputPath))) (\<lambda>_.
      and_then (wrap_err (OutputType task @ '' stat'') (Stat outputPath)) (\<lambda>size.
      ok (zero_output\<lparr>Type := OutputType task, LocalPath := outputPath, FileSize := size,
        ContentType := TaskContentType task\<rparr>))))"

text \<open>The loop \<open>outputs[i] = ..\<close> over the indices in some order, up to the first error.\<close>

fun run_indexed :: "(nat \<Rightarrow> ('w, 'b) call) \<Rightarrow> nat list \<Rightarrow> 'b list \<Rightarrow> ('w, 'b list) call" where
  "run_indexed body [] outs s = (Inr outs, s)"
| "run_indexed body (i # is) outs s =
     (case body i s of
        (Inl e, s') \<Rightarrow> (Inl e, s')
      | (Inr x, s') \<Rightarrow> run_indexed body is (outs[i := x]) s')"

definition runFFmpegJobs :: "ffmpeg_program \<Rightarrow> nat list \<Rightarrow> string \<Rightarrow> string \<Rightarrow> string \<Rightarrow> string \<Rightarrow> (machine, media_output list) call" where
  "runFFmpegJobs ffmpeg order ffmpegPath inputPath workDir mode =
     run_indexed (\<lambda>i. run_task ffmpeg ffmpegPath inputPath workDir (tasks ! i))
       (if mode = processingModeSequential then [0..<length tasks] else order)
       (replicate (length tasks) zero_output)"

subsection \<open>Upload\<close>

definition object_key :: "worker_config \<Rightarrow> uuid \<Rightarrow> uuid \<Rightarrow> string \<Rightarrow> string" where
  "object_key cfg jobID attemptID ty = OutputPrefix cfg @ ''/'' @ jobID @ ''/'' @ attemptID @ ''/'' @ ty"

definition cdnURL :: "worker_config \<Rightarrow> string \<Rightarrow> string" where
  "cdnURL cfg key = (if wCDNBaseURL cfg = '''' then ''/'' @ key else wCDNBaseURL cfg @ ''/'' @ key)"

definition upload_one :: "worker_config \<Rightarrow> uuid \<Rightarrow> uuid \<Rightarrow> media_output \<Rightarrow> (machine, media_output) call" where
  "upload_one cfg jobID attemptID out =
     (let key = object_key cfg jobID attemptID (Type out) in
      and_then (wrap_err (''open output '' @ Type out) (Open (LocalPath out))) (\<lambda>data.
      and_then (wrap_err (''upload output '' @ Type out)
        (on_world (put_object key \<lparr>content = data, content_type = ContentType out, cache_control = OutputCacheControl cfg\<rparr>))) (\<lambda>_.
      ok (out\<lparr>ObjectKey := key, CDNURL := cdnURL cfg key\<rparr>))))"

definition uploadOutputs :: "worker_config \<Rightarrow> nat list \<Rightarrow> uuid \<Rightarrow> uuid \<Rightarrow> media_output list \<Rightarrow> (machine, media_output list) call" where
  "uploadOutputs cfg order jobID attemptID outputs =
     run_indexed (\<lambda>i. upload_one cfg jobID attemptID (outputs ! i)) order outputs"

subsection \<open>A job\<close>

text \<open>\<open>time.Since(started)\<close> around a call.\<close>

definition timed :: "(machine, 'a) call \<Rightarrow> (machine, 'a \<times> duration) call" where
  "timed m s = (case m s of (Inl e, s') \<Rightarrow> (Inl e, s') | (Inr x, s') \<Rightarrow> (Inr (x, clock (fst s') - clock (fst s)), s'))"

text \<open>
  What a run of a job needs from outside: ffmpeg, the system's temporary directory, the orders of
  the two groups, and the ids \<open>gen_random_uuid()\<close> gives the output rows.
\<close>

record job_env =
  ffmpeg :: ffmpeg_program
  osTempDir :: string
  ffmpeg_order :: "nat list"
  upload_order :: "nat list"
  output_ids :: "uuid list"

definition work_dir :: "worker_config \<Rightarrow> job_env \<Rightarrow> uuid \<Rightarrow> string" where
  "work_dir cfg e jobID = Join (if TempDir cfg = '''' then osTempDir e else TempDir cfg) jobID"

definition run_phases :: "worker_config \<Rightarrow> job_env \<Rightarrow> queue_message \<Rightarrow> uuid \<Rightarrow> string \<Rightarrow> (machine, unit) call" where
  "run_phases cfg e msg attemptID workDir =
     (let inputPath = Join workDir ''raw.mp4'' in
      and_then (on_world (setAttemptPhase attemptID ''downloading'')) (\<lambda>_.
      and_then (timed (downloadInput (MsgInputFile msg) inputPath)) (\<lambda>(_, d1).
      and_then (on_world (recordAttemptDuration attemptID ''download_duration_ms'' d1)) (\<lambda>_.
      and_then (on_world (setAttemptPhase attemptID ''processing'')) (\<lambda>_.
      and_then (timed (runFFmpegJobs (ffmpeg e) (ffmpeg_order e) (FFmpegPath cfg) inputPath workDir (ProcessingMode cfg))) (\<lambda>(outputs, d2).
      and_then (on_world (recordAttemptDuration attemptID ''processing_duration_ms'' d2)) (\<lambda>_.
      and_then (on_world (setAttemptPhase attemptID ''uploading'')) (\<lambda>_.
      and_then (timed (uploadOutputs cfg (upload_order e) (JobID msg) attemptID outputs)) (\<lambda>(uploaded, d3).
      and_then (on_world (recordAttemptDuration attemptID ''upload_duration_ms'' d3)) (\<lambda>_.
      and_then (on_world (setAttemptPhase attemptID ''completing'')) (\<lambda>_.
      on_world (completeJob (JobID msg) attemptID (zip (output_ids e) uploaded)))))))))))))"

definition runJob :: "worker_config \<Rightarrow> job_env \<Rightarrow> queue_message \<Rightarrow> uuid \<Rightarrow> (machine, unit) call" where
  "runJob cfg e msg attemptID =
     (let workDir = work_dir cfg e (JobID msg) in
      and_then (wrap_err ''create work dir'' (MkdirAll workDir)) (\<lambda>_.
        deferred (RemoveAll workDir) (run_phases cfg e msg attemptID workDir)))"

text \<open>
  \<open>processJob\<close> by the worker \<open>wid\<close>; \<open>attemptID\<close> is the fresh identifier the claim draws. The
  worker is set idle after everything else once it was set busy.
\<close>

definition processJob :: "worker_config \<Rightarrow> uuid \<Rightarrow> (go_error \<Rightarrow> string) \<Rightarrow> job_env \<Rightarrow> uuid \<Rightarrow> queue_message \<Rightarrow> (machine, unit) call" where
  "processJob cfg wid text_of e attemptID msg =
     and_then (on_world (markProcessing cfg wid attemptID (JobID msg))) (\<lambda>claimed.
       case claimed of
         None \<Rightarrow> fail_with ErrJobAlreadyClaimed
       | Some attempt \<Rightarrow> (\<lambda>s.
           case on_world (pg (setWorkerBusy wid (JobID msg))) s of
             (Inl err, s1) \<Rightarrow> (Inl err, snd (on_world (handleFailure text_of (JobID msg) attempt err) s1))
           | (Inr _, s1) \<Rightarrow>
               deferred (on_world (log_err (pg (setWorkerIdle wid)))) (\<lambda>s.
                 case runJob cfg e msg attempt s of
                   (Inr _, s2) \<Rightarrow> (Inr (), s2)
                 | (Inl err, s2) \<Rightarrow>
                     if errors_is err ErrStaleAttempt then (Inr (), s2)
                     else (Inl err, snd (on_world (handleFailure text_of (JobID msg) attempt err) s2))) s1))"

text \<open>
  One turn of \<open>Run\<close>. A poll that fails or finds nothing (\<open>poll\<close> returns no message with every
  error) pauses for \<open>PollBackoff\<close>; the error of a job is only logged.
\<close>

definition sleepOrDone :: "duration \<Rightarrow> world \<Rightarrow> world" where
  "sleepOrDone dur w = w\<lparr>clock := clock w + max 0 dur\<rparr>"

definition worker_turn :: "worker_config \<Rightarrow> uuid \<Rightarrow> (go_error \<Rightarrow> string) \<Rightarrow> job_env \<Rightarrow> uuid \<Rightarrow> machine \<Rightarrow> machine" where
  "worker_turn cfg wid text_of e attemptID s =
     (case on_world poll s of
        (Inr (Some msg), s1) \<Rightarrow> snd (processJob cfg wid text_of e attemptID msg s1)
      | (_, (w1, f1)) \<Rightarrow> (sleepOrDone (PollBackoff cfg) w1, f1))"

end
