(* ===== verification/Reaper_Sweep.thy ===== *)
theory Reaper_Sweep
  imports Worker_Store
begin

text \<open>
  The reaper's sweep (\<open>reaper/internal/reaper/sweep.go\<close>): workers that stopped their heartbeat,
  attempts whose lease ran out, queued jobs that Redis lost.
\<close>

record dead_worker =
  DeadID :: uuid
  CurrentJob :: "uuid option"

subsection \<open>Requeue\<close>

definition expired_attempt :: "time \<Rightarrow> string \<Rightarrow> attempt_row \<Rightarrow> attempt_row" where
  "expired_attempt t reason a =
     a\<lparr>a_status := Expired, a_finished_at := Some t, a_failure_category := Some reason\<rparr>"

text \<open>
  The transaction of \<open>requeueJob\<close>; \<open>Some priority\<close> when the job goes back to the queue. An empty
  \<open>attemptID\<close> stands for whatever attempt is current.
\<close>

definition expire_tx :: "uuid \<Rightarrow> uuid \<Rightarrow> string \<Rightarrow> int option stmt" where
  "expire_tx jobID attemptID reason t d =
     (case job_at d jobID of
        None \<Rightarrow> Inr (None, d)
      | Some j \<Rightarrow>
          (case j_current_attempt j of
             None \<Rightarrow> Inr (None, d)
           | Some currentAttempt \<Rightarrow>
               if j_status j \<noteq> Processing \<or> (attemptID \<noteq> '''' \<and> currentAttempt \<noteq> attemptID)
               then Inr (None, d)
               else let d1 = update_attempts (\<lambda>a. a_id a = currentAttempt \<and> a_status a = Running)
                               (expired_attempt t reason) d
                    in if j_retry_count j \<ge> j_max_retries j
                       then Inr (None, update_jobs t (\<lambda>r. j_id r = jobID) dead_row d1)
                       else Inr (Some (j_priority j),
                              update_jobs t (\<lambda>r. j_id r = jobID) (retry_row t) d1)))"

definition requeueJob :: "uuid \<Rightarrow> uuid \<Rightarrow> string \<Rightarrow> (world, unit) call" where
  "requeueJob jobID attemptID reason =
     and_then (pg (expire_tx jobID attemptID reason))
       (\<lambda>requeue. case requeue of None \<Rightarrow> ok () | Some priority \<Rightarrow> Enqueue jobID priority)"

definition requeueActionFor :: "job_info \<Rightarrow> failure_action" where
  "requeueActionFor job = (if RetryCount job \<ge> MaxRetries job then MarkDead else Requeue)"

subsection \<open>Pass 1: dead workers\<close>

definition select_dead_workers :: "reaper_config \<Rightarrow> time \<Rightarrow> database \<Rightarrow> dead_worker list" where
  "select_dead_workers cfg t d =
     map (\<lambda>r. \<lparr>DeadID = w_id r, CurrentJob = w_current_job r\<rparr>)
       (filter (\<lambda>r. w_status r = Busy \<and> w_last_heartbeat r < t - DeadWorkerThreshold cfg) (workers d))"

definition bury_stmt :: "uuid \<Rightarrow> unit stmt" where
  "bury_stmt wid t d =
     Inr ((), update_workers (\<lambda>r. w_id r = wid) (\<lambda>r. r\<lparr>w_status := WorkerDead, w_current_job := None\<rparr>) d)"

definition recover_worker :: "dead_worker \<Rightarrow> (world, unit) call" where
  "recover_worker worker =
     and_then (pg (bury_stmt (DeadID worker)))
       (\<lambda>_. case CurrentJob worker of
              None \<Rightarrow> ok ()
            | Some job \<Rightarrow> requeueJob job '''' ''worker_death'')"

definition recoverDeadWorkers :: "reaper_config \<Rightarrow> (world, unit) call" where
  "recoverDeadWorkers cfg =
     and_then (query (\<lambda>t d. Inr (select_dead_workers cfg t d))) (for_each recover_worker)"

subsection \<open>Pass 2: expired leases\<close>

definition select_expired :: "reaper_config \<Rightarrow> time \<Rightarrow> database \<Rightarrow> (uuid \<times> uuid) list" where
  "select_expired cfg t d =
     map (\<lambda>a. (a_job a, a_id a))
       (filter (\<lambda>a. a_status a = Running \<and> a_lease_expires_at a < t - LeaseExpiryGrace cfg) (job_attempts d))"

definition recover_attempt :: "uuid \<times> uuid \<Rightarrow> (world, unit) call" where
  "recover_attempt x = (case x of (jobID, attemptID) \<Rightarrow> requeueJob jobID attemptID ''lease_expired'')"

definition recoverOrphanedJobs :: "reaper_config \<Rightarrow> (world, unit) call" where
  "recoverOrphanedJobs cfg =
     and_then (query (\<lambda>t d. Inr (select_expired cfg t d))) (for_each recover_attempt)"

subsection \<open>Pass 3: jobs Redis lost\<close>

definition select_stale :: "reaper_config \<Rightarrow> time \<Rightarrow> database \<Rightarrow> uuid list" where
  "select_stale cfg t d =
     map j_id (filter (\<lambda>j. j_status j = Queued \<and> j_updated_at j < t - StaleQueueThreshold cfg) (jobs d))"

definition queueContainsJob :: "uuid \<Rightarrow> (world, bool) call" where
  "queueContainsJob jobID = rd (\<lambda>_ r. (queue_member jobID r, r))"

text \<open>\<open>fetchJob\<close> of \<open>sweep.go\<close>, the query of the worker's.\<close>

definition reaper_fetchJob :: "uuid \<Rightarrow> (world, job_info) call" where
  "reaper_fetchJob jobID = query (\<lambda>_ d. case job_at d jobID of None \<Rightarrow> Inl ErrNoRows | Some j \<Rightarrow> Inr (job_info_of j))"

lemma reaper_fetchJob_eq [simp]: "reaper_fetchJob = fetchJob"
  by (simp add: fun_eq_iff reaper_fetchJob_def fetchJob_def)

definition enqueueJob :: "uuid \<Rightarrow> (world, unit) call" where
  "enqueueJob jobID w =
     (case reaper_fetchJob jobID w of
        (Inl e, w') \<Rightarrow> if e = ErrNoRows then (Inr (), w') else (Inl e, w')
      | (Inr job, w') \<Rightarrow> Enqueue (ID job) (Priority job) w')"

definition recover_missing :: "uuid \<Rightarrow> (world, unit) call" where
  "recover_missing jobID =
     and_then (queueContainsJob jobID) (\<lambda>exists. if exists then ok () else enqueueJob jobID)"

definition recoverMissingQueueMessages :: "reaper_config \<Rightarrow> (world, unit) call" where
  "recoverMissingQueueMessages cfg =
     and_then (query (\<lambda>t d. Inr (select_stale cfg t d))) (for_each recover_missing)"

subsection \<open>The sweep\<close>

definition Sweep :: "reaper_config \<Rightarrow> (world, unit) call" where
  "Sweep cfg =
     and_then (wrap_err ''recover dead workers'' (recoverDeadWorkers cfg)) (\<lambda>_.
     and_then (wrap_err ''recover orphaned jobs'' (recoverOrphanedJobs cfg)) (\<lambda>_.
     and_then (wrap_err ''recover missing queue messages'' (recoverMissingQueueMessages cfg)) (\<lambda>_.
     ok ())))"

text \<open>\<open>markDead\<close> of \<open>sweep.go\<close> has no caller; it is the statement of the worker's \<open>markDead\<close>.\<close>

definition reaper_markDead :: "uuid \<Rightarrow> (world, unit) call" where
  "reaper_markDead jobID = pg (markDead_stmt jobID)"

end
