(* ===== verification/Api_Create.thy ===== *)
theory Api_Create
  imports Queue_Client Config
begin

text \<open>
  Job creation by the API server (\<open>createQueuedJob\<close> of \<open>api/internal/server/handlers.go\<close>): one
  transaction that inserts the job row, then the enqueue, whose failure is only logged because
  the reaper repairs it.
\<close>

definition new_job_row :: "time \<Rightarrow> uuid \<Rightarrow> int \<Rightarrow> int \<Rightarrow> string \<Rightarrow> job_row" where
  "new_job_row t jobID maxRetries priority inputFile =
    \<lparr>j_id = jobID, j_status = Queued, j_retry_count = 0, j_max_retries = maxRetries,
     j_priority = priority, j_input_file = inputFile, j_created_at = t, j_updated_at = t,
     j_queue_entered_at = t, j_current_attempt = None, j_completed_attempt = None,
     j_completed_at = None\<rparr>"

definition create_job_tx :: "api_config \<Rightarrow> uuid \<Rightarrow> string \<Rightarrow> int \<Rightarrow> unit stmt" where
  "create_job_tx cfg jobID inputFile priority t d =
     (case insert_job (new_job_row t jobID (WorkerMaxRetries cfg) priority inputFile) d of
        Inl e \<Rightarrow> Inl e
      | Inr d' \<Rightarrow> Inr ((), d'))"

definition createQueuedJob :: "api_config \<Rightarrow> uuid \<Rightarrow> string \<Rightarrow> int \<Rightarrow> (world, unit) call" where
  "createQueuedJob cfg jobID inputFile priority =
     and_then (pg (create_job_tx cfg jobID inputFile priority))
       (\<lambda>_. log_err (Enqueue jobID priority))"

end
