(* ===== verification/Db_Invariant.thy ===== *)
theory Db_Invariant
  imports Reaper_Sweep Api_Create
begin

text \<open>
  The invariant of the database: primary keys are unique; a job is in processing exactly when
  it has a current attempt, which is running and numbered one above the retries; a running
  attempt is the current attempt of its job; a completed job names the one attempt that
  completed it; outputs belong to that attempt only; retries stay within the budget.
\<close>

definition job_local :: "uuid \<Rightarrow> job_row \<Rightarrow> bool" where
  "job_local k j \<longleftrightarrow>
     k \<noteq> '''' \<and> 0 \<le> j_retry_count j \<and> j_retry_count j \<le> j_max_retries j \<and> int4 (j_max_retries j) \<and>
     valid_priority (j_priority j) \<and>
     (j_status j = Processing \<longleftrightarrow> j_current_attempt j \<noteq> None) \<and>
     (j_status j = Completed \<longleftrightarrow> j_completed_attempt j \<noteq> None) \<and>
     (j_status j = Completed \<longleftrightarrow> j_completed_at j \<noteq> None)"

definition attempt_is :: "database \<Rightarrow> uuid \<Rightarrow> uuid \<Rightarrow> attempt_status \<Rightarrow> int \<Rightarrow> bool" where
  "attempt_is d a k st n \<longleftrightarrow>
     (\<exists>r. attempt_at d a = Some r \<and> a_job r = k \<and> a_status r = st \<and> a_number r = n)"

definition job_links :: "database \<Rightarrow> uuid \<Rightarrow> job_row \<Rightarrow> bool" where
  "job_links d k j \<longleftrightarrow>
     (\<forall>a. j_current_attempt j = Some a \<longrightarrow> attempt_is d a k Running (j_retry_count j + 1)) \<and>
     (\<forall>a. j_completed_attempt j = Some a \<longrightarrow> (\<exists>n. attempt_is d a k AttemptCompleted n))"

definition job_ok :: "database \<Rightarrow> uuid \<Rightarrow> job_row \<Rightarrow> bool" where
  "job_ok d k j \<longleftrightarrow> job_local k j \<and> job_links d k j"

definition attempt_ok :: "database \<Rightarrow> uuid \<Rightarrow> attempt_row \<Rightarrow> bool" where
  "attempt_ok d k a \<longleftrightarrow>
     k \<noteq> '''' \<and> 1 \<le> a_number a \<and>
     (\<exists>j. job_at d (a_job a) = Some j \<and> a_number a \<le> j_retry_count j + 1 \<and>
        (j_status j = Queued \<longrightarrow> a_number a \<le> j_retry_count j) \<and>
        (a_status a = Running \<longrightarrow> j_current_attempt j = Some k) \<and>
        (a_status a = AttemptCompleted \<longrightarrow> j_completed_attempt j = Some k))"

definition output_ok :: "database \<Rightarrow> output_row \<Rightarrow> bool" where
  "output_ok d ro \<longleftrightarrow>
     (\<exists>j a. job_at d (o_job ro) = Some j \<and> j_completed_attempt j = Some a \<and> o_attempt ro = Some a)"

definition numbers_unique :: "database \<Rightarrow> bool" where
  "numbers_unique d \<longleftrightarrow>
     (\<forall>k k' a a'. attempt_at d k = Some a \<longrightarrow> attempt_at d k' = Some a' \<longrightarrow>
        a_job a = a_job a' \<longrightarrow> a_number a = a_number a' \<longrightarrow> k = k')"

definition keys_ok :: "database \<Rightarrow> bool" where
  "keys_ok d \<longleftrightarrow>
     distinct (map j_id (jobs d)) \<and> distinct (map a_id (job_attempts d)) \<and>
     distinct (map w_id (workers d)) \<and> distinct (map (\<lambda>x. (o_job x, o_type x)) (job_outputs d))"

definition db_ok :: "database \<Rightarrow> bool" where
  "db_ok d \<longleftrightarrow>
     keys_ok d \<and> numbers_unique d \<and>
     (\<forall>k j. job_at d k = Some j \<longrightarrow> job_ok d k j) \<and>
     (\<forall>k a. attempt_at d k = Some a \<longrightarrow> attempt_ok d k a) \<and>
     (\<forall>x \<in> set (job_outputs d). output_ok d x)"

lemma db_okD:
  assumes "db_ok d"
  shows "keys_ok d" "numbers_unique d" "job_at d k = Some j \<Longrightarrow> job_ok d k j"
    "attempt_at d k = Some a \<Longrightarrow> attempt_ok d k a" "x \<in> set (job_outputs d) \<Longrightarrow> output_ok d x"
  using assms by (auto simp: db_ok_def)

lemma db_ok_empty: "db_ok empty_db"
  by (simp add: db_ok_def keys_ok_def numbers_unique_def) (simp add: empty_db_def)

subsection \<open>Statements that do not touch the lifecycle columns\<close>

definition attempt_core :: "attempt_row \<Rightarrow> uuid \<times> int \<times> attempt_status" where
  "attempt_core a = (a_job a, a_number a, a_status a)"

lemma attempt_core_eq:
  "map_option attempt_core x = map_option attempt_core y \<Longrightarrow> y = Some a \<Longrightarrow>
   \<exists>b. x = Some b \<and> a_job b = a_job a \<and> a_number b = a_number a \<and> a_status b = a_status a"
  by (auto simp: attempt_core_def)

lemma db_ok_frame:
  assumes ok: "db_ok d" and keys: "keys_ok d'" and j: "job_at d' = job_at d"
    and a: "\<And>k. map_option attempt_core (attempt_at d' k) = map_option attempt_core (attempt_at d k)"
    and out: "job_outputs d' = job_outputs d"
  shows "db_ok d'"
proof -
  have fwd: "\<exists>b. attempt_at d' k = Some b \<and> a_job b = a_job x \<and> a_number b = a_number x \<and> a_status b = a_status x"
    if "attempt_at d k = Some x" for k x
    using attempt_core_eq [OF a that] .
  have bwd: "\<exists>b. attempt_at d k = Some b \<and> a_job b = a_job x \<and> a_number b = a_number x \<and> a_status b = a_status x"
    if "attempt_at d' k = Some x" for k x
    using attempt_core_eq [OF a [symmetric] that] .
  have "numbers_unique d'"
    unfolding numbers_unique_def
  proof (intro allI impI)
    fix k k' x x'
    assume "attempt_at d' k = Some x" "attempt_at d' k' = Some x'" "a_job x = a_job x'" "a_number x = a_number x'"
    with bwd [of k x] bwd [of k' x'] db_okD(2) [OF ok] show "k = k'"
      unfolding numbers_unique_def by metis
  qed
  moreover have "job_ok d' k x" if "job_at d' k = Some x" for k x
  proof -
    have "attempt_is d' y k' st n" if "attempt_is d y k' st n" for y k' st n
      using that fwd [of y] unfolding attempt_is_def by metis
    moreover from that j ok have "job_ok d k x" by (simp add: db_okD)
    ultimately show ?thesis unfolding job_ok_def job_links_def by blast
  qed
  moreover have "attempt_ok d' k x" if "attempt_at d' k = Some x" for k x
    using bwd [OF that] db_okD(4) [OF ok] j unfolding attempt_ok_def by fastforce
  moreover have "output_ok d' x" if "x \<in> set (job_outputs d')" for x
    using that out j db_okD(5) [OF ok] by (simp add: output_ok_def)
  ultimately show ?thesis using keys by (simp add: db_ok_def)
qed

end
