(* ===== verification/Lifecycle_Spec.thy ===== *)
theory Lifecycle_Spec
  imports Prelude
begin

text \<open>
  The abstract lifecycle of a job, the contract the database transitions implement
  (docs/System-design.md, 8.1): a job waits, is leased to one attempt at a time, and ends done by
  one attempt or dropped when its retry budget is spent. An attempt identifier is used once.
\<close>

datatype phase = Waiting | Leased uuid | Done uuid | Dropped

record ajob =
  phase :: phase
  retries :: int
  budget :: int

record lifecycle =
  lc_jobs :: "uuid \<Rightarrow> ajob option"
  lc_used :: "uuid set"

definition lc_init :: lifecycle where
  "lc_init = \<lparr>lc_jobs = (\<lambda>_. None), lc_used = {}\<rparr>"

abbreviation set_job :: "uuid \<Rightarrow> ajob \<Rightarrow> lifecycle \<Rightarrow> lifecycle" where
  "set_job k x s \<equiv> s\<lparr>lc_jobs := (lc_jobs s)(k \<mapsto> x)\<rparr>"

inductive lc_step :: "lifecycle \<Rightarrow> lifecycle \<Rightarrow> bool" where
  submit: "lc_jobs s k = None \<Longrightarrow> 0 \<le> b \<Longrightarrow>
    lc_step s (set_job k \<lparr>phase = Waiting, retries = 0, budget = b\<rparr> s)"
| claim: "lc_jobs s k = Some x \<Longrightarrow> phase x = Waiting \<Longrightarrow> a \<notin> lc_used s \<Longrightarrow>
    lc_step s (set_job k (x\<lparr>phase := Leased a\<rparr>) s\<lparr>lc_used := insert a (lc_used s)\<rparr>)"
| finish: "lc_jobs s k = Some x \<Longrightarrow> phase x = Leased a \<Longrightarrow>
    lc_step s (set_job k (x\<lparr>phase := Done a\<rparr>) s)"
| retry: "lc_jobs s k = Some x \<Longrightarrow> phase x = Leased a \<Longrightarrow> retries x < budget x \<Longrightarrow>
    lc_step s (set_job k (x\<lparr>phase := Waiting, retries := retries x + 1\<rparr>) s)"
| drop: "lc_jobs s k = Some x \<Longrightarrow> phase x = Leased a \<Longrightarrow> budget x \<le> retries x \<Longrightarrow>
    lc_step s (set_job k (x\<lparr>phase := Dropped\<rparr>) s)"

text \<open>Leased and finished attempts are used, and retries stay within the budget.\<close>

definition lc_ok :: "lifecycle \<Rightarrow> bool" where
  "lc_ok s \<longleftrightarrow>
     (\<forall>k x. lc_jobs s k = Some x \<longrightarrow>
        0 \<le> retries x \<and> retries x \<le> budget x \<and>
        (\<forall>a. phase x = Leased a \<or> phase x = Done a \<longrightarrow> a \<in> lc_used s))"

lemma lc_ok_init: "lc_ok lc_init"
  by (simp add: lc_ok_def lc_init_def)

lemma lc_step_ok: "lc_step s s' \<Longrightarrow> lc_ok s \<Longrightarrow> lc_ok s'"
  by (induction rule: lc_step.induct) (auto simp: lc_ok_def split: if_splits)

interpretation lc: guarded_steps lc_step lc_ok
  by unfold_locales (rule lc_step_ok)

subsection \<open>Jobs are kept and terminal states are final\<close>

lemma lc_step_kept:
  "lc_step s s' \<Longrightarrow> lc_jobs s k = Some x \<Longrightarrow> \<exists>y. lc_jobs s' k = Some y \<and> budget y = budget x \<and> retries x \<le> retries y"
  by (induction rule: lc_step.induct) (auto split: if_splits)

lemma lc_steps_kept:
  "lc_step\<^sup>*\<^sup>* s s' \<Longrightarrow> lc_jobs s k = Some x \<Longrightarrow> \<exists>y. lc_jobs s' k = Some y \<and> budget y = budget x \<and> retries x \<le> retries y"
proof (induction rule: rtranclp_induct)
  case (step t u)
  then obtain y where y: "lc_jobs t k = Some y" "budget y = budget x" "retries x \<le> retries y" by blast
  from lc_step_kept [OF step.hyps(2) y(1)] y show ?case by fastforce
qed simp

lemma lc_step_terminal:
  "lc_step s s' \<Longrightarrow> lc_jobs s k = Some x \<Longrightarrow> phase x \<in> {Done a, Dropped} \<Longrightarrow> lc_jobs s' k = Some x"
  by (induction rule: lc_step.induct) (auto split: if_splits)

lemma lc_steps_terminal:
  "lc_step\<^sup>*\<^sup>* s s' \<Longrightarrow> lc_jobs s k = Some x \<Longrightarrow> phase x \<in> {Done a, Dropped} \<Longrightarrow> lc_jobs s' k = Some x"
  by (induction rule: rtranclp_induct) (auto dest: lc_step_terminal)

subsection \<open>A fenced attempt stays fenced\<close>

text \<open>An attempt that is used but neither holds nor has finished the job.\<close>

definition fenced :: "uuid \<Rightarrow> uuid \<Rightarrow> lifecycle \<Rightarrow> bool" where
  "fenced k a s \<longleftrightarrow>
     a \<in> lc_used s \<and> (\<forall>x. lc_jobs s k = Some x \<longrightarrow> phase x \<noteq> Leased a \<and> phase x \<noteq> Done a)"

lemma lc_step_fenced: "lc_step s s' \<Longrightarrow> fenced k a s \<Longrightarrow> fenced k a s'"
  by (induction rule: lc_step.induct) (auto simp: fenced_def split: if_splits)

lemma lc_steps_fenced: "lc_step\<^sup>*\<^sup>* s s' \<Longrightarrow> fenced k a s \<Longrightarrow> fenced k a s'"
  by (induction rule: rtranclp_induct) (auto intro: lc_step_fenced)

subsection \<open>Every job runs out of transitions\<close>

text \<open>
  A job's rank bounds the transitions it can still make: every transition of the job lowers it
  and no transition of another job changes it.
\<close>

fun rank :: "ajob \<Rightarrow> nat" where
  "rank x = (case phase x of
     Waiting \<Rightarrow> 2 * nat (budget x - retries x) + 2
   | Leased _ \<Rightarrow> 2 * nat (budget x - retries x) + 1
   | _ \<Rightarrow> 0)"

lemma lc_step_rank:
  "lc_step s s' \<Longrightarrow> lc_jobs s k = Some x \<Longrightarrow> lc_jobs s' k = Some y \<Longrightarrow> y = x \<or> rank y < rank x"
  by (induction rule: lc_step.induct) (auto split: if_splits)

inductive_cases lc_stepE: "lc_step s s'"

lemma lc_steps_rank:
  assumes "lc_step\<^sup>*\<^sup>* s s'" and "lc_jobs s k = Some x" and "lc_jobs s' k = Some y"
  shows "y = x \<or> rank y < rank x"
  using assms(1,3)
proof (induction arbitrary: y rule: rtranclp_induct)
  case (step t u)
  from lc_steps_kept [OF step.hyps(1) assms(2)] obtain z where z: "lc_jobs t k = Some z" by blast
  from lc_step_rank [OF step.hyps(2) z step.prems] step.IH [OF z] show ?case by (auto intro: less_trans simp del: rank.simps)
qed (use assms in simp)

end
