(* ===== verification/Db_Steps.thy ===== *)
theory Db_Steps
  imports Db_Invariant Lifecycle_Spec
begin

text \<open>
  What each statement and transaction does to the rows it can see, and that it keeps the
  invariant. The transitions of the lifecycle have three shapes: a new job, a claim
  (one job row, one new attempt row), and a settlement (one job row leaves processing, its
  attempt row stops running). Every other statement leaves the lifecycle columns alone.
\<close>

subsection \<open>The updates of the program\<close>

interpretation claim_upd: keyed_update j_id
  "\<lambda>r. j_id r = J \<and> j_status r = Queued \<and> j_current_attempt r = None"
  "\<lambda>j. (claim_row A j)\<lparr>j_updated_at := t\<rparr>" for J A t
  by unfold_locales (simp add: claim_row_def)

interpretation complete_upd: keyed_update j_id "held_by J A" "\<lambda>j. (complete_row t A j)\<lparr>j_updated_at := t\<rparr>" for J A t
  by unfold_locales (simp add: complete_row_def)

interpretation dead_upd: keyed_update j_id "\<lambda>r. j_id r = J" "\<lambda>j. (dead_row j)\<lparr>j_updated_at := t\<rparr>" for J t
  by unfold_locales (simp add: dead_row_def)

interpretation retry_upd: keyed_update j_id "\<lambda>r. j_id r = J" "\<lambda>j. (retry_row t j)\<lparr>j_updated_at := t\<rparr>" for J t
  by unfold_locales (simp add: retry_row_def)

interpretation renew_upd: keyed_update a_id "lease_held A d"
  "\<lambda>a. a\<lparr>a_last_heartbeat := t, a_lease_expires_at := e\<rparr>" for A d t e
  by unfold_locales simp

interpretation phase_upd: keyed_update a_id "\<lambda>a. a_id a = A \<and> a_status a = Running" "\<lambda>a. a\<lparr>a_phase := ph\<rparr>" for A ph
  by unfold_locales simp

interpretation duration_upd: keyed_update a_id "\<lambda>a. a_id a = A" "set_duration field ms" for A field ms
  by unfold_locales simp

interpretation done_upd: keyed_update a_id "\<lambda>a. a_id a = A \<and> a_status a = Running"
  "\<lambda>a. a\<lparr>a_status := AttemptCompleted, a_finished_at := Some t, a_phase := ''completed''\<rparr>" for A t
  by unfold_locales simp

interpretation failed_upd: keyed_update a_id "\<lambda>a. a_id a = A \<and> a_status a = Running" "failed_attempt t c" for A t c
  by unfold_locales (simp add: failed_attempt_def)

interpretation expired_upd: keyed_update a_id "\<lambda>a. a_id a = A \<and> a_status a = Running" "expired_attempt t c" for A t c
  by unfold_locales (simp add: expired_attempt_def)

interpretation heartbeat_upd: keyed_update w_id "\<lambda>r. w_id r = W" "\<lambda>r. r\<lparr>w_last_heartbeat := t\<rparr>" for W t
  by unfold_locales simp

interpretation worker_upd: keyed_update w_id "\<lambda>r. w_id r = W"
  "\<lambda>r. r\<lparr>w_status := st, w_current_job := cj, w_last_heartbeat := t\<rparr>" for W st cj t
  by unfold_locales simp

interpretation bury_upd: keyed_update w_id "\<lambda>r. w_id r = W" "\<lambda>r. r\<lparr>w_status := WorkerDead, w_current_job := None\<rparr>" for W
  by unfold_locales simp

lemmas job_keys = claim_upd.keys complete_upd.keys dead_upd.keys retry_upd.keys
lemmas attempt_keys = renew_upd.keys phase_upd.keys duration_upd.keys done_upd.keys failed_upd.keys expired_upd.keys
lemmas worker_keys = heartbeat_upd.keys worker_upd.keys bury_upd.keys

subsection \<open>Statements outside the lifecycle\<close>

lemma keys_ok_workers:
  "map w_id ws = map w_id (workers d) \<Longrightarrow> keys_ok (d\<lparr>workers := ws\<rparr>) = keys_ok d"
  by (simp add: keys_ok_def)

lemma keys_ok_attempts:
  "map a_id xs = map a_id (job_attempts d) \<Longrightarrow> keys_ok (d\<lparr>job_attempts := xs\<rparr>) = keys_ok d"
  by (simp add: keys_ok_def)

lemma db_ok_workers:
  assumes "db_ok d" and "distinct (map w_id ws)"
  shows "db_ok (d\<lparr>workers := ws\<rparr>)"
proof (rule db_ok_frame [OF assms(1)])
  show "keys_ok (d\<lparr>workers := ws\<rparr>)" using assms by (simp add: db_ok_def keys_ok_def)
qed (simp_all add: job_at_def attempt_at_def)

lemma db_ok_attempt_columns:
  assumes ok: "db_ok d" and keys: "map a_id xs = map a_id (job_attempts d)"
    and core: "\<And>k. map_option attempt_core (row_at a_id xs k) = map_option attempt_core (attempt_at d k)"
  shows "db_ok (d\<lparr>job_attempts := xs\<rparr>)"
proof (rule db_ok_frame [OF ok])
  show "keys_ok (d\<lparr>job_attempts := xs\<rparr>)" using ok keys by (simp add: keys_ok_attempts db_ok_def)
  show "map_option attempt_core (attempt_at (d\<lparr>job_attempts := xs\<rparr>) k) = map_option attempt_core (attempt_at d k)" for k
    using core by (simp add: attempt_at_def)
qed (simp_all add: job_at_def)

lemma attempt_core_set_row:
  "(\<And>a. p a \<Longrightarrow> attempt_core (f a) = attempt_core a) \<Longrightarrow>
   map_option attempt_core (map_option (set_row p f) x) = map_option attempt_core x"
  by (cases x) (simp_all add: set_row_def)

lemma renew_ok: "db_ok d \<Longrightarrow> renew_stmt cfg A t d = Inr (x, d') \<Longrightarrow> db_ok d'"
  by (auto simp: renew_stmt_def update_attempts_def intro!: db_ok_attempt_columns)
     (simp_all add: renew_upd.keys renew_upd.lookup attempt_at_def attempt_core_set_row attempt_core_def)

lemma phase_ok: "db_ok d \<Longrightarrow> phase_stmt A ph t d = Inr (x, d') \<Longrightarrow> db_ok d'"
  by (auto simp: phase_stmt_def update_attempts_def intro!: db_ok_attempt_columns)
     (simp_all add: phase_upd.keys phase_upd.lookup attempt_at_def attempt_core_set_row attempt_core_def)

lemma duration_ok: "db_ok d \<Longrightarrow> duration_stmt A field dur t d = Inr (x, d') \<Longrightarrow> db_ok d'"
  by (auto simp: duration_stmt_def update_attempts_def intro!: db_ok_attempt_columns)
     (simp_all add: duration_upd.keys duration_upd.lookup attempt_at_def attempt_core_set_row attempt_core_def)

lemma db_ok_worker_keys:
  "db_ok d \<Longrightarrow> map w_id ws = map w_id (workers d) \<Longrightarrow> db_ok (d\<lparr>workers := ws\<rparr>)"
  by (rule db_ok_workers) (simp_all add: db_ok_def keys_ok_def)

lemma register_ok: "db_ok d \<Longrightarrow> register wid t d = Inr (x, d') \<Longrightarrow> db_ok d'"
proof -
  assume ok: "db_ok d" and r: "register wid t d = Inr (x, d')"
  show "db_ok d'"
  proof (cases "worker_at d wid")
    case None
    with ok have "distinct (map w_id (workers d @ [\<lparr>w_id = wid, w_status = Idle, w_current_job = None, w_last_heartbeat = t\<rparr>]))"
      by (simp add: worker_at_def row_at_None_iff db_ok_def keys_ok_def)
    with r ok None show ?thesis by (auto simp: register_def intro: db_ok_workers)
  next
    case (Some r0)
    with r ok show ?thesis
      by (auto simp: register_def update_workers_def worker_upd.keys intro: db_ok_worker_keys)
  qed
qed

lemma heartbeat_ok: "db_ok d \<Longrightarrow> heartbeat wid t d = Inr (x, d') \<Longrightarrow> db_ok d'"
  by (auto simp: heartbeat_def update_workers_def heartbeat_upd.keys intro: db_ok_worker_keys)

lemma busy_ok: "db_ok d \<Longrightarrow> setWorkerBusy wid j t d = Inr (x, d') \<Longrightarrow> db_ok d'"
  by (auto simp: setWorkerBusy_def update_workers_def worker_upd.keys intro: db_ok_worker_keys split: if_splits)

lemma idle_ok: "db_ok d \<Longrightarrow> setWorkerIdle wid t d = Inr (x, d') \<Longrightarrow> db_ok d'"
  by (auto simp: setWorkerIdle_def update_workers_def worker_upd.keys intro: db_ok_worker_keys)

lemma bury_ok: "db_ok d \<Longrightarrow> bury_stmt wid t d = Inr (x, d') \<Longrightarrow> db_ok d'"
  by (auto simp: bury_stmt_def update_workers_def bury_upd.keys intro: db_ok_worker_keys)

end
