(* ===== verification/Db_Transitions.thy ===== *)
theory Db_Transitions
  imports Db_Steps
begin

text \<open>
  The transitions of the lifecycle: creation, claim, completion, failure, expiry. For each, what
  the lookups see afterwards, that the invariant is kept, and that the abstract lifecycle makes
  the corresponding step.
\<close>

subsection \<open>The abstract view of the database\<close>

definition phase_of :: "job_row \<Rightarrow> phase" where
  "phase_of j = (case j_status j of
     Queued \<Rightarrow> Waiting
   | Processing \<Rightarrow> (case j_current_attempt j of None \<Rightarrow> Waiting | Some a \<Rightarrow> Leased a)
   | Completed \<Rightarrow> (case j_completed_attempt j of None \<Rightarrow> Dropped | Some a \<Rightarrow> Done a)
   | Dead \<Rightarrow> Dropped)"

definition ajob_of :: "job_row \<Rightarrow> ajob" where
  "ajob_of j = \<lparr>phase = phase_of j, retries = j_retry_count j, budget = j_max_retries j\<rparr>"

definition lc_view :: "database \<Rightarrow> lifecycle" where
  "lc_view d = \<lparr>lc_jobs = (\<lambda>k. map_option ajob_of (job_at d k)), lc_used = dom (attempt_at d)\<rparr>"

lemma lc_view_sel [simp]:
  "lc_jobs (lc_view d) k = map_option ajob_of (job_at d k)" "lc_used (lc_view d) = dom (attempt_at d)"
  by (simp_all add: lc_view_def)

lemma lc_view_cong:
  "job_at d' = job_at d \<Longrightarrow> dom (attempt_at d') = dom (attempt_at d) \<Longrightarrow> lc_view d' = lc_view d"
  by (simp add: lc_view_def)

lemma lc_view_job_upd:
  assumes "job_at d' = (job_at d)(J \<mapsto> j')" and "dom (attempt_at d') = U"
  shows "lc_view d' = set_job J (ajob_of j') (lc_view d)\<lparr>lc_used := U\<rparr>"
  using assms by (simp add: lc_view_def fun_eq_iff)

lemma phase_Leased: "job_local k j \<Longrightarrow> phase_of j = Leased a \<longleftrightarrow> j_status j = Processing \<and> j_current_attempt j = Some a"
  by (auto simp: phase_of_def job_local_def split: job_status.splits option.splits)

lemma phase_Done: "job_local k j \<Longrightarrow> phase_of j = Done a \<longleftrightarrow> j_completed_attempt j = Some a"
  by (auto simp: phase_of_def job_local_def split: job_status.splits option.splits)

subsection \<open>Creation\<close>

lemma job_at_snoc:
  "job_at d (j_id r) = None \<Longrightarrow> job_at (d\<lparr>jobs := jobs d @ [r]\<rparr>) = (job_at d)(j_id r \<mapsto> r)"
  by (auto simp: job_at_def row_at_append fun_eq_iff split: option.splits)

lemma attempt_at_snoc:
  "attempt_at d (a_id r) = None \<Longrightarrow> attempt_at (d\<lparr>job_attempts := job_attempts d @ [r]\<rparr>) = (attempt_at d)(a_id r \<mapsto> r)"
  by (auto simp: attempt_at_def row_at_append fun_eq_iff split: option.splits)

lemma create_effect:
  assumes "create_job_tx cfg J file p t d = Inr (x, d')"
  shows "job_at d J = None" and "d' = d\<lparr>jobs := jobs d @ [new_job_row t J (WorkerMaxRetries cfg) p file]\<rparr>"
    and "job_at d' = (job_at d)(J \<mapsto> new_job_row t J (WorkerMaxRetries cfg) p file)"
    and "0 \<le> WorkerMaxRetries cfg" and "int4 (WorkerMaxRetries cfg)"
proof -
  let ?r = "new_job_row t J (WorkerMaxRetries cfg) p file"
  from assms show none: "job_at d J = None" and d': "d' = d\<lparr>jobs := jobs d @ [?r]\<rparr>"
    and "0 \<le> WorkerMaxRetries cfg" and "int4 (WorkerMaxRetries cfg)"
    by (auto simp: create_job_tx_def insert_job_def new_job_row_def split: if_splits)
  then show "job_at d' = (job_at d)(J \<mapsto> ?r)"
    using job_at_snoc [of d ?r] by (simp add: new_job_row_def)
qed

lemma create_ok:
  assumes ok: "db_ok d" and c: "create_job_tx cfg J file p t d = Inr (x, d')"
    and J: "J \<noteq> ''''" and p: "valid_priority p"
  shows "db_ok d'"
proof -
  note eff = create_effect [OF c]
  have a: "attempt_at d' = attempt_at d" and out: "job_outputs d' = job_outputs d"
    by (simp_all add: eff(2) attempt_at_def)
  have "keys_ok d'"
    using ok eff(1) by (auto simp: eff(2) db_ok_def keys_ok_def job_at_def row_at_None_iff new_job_row_def)
  moreover have "numbers_unique d'"
    using ok a by (simp add: db_ok_def numbers_unique_def)
  moreover have "job_ok d' k j" if "job_at d' k = Some j" for k j
  proof (cases "k = J")
    case True
    with that eff J p show ?thesis
      by (auto simp: job_ok_def job_local_def job_links_def new_job_row_def)
  next
    case False
    with that eff have "job_at d k = Some j" by simp
    with ok a show ?thesis
      by (auto simp: job_ok_def job_links_def attempt_is_def dest: db_okD(3))
  qed
  moreover have "attempt_ok d' k r" if "attempt_at d' k = Some r" for k r
  proof -
    from that a ok have "attempt_ok d k r" by (simp add: db_okD)
    with eff(1,3) show ?thesis by (auto simp: attempt_ok_def)
  qed
  moreover have "output_ok d' y" if "y \<in> set (job_outputs d')" for y
    using that out db_okD(5) [OF ok, of y] eff(1,3) by (auto simp: output_ok_def)
  ultimately show ?thesis by (simp add: db_ok_def)
qed

lemma create_sim:
  assumes "create_job_tx cfg J file p t d = Inr (x, d')"
  shows "lc_step (lc_view d) (lc_view d')"
proof -
  note eff = create_effect [OF assms]
  have "attempt_at d' = attempt_at d" by (simp add: eff(2) attempt_at_def)
  with lc_view_job_upd [OF eff(3) refl]
  have "lc_view d' = set_job J (ajob_of (new_job_row t J (WorkerMaxRetries cfg) p file)) (lc_view d)"
    by (simp add: lc_view_def)
  moreover have "ajob_of (new_job_row t J (WorkerMaxRetries cfg) p file) =
      \<lparr>phase = Waiting, retries = 0, budget = WorkerMaxRetries cfg\<rparr>"
    by (simp add: ajob_of_def new_job_row_def phase_of_def)
  ultimately show ?thesis
    using eff(1,4) lc_step.submit [of "lc_view d" J "WorkerMaxRetries cfg"] by simp
qed

subsection \<open>Claim\<close>

lemma insert_attempt_effect:
  assumes "insert_attempt r d = Inr d'"
  shows "attempt_at d (a_id r) = None" and "d' = d\<lparr>job_attempts := job_attempts d @ [r]\<rparr>"
    and "attempt_at d' = (attempt_at d)(a_id r \<mapsto> r)"
    and "\<And>k b. attempt_at d k = Some b \<Longrightarrow> a_job b = a_job r \<Longrightarrow> a_number b \<noteq> a_number r"
proof -
  from assms show none: "attempt_at d (a_id r) = None" and d': "d' = d\<lparr>job_attempts := job_attempts d @ [r]\<rparr>"
    by (auto simp: insert_attempt_def split: if_splits)
  then show "attempt_at d' = (attempt_at d)(a_id r \<mapsto> r)" by (simp add: attempt_at_snoc)
  have "\<not> list_ex (\<lambda>a. a_job a = a_job r \<and> a_number a = a_number r) (job_attempts d)"
    using assms by (auto simp: insert_attempt_def split: if_splits)
  then show "\<And>k b. attempt_at d k = Some b \<Longrightarrow> a_job b = a_job r \<Longrightarrow> a_number b \<noteq> a_number r"
    by (auto simp: attempt_at_def list_ex_iff dest!: row_at_SomeD)
qed

lemma claim_effect:
  assumes ok: "db_ok d" and c: "claim_tx cfg wid A J t d = Inr (r, d')"
  shows "(r = None \<and> d' = d) \<or>
    (\<exists>j. r = Some A \<and> job_at d J = Some j \<and> j_status j = Queued \<and> attempt_at d A = None \<and>
      job_at d' = (job_at d)(J \<mapsto> (claim_row A j)\<lparr>j_updated_at := t\<rparr>) \<and>
      attempt_at d' = (attempt_at d)(A \<mapsto> new_attempt_row cfg wid t A j) \<and>
      job_outputs d' = job_outputs d \<and> workers d' = workers d \<and>
      map j_id (jobs d') = map j_id (jobs d) \<and> map a_id (job_attempts d') = map a_id (job_attempts d) @ [A])"
proof (cases "job_at d J")
  case None
  with c show ?thesis by (simp add: claim_tx_def)
next
  case (Some j)
  show ?thesis
  proof (cases "j_status j = Queued")
    case False
    with c Some show ?thesis by (simp add: claim_tx_def)
  next
    case True
    with c Some obtain d1 where ins: "insert_attempt (new_attempt_row cfg wid t A j) d = Inr d1"
      and r: "r = Some A" and d': "d' = update_jobs t
        (\<lambda>r. j_id r = J \<and> j_status r = Queued \<and> j_current_attempt r = None) (claim_row A) d1"
      by (auto simp: claim_tx_def split: sum.splits)
    note e = insert_attempt_effect [OF ins]
    from True Some ok have cur: "j_current_attempt j = None"
      using db_okD(3) [OF ok Some] by (simp add: job_ok_def job_local_def)
    have row: "row_at j_id (jobs d) J = Some j" using Some by (simp add: job_at_def)
    have "job_at d' = (job_at d)(J \<mapsto> (claim_row A j)\<lparr>j_updated_at := t\<rparr>)"
      unfolding d' update_jobs_def e(2) job_at_def
      using claim_upd.lookup_one [OF row, of J] True cur row_at_key [OF row] by simp
    moreover have "attempt_at d' = (attempt_at d)(A \<mapsto> new_attempt_row cfg wid t A j)"
      using e(3) by (simp add: d' at_update_jobs) (simp add: new_attempt_row_def)
    moreover have "attempt_at d A = None" using e(1) by (simp add: new_attempt_row_def)
    moreover have "map j_id (jobs d') = map j_id (jobs d)"
      by (simp add: d' update_jobs_def claim_upd.keys e(2))
    moreover have "map a_id (job_attempts d') = map a_id (job_attempts d) @ [A]"
      and "job_outputs d' = job_outputs d" and "workers d' = workers d"
      by (simp_all add: d' at_update_jobs e(2)) (simp add: new_attempt_row_def)
    ultimately show ?thesis using r Some True by blast
  qed
qed

text \<open>What a successful claim changes: the job is leased to a new attempt, numbered after the retries.\<close>

definition leases :: "database \<Rightarrow> database \<Rightarrow> uuid \<Rightarrow> uuid \<Rightarrow> job_row \<Rightarrow> job_row \<Rightarrow> attempt_row \<Rightarrow> bool" where
  "leases d d' J A j j' a \<longleftrightarrow>
     job_at d J = Some j \<and> j_status j = Queued \<and> attempt_at d A = None \<and>
     (\<exists>t. j' = (claim_row A j)\<lparr>j_updated_at := t\<rparr>) \<and> job_at d' = (job_at d)(J \<mapsto> j') \<and> attempt_at d' = (attempt_at d)(A \<mapsto> a) \<and>
     a_job a = J \<and> a_status a = Running \<and> a_number a = j_retry_count j + 1"

lemma leases_before:
  assumes "db_ok d" and "leases d d' J A j j' a"
  shows "job_local J j" and "job_links d J j"
    and "j_current_attempt j = None" "j_completed_attempt j = None" "j_completed_at j = None"
    and "\<And>k b. attempt_at d k = Some b \<Longrightarrow> a_job b = J \<Longrightarrow>
      a_number b \<le> j_retry_count j \<and> a_status b \<noteq> Running \<and> a_status b \<noteq> AttemptCompleted"
proof -
  have j: "job_at d J = Some j" "j_status j = Queued" using assms(2) by (simp_all add: leases_def)
  show l: "job_local J j" "job_links d J j" using db_okD(3) [OF assms(1) j(1)] by (simp_all add: job_ok_def)
  then show none: "j_current_attempt j = None" "j_completed_attempt j = None" "j_completed_at j = None"
    using j(2) by (auto simp: job_local_def)
  show "a_number b \<le> j_retry_count j \<and> a_status b \<noteq> Running \<and> a_status b \<noteq> AttemptCompleted"
    if "attempt_at d k = Some b" "a_job b = J" for k b
    using db_okD(4) [OF assms(1) that(1)] that(2) j none by (auto simp: attempt_ok_def)
qed

lemma leases_numbers:
  assumes "db_ok d" and "leases d d' J A j j' a"
  shows "numbers_unique d'"
  unfolding numbers_unique_def
proof (intro allI impI)
  fix k k' b b'
  assume "attempt_at d' k = Some b" "attempt_at d' k' = Some b'" "a_job b = a_job b'" "a_number b = a_number b'"
  then show "k = k'"
    using db_okD(2) [OF assms(1)] leases_before(6) [OF assms, of k b] leases_before(6) [OF assms, of k' b'] assms(2)
    unfolding leases_def numbers_unique_def by (auto split: if_splits)
qed

lemma leases_jobs:
  assumes "db_ok d" and l: "leases d d' J A j j' a" and "job_at d' k = Some x"
  shows "job_ok d' k x"
proof (cases "k = J")
  case True
  then obtain t where "x = (claim_row A j)\<lparr>j_updated_at := t\<rparr>" using assms(3) l by (auto simp: leases_def)
  with True leases_before [OF assms(1) l] l show ?thesis
    by (simp add: job_ok_def job_local_def job_links_def attempt_is_def claim_row_def leases_def)
next
  case False
  with assms(3) l have "job_at d k = Some x" by (auto simp: leases_def)
  moreover have "attempt_is d' y i s n" if "attempt_is d y i s n" for y i s n
    using that l by (auto simp: attempt_is_def leases_def)
  ultimately show ?thesis using db_okD(3) [OF assms(1)] unfolding job_ok_def job_links_def by blast
qed

lemma leases_attempts:
  assumes "db_ok d" and l: "leases d d' J A j j' a" and "attempt_at d' k = Some b" and "A \<noteq> ''''"
  shows "attempt_ok d' k b"
proof (cases "k = A")
  case True
  with assms(3,4) l leases_before(1) [OF assms(1) l] show ?thesis
    by (auto simp: attempt_ok_def claim_row_def job_local_def leases_def)
next
  case False
  with assms(3) l have b: "attempt_at d k = Some b" by (auto simp: leases_def)
  with leases_before(6) [OF assms(1) l b] l db_okD(4) [OF assms(1) b] show ?thesis
    by (auto simp: attempt_ok_def claim_row_def leases_def)
qed

lemma claim_ok:
  assumes ok: "db_ok d" and c: "claim_tx cfg wid A J t d = Inr (r, d')" and A: "A \<noteq> ''''"
  shows "db_ok d'"
proof (cases "r = None")
  case True
  with claim_effect [OF ok c] ok show ?thesis by auto
next
  case False
  with claim_effect [OF ok c] obtain j where j: "job_at d J = Some j" "j_status j = Queued" "attempt_at d A = None"
      "job_at d' = (job_at d)(J \<mapsto> (claim_row A j)\<lparr>j_updated_at := t\<rparr>)"
      "attempt_at d' = (attempt_at d)(A \<mapsto> new_attempt_row cfg wid t A j)"
    and rest: "job_outputs d' = job_outputs d" "workers d' = workers d"
      "map j_id (jobs d') = map j_id (jobs d)" "map a_id (job_attempts d') = map a_id (job_attempts d) @ [A]"
    by auto
  then have l: "leases d d' J A j ((claim_row A j)\<lparr>j_updated_at := t\<rparr>) (new_attempt_row cfg wid t A j)"
    using job_at_key [OF j(1)] by (auto simp: leases_def new_attempt_row_def)
  have "keys_ok d'"
    using ok j(3) rest by (simp add: db_ok_def keys_ok_def attempt_at_def row_at_None_iff)
  moreover have "output_ok d' y" if "y \<in> set (job_outputs d')" for y
    using that rest db_okD(5) [OF ok, of y] j leases_before(4) [OF ok l] by (auto simp: output_ok_def)
  ultimately show ?thesis
    using leases_numbers [OF ok l] leases_jobs [OF ok l] leases_attempts [OF ok l _ A] by (simp add: db_ok_def)
qed

lemma claim_sim:
  assumes ok: "db_ok d" and c: "claim_tx cfg wid A J t d = Inr (r, d')"
  shows "lc_view d' = lc_view d \<or> lc_step (lc_view d) (lc_view d')"
proof (cases "r = None")
  case True
  with claim_effect [OF ok c] show ?thesis by auto
next
  case False
  with claim_effect [OF ok c] obtain j where j: "job_at d J = Some j" "j_status j = Queued"
    and new: "attempt_at d A = None" and j': "job_at d' = (job_at d)(J \<mapsto> (claim_row A j)\<lparr>j_updated_at := t\<rparr>)"
    and a': "attempt_at d' = (attempt_at d)(A \<mapsto> new_attempt_row cfg wid t A j)"
    by auto
  have "ajob_of ((claim_row A j)\<lparr>j_updated_at := t\<rparr>) = (ajob_of j)\<lparr>phase := Leased A\<rparr>"
    by (simp add: ajob_of_def phase_of_def claim_row_def)
  then have "lc_view d' = set_job J ((ajob_of j)\<lparr>phase := Leased A\<rparr>) (lc_view d)\<lparr>lc_used := insert A (lc_used (lc_view d))\<rparr>"
    using lc_view_job_upd [OF j' refl] by (simp add: a')
  moreover have "phase (ajob_of j) = Waiting" using j(2) by (simp add: ajob_of_def phase_of_def)
  ultimately show ?thesis
    using j new lc_step.claim [of "lc_view d" J "ajob_of j" A] by (auto simp: domIff)
qed

subsection \<open>Settlement\<close>

text \<open>
  The common shape of completion, failure and expiry: the job \<open>J\<close>, held by \<open>A\<close>, leaves
  processing, and \<open>A\<close> stops running.
\<close>

definition job_fixed :: "job_row \<Rightarrow> uuid \<times> int \<times> int \<times> string \<times> time" where
  "job_fixed j = (j_id j, j_max_retries j, j_priority j, j_input_file j, j_created_at j)"

definition settles :: "database \<Rightarrow> database \<Rightarrow> uuid \<Rightarrow> uuid \<Rightarrow> job_row \<Rightarrow> job_row \<Rightarrow> attempt_status \<Rightarrow> bool" where
  "settles d d' J A j j' st \<longleftrightarrow>
     job_at d J = Some j \<and> j_status j = Processing \<and> j_current_attempt j = Some A \<and>
     job_at d' = (job_at d)(J \<mapsto> j') \<and> j_current_attempt j' = None \<and>
     job_fixed j' = job_fixed j \<and>
     (\<exists>r r'. attempt_at d A = Some r \<and> attempt_at d' = (attempt_at d)(A \<mapsto> r') \<and> a_job r' = a_job r \<and>
        a_number r' = a_number r \<and> a_status r' = st) \<and> st \<noteq> Running \<and>
     map j_id (jobs d') = map j_id (jobs d) \<and> map a_id (job_attempts d') = map a_id (job_attempts d) \<and>
     workers d' = workers d"

text \<open>The three ways to leave processing.\<close>

definition leaves :: "uuid \<Rightarrow> job_row \<Rightarrow> job_row \<Rightarrow> attempt_status \<Rightarrow> bool" where
  "leaves A j j' st \<longleftrightarrow>
     (case j_status j' of
        Completed \<Rightarrow> j_completed_attempt j' = Some A \<and> j_completed_at j' \<noteq> None \<and>
          j_retry_count j' = j_retry_count j \<and> st = AttemptCompleted
      | Queued \<Rightarrow> j_completed_attempt j' = j_completed_attempt j \<and> j_completed_at j' = j_completed_at j \<and>
          j_retry_count j' = j_retry_count j + 1 \<and> j_retry_count j < j_max_retries j \<and> st \<noteq> AttemptCompleted
      | Dead \<Rightarrow> j_completed_attempt j' = j_completed_attempt j \<and> j_completed_at j' = j_completed_at j \<and>
          j_retry_count j' = j_retry_count j \<and> j_max_retries j \<le> j_retry_count j \<and> st \<noteq> AttemptCompleted
      | Processing \<Rightarrow> False)"

lemma settles_before:
  assumes "db_ok d" and "settles d d' J A j j' st"
  obtains r r' where "job_local J j" "job_links d J j" "j_completed_attempt j = None" "j_completed_at j = None"
    "j_max_retries j' = j_max_retries j" "j_priority j' = j_priority j"
    "attempt_at d A = Some r" "a_job r = J" "a_number r = j_retry_count j + 1" "a_status r = Running"
    "attempt_at d' = (attempt_at d)(A \<mapsto> r')" "a_job r' = J" "a_number r' = a_number r" "a_status r' = st"
proof -
  from assms(2) obtain r r' where j: "job_at d J = Some j" "j_status j = Processing" "j_current_attempt j = Some A"
    and fixed: "j_max_retries j' = j_max_retries j" "j_priority j' = j_priority j"
    and r: "attempt_at d A = Some r" "attempt_at d' = (attempt_at d)(A \<mapsto> r')" "a_job r' = a_job r"
      "a_number r' = a_number r" "a_status r' = st"
    unfolding settles_def job_fixed_def by auto
  have jl: "job_local J j" "job_links d J j" using db_okD(3) [OF assms(1) j(1)] by (simp_all add: job_ok_def)
  with j r(1) have "a_job r = J" "a_number r = j_retry_count j + 1" "a_status r = Running"
    by (auto simp: job_links_def attempt_is_def)
  moreover have "j_completed_attempt j = None" "j_completed_at j = None" using jl j(2) by (auto simp: job_local_def)
  ultimately show thesis using that jl fixed r by metis
qed

lemma settles_job_rows:
  assumes "db_ok d" and s: "settles d d' J A j j' st" and l: "leaves A j j' st" and "job_at d' k = Some x"
  shows "job_ok d' k x"
proof (cases rule: settles_before [OF assms(1) s])
  case (1 r r')
  have j': "job_at d' = (job_at d)(J \<mapsto> j')" "j_current_attempt j' = None" using s by (simp_all add: settles_def)
  show ?thesis
  proof (cases "k = J")
    case True
    have "job_local J j'"
      using l 1 j' by (auto simp: job_local_def leaves_def split: job_status.splits)
    moreover have "job_links d' J j'"
      using l j' 1 by (auto simp: job_links_def attempt_is_def leaves_def split: job_status.splits)
    ultimately show ?thesis using True assms(4) j'(1) by (simp add: job_ok_def)
  next
    case False
    with assms(4) j' have x: "job_at d k = Some x" by simp
    have "attempt_is d' y k s n" if "attempt_is d y k s n" for y s n
      using that False 1 by (auto simp: attempt_is_def)
    with db_okD(3) [OF assms(1) x] show ?thesis unfolding job_ok_def job_links_def by blast
  qed
qed

lemma settles_attempt_rows:
  assumes "db_ok d" and s: "settles d d' J A j j' st" and l: "leaves A j j' st" and "attempt_at d' k = Some b"
  shows "attempt_ok d' k b"
proof (cases rule: settles_before [OF assms(1) s])
  case (1 r r')
  have j: "job_at d J = Some j" "j_current_attempt j = Some A" "job_at d' = (job_at d)(J \<mapsto> j')" "st \<noteq> Running"
    using s by (simp_all add: settles_def)
  show ?thesis
  proof (cases "k = A")
    case True
    with assms(4) 1 have "b = r'" by simp
    with True 1 j l db_okD(4) [OF assms(1) 1(7)] show ?thesis
      by (auto simp: attempt_ok_def leaves_def split: job_status.splits)
  next
    case False
    with assms(4) 1 have b: "attempt_at d k = Some b" by simp
    from False have "a_status b \<noteq> Running \<and> a_status b \<noteq> AttemptCompleted" if "a_job b = J"
      using db_okD(4) [OF assms(1) b] that j 1(3) by (auto simp: attempt_ok_def)
    with db_okD(4) [OF assms(1) b] j l show ?thesis
      by (auto simp: attempt_ok_def leaves_def split: job_status.splits)
  qed
qed

lemma settles_ok:
  assumes ok: "db_ok d" and s: "settles d d' J A j j' st" and l: "leaves A j j' st"
    and out: "\<And>x. x \<in> set (job_outputs d') \<Longrightarrow>
      x \<in> set (job_outputs d) \<or> (o_job x = J \<and> o_attempt x = Some A \<and> j_completed_attempt j' = Some A)"
    and okeys: "distinct (map (\<lambda>x. (o_job x, o_type x)) (job_outputs d'))"
  shows "db_ok d'"
proof (cases rule: settles_before [OF ok s])
  case (1 r r')
  have j: "job_at d J = Some j" "job_at d' = (job_at d)(J \<mapsto> j')" using s by (simp_all add: settles_def)
  have "keys_ok d'" using ok s okeys by (simp add: db_ok_def keys_ok_def settles_def)
  moreover have "numbers_unique d'"
    using db_okD(2) [OF ok] 1 unfolding numbers_unique_def by (auto split: if_splits)
  moreover have "output_ok d' y" if "y \<in> set (job_outputs d')" for y
    using out [OF that] db_okD(5) [OF ok, of y] j 1(3) by (auto simp: output_ok_def)
  ultimately show ?thesis
    using settles_job_rows [OF ok s l] settles_attempt_rows [OF ok s l] by (simp add: db_ok_def)
qed

lemma settles_sim:
  assumes ok: "db_ok d" and s: "settles d d' J A j j' st" and l: "leaves A j j' st"
  shows "lc_step (lc_view d) (lc_view d')"
proof -
  let ?x = "ajob_of j"
  from s have j: "job_at d J = Some j" "j_status j = Processing" "j_current_attempt j = Some A"
    and j': "job_at d' = (job_at d)(J \<mapsto> j')" "j_max_retries j' = j_max_retries j" "j_current_attempt j' = None"
    and dom: "dom (attempt_at d') = dom (attempt_at d)"
    unfolding settles_def job_fixed_def by (auto split: if_splits)
  have view: "lc_view d' = set_job J (ajob_of j') (lc_view d)"
    using lc_view_job_upd [OF j'(1) dom] by (simp add: lc_view_def)
  have x: "lc_jobs (lc_view d) J = Some ?x" "phase ?x = Leased A"
    using j by (simp_all add: ajob_of_def phase_of_def)
  show ?thesis
  proof (cases "j_status j'")
    case Queued
    with l j' have "ajob_of j' = ?x\<lparr>phase := Waiting, retries := retries ?x + 1\<rparr>" "retries ?x < budget ?x"
      by (simp_all add: ajob_of_def phase_of_def leaves_def)
    with x view show ?thesis using lc_step.retry [of "lc_view d" J ?x A] by simp
  next
    case Completed
    with l j' have "ajob_of j' = ?x\<lparr>phase := Done A\<rparr>" by (simp add: ajob_of_def phase_of_def leaves_def)
    with x view show ?thesis using lc_step.finish [of "lc_view d" J ?x A] by simp
  next
    case Dead
    with l j' have "ajob_of j' = ?x\<lparr>phase := Dropped\<rparr>" "budget ?x \<le> retries ?x"
      by (simp_all add: ajob_of_def phase_of_def leaves_def)
    with x view show ?thesis using lc_step.drop [of "lc_view d" J ?x A] by simp
  qed (use l in \<open>simp add: leaves_def\<close>)
qed

subsection \<open>Failure and expiry\<close>

lemma stop_attempt:
  assumes "attempt_at d A = Some r" and "a_status r = Running" and "keyed_update a_id (\<lambda>a. a_id a = A \<and> a_status a = Running) f"
  shows "attempt_at (update_attempts (\<lambda>a. a_id a = A \<and> a_status a = Running) f d) = (attempt_at d)(A \<mapsto> f r)"
    and "map a_id (job_attempts (update_attempts (\<lambda>a. a_id a = A \<and> a_status a = Running) f d)) = map a_id (job_attempts d)"
proof -
  from assms(1) have row: "row_at a_id (job_attempts d) A = Some r" by (simp add: attempt_at_def)
  show "attempt_at (update_attempts (\<lambda>a. a_id a = A \<and> a_status a = Running) f d) = (attempt_at d)(A \<mapsto> f r)"
    using keyed_update.lookup_one [OF assms(3) row] assms(2) row_at_key [OF row]
    by (simp add: attempt_at_def update_attempts_def)
  show "map a_id (job_attempts (update_attempts (\<lambda>a. a_id a = A \<and> a_status a = Running) f d)) = map a_id (job_attempts d)"
    using keyed_update.keys [OF assms(3)] by (simp add: update_attempts_def)
qed

lemma move_job:
  assumes "job_at d J = Some j" and "keyed_update j_id (\<lambda>r. j_id r = J) (\<lambda>j. (f j)\<lparr>j_updated_at := t\<rparr>)"
  shows "job_at (update_jobs t (\<lambda>r. j_id r = J) f d) = (job_at d)(J \<mapsto> (f j)\<lparr>j_updated_at := t\<rparr>)"
    and "map j_id (jobs (update_jobs t (\<lambda>r. j_id r = J) f d)) = map j_id (jobs d)"
proof -
  from assms(1) have row: "row_at j_id (jobs d) J = Some j" by (simp add: job_at_def)
  show "job_at (update_jobs t (\<lambda>r. j_id r = J) f d) = (job_at d)(J \<mapsto> (f j)\<lparr>j_updated_at := t\<rparr>)"
    using keyed_update.lookup_one [OF assms(2) row] row_at_key [OF row]
    by (simp add: job_at_def update_jobs_def)
  show "map j_id (jobs (update_jobs t (\<lambda>r. j_id r = J) f d)) = map j_id (jobs d)"
    using keyed_update.keys [OF assms(2)] by (simp add: update_jobs_def)
qed

text \<open>The row a failed or expired attempt leaves behind: dead, or queued with one more retry.\<close>

definition give_up_or_retry :: "time \<Rightarrow> job_row \<Rightarrow> job_row" where
  "give_up_or_retry t j =
     (if j_retry_count j \<ge> j_max_retries j then dead_row j else retry_row t j)\<lparr>j_updated_at := t\<rparr>"

lemma leaves_give_up: "st \<noteq> AttemptCompleted \<Longrightarrow> leaves A j (give_up_or_retry t j) st"
  by (simp add: leaves_def give_up_or_retry_def dead_row_def retry_row_def)

lemma current_running:
  assumes "db_ok d" and "job_at d J = Some j" and "j_current_attempt j = Some A"
  obtains r where "attempt_at d A = Some r" "a_status r = Running" "a_job r = J"
    "a_number r = j_retry_count j + 1" "j_status j = Processing"
  using db_okD(3) [OF assms(1,2)] assms(3) that
  by (auto simp: job_ok_def job_local_def job_links_def attempt_is_def)

lemma abandon_settles:
  assumes ok: "db_ok d" and j: "job_at d J = Some j" "j_current_attempt j = Some A"
    and ku: "keyed_update a_id (\<lambda>a. a_id a = A \<and> a_status a = Running) f"
    and f: "\<And>r. a_job (f r) = a_job r \<and> a_number (f r) = a_number r \<and> a_status (f r) = st" "st \<noteq> Running"
    and d1: "d1 = update_attempts (\<lambda>a. a_id a = A \<and> a_status a = Running) f d"
    and d': "d' = (if j_retry_count j \<ge> j_max_retries j
      then update_jobs t (\<lambda>r. j_id r = J) dead_row d1 else update_jobs t (\<lambda>r. j_id r = J) (retry_row t) d1)"
  shows "settles d d' J A j (give_up_or_retry t j) st" and "job_outputs d' = job_outputs d"
proof -
  obtain r where r: "attempt_at d A = Some r" "a_status r = Running" and p: "j_status j = Processing"
    using current_running [OF ok j] by blast
  note a1 = stop_attempt [OF r ku, folded d1]
  have d1j: "job_at d1 = job_at d" "jobs d1 = jobs d" "workers d1 = workers d" "job_outputs d1 = job_outputs d"
    by (simp_all add: d1 table_simps)
  with j have j1: "job_at d1 J = Some j" by simp
  note dead = move_job [OF j1 dead_upd.keyed_update_axioms] and retry = move_job [OF j1 retry_upd.keyed_update_axioms]
  have "job_at d' = (job_at d)(J \<mapsto> give_up_or_retry t j)" "map j_id (jobs d') = map j_id (jobs d)"
    using dead retry by (simp_all add: d' give_up_or_retry_def d1j)
  moreover have "attempt_at d' = (attempt_at d)(A \<mapsto> f r)" "map a_id (job_attempts d') = map a_id (job_attempts d)"
    "workers d' = workers d"
    using a1 d1j by (simp_all add: d' table_simps)
  ultimately show "settles d d' J A j (give_up_or_retry t j) st"
    unfolding settles_def using j p r f by (auto simp: give_up_or_retry_def dead_row_def retry_row_def job_fixed_def)
  show "job_outputs d' = job_outputs d" using d1j by (simp add: d' table_simps)
qed

text \<open>
  What the failure transaction does: nothing unless the attempt is the current one; otherwise it
  settles the job and says whether to enqueue it.
\<close>

lemma failure_effect:
  assumes ok: "db_ok d" and c: "failure_tx J A cause t d = Inr (q, d')"
  shows "(q = None \<and> d' = d \<and> (\<forall>j. job_at d J = Some j \<longrightarrow> j_current_attempt j \<noteq> Some A)) \<or>
    (\<exists>j. settles d d' J A j (give_up_or_retry t j) Failed \<and> job_outputs d' = job_outputs d \<and>
       q = (if j_retry_count j < j_max_retries j then Some (j_priority j) else None))"
proof (cases "\<exists>j. job_at d J = Some j \<and> j_current_attempt j = Some A")
  case False
  with c show ?thesis by (auto simp: failure_tx_def split: option.splits)
next
  case True
  then obtain j where j: "job_at d J = Some j" "j_current_attempt j = Some A" by blast
  then have "j_status j = Processing" by (rule current_running [OF ok])
  with c j have q: "q = (if j_retry_count j < j_max_retries j then Some (j_priority j) else None)"
    and d': "d' = (if j_retry_count j \<ge> j_max_retries j
      then update_jobs t (\<lambda>r. j_id r = J) dead_row (update_attempts (\<lambda>a. a_id a = A \<and> a_status a = Running) (failed_attempt t cause) d)
      else update_jobs t (\<lambda>r. j_id r = J) (retry_row t) (update_attempts (\<lambda>a. a_id a = A \<and> a_status a = Running) (failed_attempt t cause) d))"
    by (auto simp: failure_tx_def Let_def)
  have "\<And>r. a_job (failed_attempt t cause r) = a_job r \<and> a_number (failed_attempt t cause r) = a_number r \<and>
      a_status (failed_attempt t cause r) = Failed"
    by (simp add: failed_attempt_def)
  from abandon_settles [OF ok j failed_upd.keyed_update_axioms this _ refl d'] q show ?thesis by auto
qed

lemma expire_effect:
  assumes ok: "db_ok d" and c: "expire_tx J B reason t d = Inr (q, d')"
  shows "(q = None \<and> d' = d \<and> (\<forall>j A. job_at d J = Some j \<longrightarrow> j_current_attempt j = Some A \<longrightarrow> B \<noteq> '''' \<and> A \<noteq> B)) \<or>
    (\<exists>j A. settles d d' J A j (give_up_or_retry t j) Expired \<and> job_outputs d' = job_outputs d \<and> (B = '''' \<or> A = B) \<and>
       q = (if j_retry_count j < j_max_retries j then Some (j_priority j) else None))"
proof (cases "\<exists>j A. job_at d J = Some j \<and> j_current_attempt j = Some A \<and> (B = '''' \<or> A = B)")
  case False
  with c show ?thesis by (auto simp: expire_tx_def split: option.splits if_splits)
next
  case True
  then obtain j A where j: "job_at d J = Some j" "j_current_attempt j = Some A" and B: "B = '''' \<or> A = B" by blast
  from j have "j_status j = Processing" by (rule current_running [OF ok])
  with c j B have q: "q = (if j_retry_count j < j_max_retries j then Some (j_priority j) else None)"
    and d': "d' = (if j_retry_count j \<ge> j_max_retries j
      then update_jobs t (\<lambda>r. j_id r = J) dead_row (update_attempts (\<lambda>a. a_id a = A \<and> a_status a = Running) (expired_attempt t reason) d)
      else update_jobs t (\<lambda>r. j_id r = J) (retry_row t) (update_attempts (\<lambda>a. a_id a = A \<and> a_status a = Running) (expired_attempt t reason) d))"
    by (auto simp: expire_tx_def Let_def split: if_splits)
  have "\<And>r. a_job (expired_attempt t reason r) = a_job r \<and> a_number (expired_attempt t reason r) = a_number r \<and>
      a_status (expired_attempt t reason r) = Expired"
    by (simp add: expired_attempt_def)
  from abandon_settles [OF ok j expired_upd.keyed_update_axioms this _ refl d'] q B show ?thesis by auto
qed

lemma settles_abandon_ok:
  assumes "db_ok d" and "settles d d' J A j (give_up_or_retry t j) st" and "job_outputs d' = job_outputs d"
    and "st \<noteq> AttemptCompleted"
  shows "db_ok d'"
  using assms db_okD(1) [OF assms(1)]
  by (intro settles_ok [OF assms(1,2) leaves_give_up]) (simp_all add: keys_ok_def)

lemma failure_ok: "db_ok d \<Longrightarrow> failure_tx J A cause t d = Inr (q, d') \<Longrightarrow> db_ok d'"
  using failure_effect [of d J A cause t q d'] by (auto intro: settles_abandon_ok)

lemma expire_ok: "db_ok d \<Longrightarrow> expire_tx J B reason t d = Inr (q, d') \<Longrightarrow> db_ok d'"
  using expire_effect [of d J B reason t q d'] by (auto intro: settles_abandon_ok)

lemma failure_sim:
  "db_ok d \<Longrightarrow> failure_tx J A cause t d = Inr (q, d') \<Longrightarrow> lc_view d' = lc_view d \<or> lc_step (lc_view d) (lc_view d')"
  using failure_effect [of d J A cause t q d'] by (auto intro: settles_sim leaves_give_up)

lemma expire_sim:
  "db_ok d \<Longrightarrow> expire_tx J B reason t d = Inr (q, d') \<Longrightarrow> lc_view d' = lc_view d \<or> lc_step (lc_view d) (lc_view d')"
  using expire_effect [of d J B reason t q d'] by (auto intro: settles_sim leaves_give_up)

end
