(* ===== verification/Db_Completion.thy ===== *)
theory Db_Completion
  imports Db_Transitions
begin

text \<open>
  The completion transaction: fenced by the current attempt, it writes the job, its outputs and
  its attempt together.
\<close>

subsection \<open>Output rows\<close>

definition output_key :: "output_row \<Rightarrow> uuid \<times> output_type" where
  "output_key x = (o_job x, o_type x)"

lemma upsert_frame:
  assumes "upsert_output row d = Inr d'"
  shows "jobs d' = jobs d" "job_attempts d' = job_attempts d" "workers d' = workers d"
    "job_at d' = job_at d" "attempt_at d' = attempt_at d"
  using assms by (auto simp: upsert_output_def job_at_def attempt_at_def split: if_splits option.splits)

lemma output_key_update:
  "map output_key (update_where p (\<lambda>x. x\<lparr>o_attempt := a, o_cdn_url := u, o_file_size := n\<rparr>) xs) = map output_key xs"
  by (simp add: update_where_def output_key_def)

lemma upsert_outputs:
  assumes "upsert_output row d = Inr d'"
  shows "x \<in> set (job_outputs d') \<Longrightarrow> x \<in> set (job_outputs d) \<or> (o_job x = o_job row \<and> o_attempt x = o_attempt row)"
    and "distinct (map output_key (job_outputs d)) \<Longrightarrow> distinct (map output_key (job_outputs d'))"
    and "output_key ` set (job_outputs d') = insert (output_key row) (output_key ` set (job_outputs d))"
proof -
  let ?p = "\<lambda>x. o_job x = o_job row \<and> o_type x = o_type row"
  let ?f = "\<lambda>x. x\<lparr>o_attempt := o_attempt row, o_cdn_url := o_cdn_url row, o_file_size := o_file_size row\<rparr>"
  consider (upd) "list_ex ?p (job_outputs d)" "job_outputs d' = update_where ?p ?f (job_outputs d)"
    | (ins) "\<not> list_ex ?p (job_outputs d)" "job_outputs d' = job_outputs d @ [row]"
    using assms by (auto simp: upsert_output_def split: if_splits option.splits)
  then have "(x \<in> set (job_outputs d') \<longrightarrow> x \<in> set (job_outputs d) \<or> (o_job x = o_job row \<and> o_attempt x = o_attempt row)) \<and>
    (distinct (map output_key (job_outputs d)) \<longrightarrow> distinct (map output_key (job_outputs d'))) \<and>
    output_key ` set (job_outputs d') = insert (output_key row) (output_key ` set (job_outputs d))"
  proof cases
    case upd
    have keys: "map output_key (job_outputs d') = map output_key (job_outputs d)"
      by (simp add: upd(2) output_key_update)
    have "output_key row \<in> output_key ` set (job_outputs d)"
      using upd(1) by (auto simp: list_ex_iff output_key_def image_iff) metis
    moreover have "output_key ` set (job_outputs d') = output_key ` set (job_outputs d)"
      using arg_cong [OF keys, of set] by simp
    moreover have "x \<in> set (job_outputs d') \<longrightarrow>
        x \<in> set (job_outputs d) \<or> (o_job x = o_job row \<and> o_attempt x = o_attempt row)"
      by (auto simp: upd(2) update_where_def)
    ultimately show ?thesis using keys by (simp add: insert_absorb)
  next
    case ins
    have "output_key row \<notin> output_key ` set (job_outputs d)"
      using ins(1) by (auto simp: list_ex_iff output_key_def)
    then show ?thesis using ins(2) by auto
  qed
  then show "x \<in> set (job_outputs d') \<Longrightarrow> x \<in> set (job_outputs d) \<or> (o_job x = o_job row \<and> o_attempt x = o_attempt row)"
    and "distinct (map output_key (job_outputs d)) \<Longrightarrow> distinct (map output_key (job_outputs d'))"
    and "output_key ` set (job_outputs d') = insert (output_key row) (output_key ` set (job_outputs d))"
    by simp_all
qed

lemma insert_outputs_effect:
  assumes "insert_outputs t J A outs d = Inr d'"
  shows "jobs d' = jobs d \<and> job_attempts d' = job_attempts d \<and> workers d' = workers d \<and>
     (\<forall>x \<in> set (job_outputs d'). x \<in> set (job_outputs d) \<or> (o_job x = J \<and> o_attempt x = Some A)) \<and>
     (distinct (map output_key (job_outputs d)) \<longrightarrow> distinct (map output_key (job_outputs d')))"
  using assms
proof (induction t J A outs d rule: insert_outputs.induct)
  case (2 t J A oid out outs d)
  from "2.prems" obtain ty d1 where ty: "output_type_of (Type out) = Some ty"
    and u: "upsert_output (new_output_row t oid J A ty out) d = Inr d1"
    and rest: "insert_outputs t J A outs d1 = Inr d'"
    by (auto split: option.splits sum.splits)
  have row: "o_job (new_output_row t oid J A ty out) = J" "o_attempt (new_output_row t oid J A ty out) = Some A"
    by (simp_all add: new_output_row_def)
  from "2.IH" [OF ty u rest] upsert_frame [OF u] upsert_outputs(1,2) [OF u, unfolded row]
  show ?case by metis
qed simp

text \<open>
  With one output per type and no earlier rows of the job, the loop appends exactly one row per
  output, in order.
\<close>

fun output_rows :: "time \<Rightarrow> uuid \<Rightarrow> uuid \<Rightarrow> (uuid \<times> media_output) list \<Rightarrow> output_row list" where
  "output_rows t J A [] = []"
| "output_rows t J A ((oid, out) # outs) =
     (case output_type_of (Type out) of None \<Rightarrow> [] | Some ty \<Rightarrow> [new_output_row t oid J A ty out]) @ output_rows t J A outs"

lemma insert_outputs_append:
  assumes "insert_outputs t J A outs d = Inr d'" and "distinct (map (Type \<circ> snd) outs)"
    and "\<And>x. x \<in> set (job_outputs d) \<Longrightarrow> o_job x = J \<Longrightarrow> output_type_text (o_type x) \<notin> set (map (Type \<circ> snd) outs)"
  shows "job_outputs d' = job_outputs d @ output_rows t J A outs"
  using assms
proof (induction t J A outs d rule: insert_outputs.induct)
  case (2 t J A oid out outs d)
  from "2.prems" obtain ty d1 where ty: "output_type_of (Type out) = Some ty"
    and u: "upsert_output (new_output_row t oid J A ty out) d = Inr d1"
    and rest: "insert_outputs t J A outs d1 = Inr d'"
    by (auto split: option.splits sum.splits)
  have "\<not> list_ex (\<lambda>x. o_job x = J \<and> o_type x = ty) (job_outputs d)"
    using "2.prems"(3) output_type_of_Some [OF ty] by (auto simp: list_ex_iff)
  with u have d1: "job_outputs d1 = job_outputs d @ [new_output_row t oid J A ty out]"
    by (auto simp: upsert_output_def new_output_row_def split: if_splits)
  have new: "o_type (new_output_row t oid J A ty out) = ty" "output_type_text ty \<notin> set (map (Type \<circ> snd) outs)"
    using "2.prems"(2) output_type_of_Some [OF ty] by (simp_all add: new_output_row_def)
  have "output_type_text (o_type x) \<notin> set (map (Type \<circ> snd) outs)"
    if "x \<in> set (job_outputs d1)" and "o_job x = J" for x
    using that "2.prems"(3) [of x] new by (cases "x \<in> set (job_outputs d)") (simp_all add: d1)
  with "2.IH" [OF ty u rest] "2.prems"(2) d1 ty show ?case by simp
qed simp

subsection \<open>The transaction\<close>

lemma held_by_rows:
  assumes "db_ok d"
  shows "rows_affected (held_by J A) (jobs d) =
    (case job_at d J of None \<Rightarrow> 0 | Some j \<Rightarrow> if j_status j = Processing \<and> j_current_attempt j = Some A then 1 else 0)"
  using rows_affected_key [of j_id "jobs d" J "\<lambda>j. j_status j = Processing \<and> j_current_attempt j = Some A"]
    db_okD(1) [OF assms]
  by (simp add: held_by_def [abs_def] job_at_def keys_ok_def)

lemma complete_effect:
  assumes ok: "db_ok d" and c: "complete_tx J A outs t d = Inr (x, d')"
  shows "\<exists>j. settles d d' J A j ((complete_row t A j)\<lparr>j_updated_at := t\<rparr>) AttemptCompleted \<and>
    (\<forall>y \<in> set (job_outputs d'). y \<in> set (job_outputs d) \<or> (o_job y = J \<and> o_attempt y = Some A)) \<and>
    distinct (map output_key (job_outputs d')) \<and>
    (\<exists>d2. insert_outputs t J A outs (update_jobs t (held_by J A) (complete_row t A) d) = Inr d2 \<and>
          job_outputs d' = job_outputs d2)"
proof -
  let ?d1 = "update_jobs t (held_by J A) (complete_row t A) d"
  let ?stop = "\<lambda>a. a\<lparr>a_status := AttemptCompleted, a_finished_at := Some t, a_phase := ''completed''\<rparr>"
  from c obtain d2 where one: "rows_affected (held_by J A) (jobs d) = 1"
    and ins: "insert_outputs t J A outs ?d1 = Inr d2"
    and d': "d' = update_attempts (\<lambda>a. a_id a = A \<and> a_status a = Running) ?stop d2"
    by (auto simp: complete_tx_def split: if_splits sum.splits)
  from one obtain j where j: "job_at d J = Some j" "j_status j = Processing" "j_current_attempt j = Some A"
    by (auto simp: held_by_rows [OF ok] split: option.splits if_splits)
  have row: "row_at j_id (jobs d) J = Some j" using j by (simp add: job_at_def)
  have held: "held_by J A j" using j row_at_key [OF row] by (simp add: held_by_def)
  have j1: "job_at ?d1 = (job_at d)(J \<mapsto> (complete_row t A j)\<lparr>j_updated_at := t\<rparr>)"
    unfolding job_at_def update_jobs_def
    using complete_upd.lookup_one [OF row held] by (simp add: held_by_def)
  have keys1: "map j_id (jobs ?d1) = map j_id (jobs d)"
    by (simp add: update_jobs_def complete_upd.keys)
  note eff = insert_outputs_effect [OF ins]
  obtain r where r: "attempt_at d A = Some r" "a_status r = Running"
    using current_running [OF ok j(1,3)] by blast
  have d2: "job_at d2 = job_at ?d1" "jobs d2 = jobs ?d1" "attempt_at d2 = attempt_at d"
    "job_attempts d2 = job_attempts d" "workers d2 = workers d"
    using eff by (simp_all add: job_at_def attempt_at_def table_simps)
  with r have r2: "attempt_at d2 A = Some r" by simp
  note stop = stop_attempt [OF r2 r(2) done_upd.keyed_update_axioms [of A t], folded d']
  have frame: "job_at d' = job_at d2" "jobs d' = jobs d2" "workers d' = workers d2" "job_outputs d' = job_outputs d2"
    by (simp_all add: d' table_simps)
  have "settles d d' J A j ((complete_row t A j)\<lparr>j_updated_at := t\<rparr>) AttemptCompleted"
    unfolding settles_def using j r stop frame d2 j1 keys1
    by (auto simp: complete_row_def job_fixed_def)
  moreover have "\<forall>y \<in> set (job_outputs d'). y \<in> set (job_outputs d) \<or> (o_job y = J \<and> o_attempt y = Some A)"
    using eff frame by (simp add: table_simps)
  moreover have "distinct (map output_key (job_outputs d'))"
    using eff frame db_okD(1) [OF ok] by (simp add: table_simps keys_ok_def output_key_def [abs_def])
  ultimately show ?thesis using ins frame by blast
qed

lemma leaves_complete: "leaves A j ((complete_row t A j)\<lparr>j_updated_at := t\<rparr>) AttemptCompleted"
  by (simp add: leaves_def complete_row_def)

lemma complete_ok:
  assumes ok: "db_ok d" and c: "complete_tx J A outs t d = Inr (x, d')"
  shows "db_ok d'"
proof -
  from complete_effect [OF ok c] obtain j where
    s: "settles d d' J A j ((complete_row t A j)\<lparr>j_updated_at := t\<rparr>) AttemptCompleted"
    and o1: "\<forall>y \<in> set (job_outputs d'). y \<in> set (job_outputs d) \<or> (o_job y = J \<and> o_attempt y = Some A)"
    and o2: "distinct (map output_key (job_outputs d'))" by blast
  show ?thesis
    using o1 o2 by (intro settles_ok [OF ok s leaves_complete]) (auto simp: complete_row_def output_key_def [abs_def])
qed

lemma complete_sim:
  "db_ok d \<Longrightarrow> complete_tx J A outs t d = Inr (x, d') \<Longrightarrow> lc_step (lc_view d) (lc_view d')"
  using complete_effect [of d J A outs t x d'] by (auto intro: settles_sim leaves_complete)

text \<open>A stale attempt is turned away before anything is written.\<close>

lemma complete_stale:
  assumes "db_ok d" and "\<And>j. job_at d J = Some j \<Longrightarrow> j_current_attempt j \<noteq> Some A"
  shows "complete_tx J A outs t d = Inl ErrStaleAttempt"
  using assms by (auto simp: complete_tx_def held_by_rows split: option.splits)

end
