(* ===== verification/System.thy ===== *)
theory System
  imports Db_Completion
begin

text \<open>
  The processes together. Any number of API servers, workers and reapers act on the shared
  world in any order: a step is one statement or transaction, one queue script, or a change of
  what the invariant does not depend on (the clock, the object store, the leadership lock, the
  pending answers). The steps carry arbitrary identifiers, so a worker that lost its lease may
  try to renew, complete or fail at any time.
\<close>

datatype action =
    Create api_config uuid string int
  | Register uuid
  | Heartbeat uuid
  | SetBusy uuid uuid
  | SetIdle uuid
  | Claim worker_config uuid uuid uuid
  | Renew worker_config uuid
  | SetPhase uuid string
  | Duration uuid string duration
  | Complete uuid uuid "(uuid \<times> media_output) list"
  | Fail uuid uuid string
  | Expire uuid uuid string
  | Bury uuid

definition effect :: "('a \<times> database) result \<Rightarrow> database result" where
  "effect r = (case r of Inl e \<Rightarrow> Inl e | Inr (_, d) \<Rightarrow> Inr d)"

fun act :: "action \<Rightarrow> time \<Rightarrow> database \<Rightarrow> database result" where
  "act (Create cfg J file p) t d = effect (create_job_tx cfg J file p t d)"
| "act (Register W) t d = effect (register W t d)"
| "act (Heartbeat W) t d = effect (heartbeat W t d)"
| "act (SetBusy W J) t d = effect (setWorkerBusy W J t d)"
| "act (SetIdle W) t d = effect (setWorkerIdle W t d)"
| "act (Claim cfg W A J) t d = effect (claim_tx cfg W A J t d)"
| "act (Renew cfg A) t d = effect (renew_stmt cfg A t d)"
| "act (SetPhase A ph) t d = effect (phase_stmt A ph t d)"
| "act (Duration A field dur) t d = effect (duration_stmt A field dur t d)"
| "act (Complete J A outs) t d = effect (complete_tx J A outs t d)"
| "act (Fail J A cause) t d = effect (failure_tx J A cause t d)"
| "act (Expire J A reason) t d = effect (expire_tx J A reason t d)"
| "act (Bury W) t d = effect (bury_stmt W t d)"

text \<open>
  What the callers guarantee: identifiers from \<open>uuid.NewString\<close> are not empty, and the upload
  handler has validated the priority.
\<close>

fun permitted :: "action \<Rightarrow> bool" where
  "permitted (Create cfg J file p) = (J \<noteq> '''' \<and> valid_priority p)"
| "permitted (Claim cfg W A J) = (A \<noteq> '''')"
| "permitted _ = True"

inductive step :: "world \<Rightarrow> world \<Rightarrow> bool" where
  environment: "db w' = db w \<Longrightarrow> rds w' = rds w \<Longrightarrow> clock w \<le> clock w' \<Longrightarrow> step w w'"
| database: "permitted a \<Longrightarrow> act a (clock w) (db w) = Inr d \<Longrightarrow> step w (w\<lparr>db := d\<rparr>)"
| enqueue: "job_at (db w) J = Some j \<Longrightarrow>
    step w (w\<lparr>rds := snd (run_enqueue J (j_priority j) (rds w))\<rparr>)"
| pop: "step w (w\<lparr>rds := snd (run_pop (rds w))\<rparr>)"
| lock: "step w (w\<lparr>rds := (rds w)\<lparr>r_strs := m\<rparr>\<rparr>)"

abbreviation steps :: "world \<Rightarrow> world \<Rightarrow> bool" where
  "steps \<equiv> step\<^sup>*\<^sup>*"

definition initial :: "world \<Rightarrow> bool" where
  "initial w \<longleftrightarrow> db w = empty_db \<and> rds w = empty_redis"

definition reachable :: "world \<Rightarrow> bool" where
  "reachable w \<longleftrightarrow> (\<exists>w0. initial w0 \<and> steps w0 w)"

subsection \<open>The invariant\<close>

definition queue_known :: "world \<Rightarrow> bool" where
  "queue_known w \<longleftrightarrow>
     (\<forall>(p, J) \<in> set (contents (rds w)). \<exists>j. job_at (db w) J = Some j \<and> j_priority j = p)"

definition world_ok :: "world \<Rightarrow> bool" where
  "world_ok w \<longleftrightarrow> db_ok (db w) \<and> queue_ok (rds w) \<and> queue_known w"

lemma effect_Inr: "effect r = Inr d \<longleftrightarrow> (\<exists>x. r = Inr (x, d))"
  by (auto simp: effect_def split: sum.splits)

lemma act_ok: "act a t d = Inr d' \<Longrightarrow> permitted a \<Longrightarrow> db_ok d \<Longrightarrow> db_ok d'"
  by (cases a) (auto simp: effect_Inr intro: create_ok register_ok heartbeat_ok busy_ok idle_ok claim_ok
      renew_ok phase_ok duration_ok complete_ok failure_ok expire_ok bury_ok)

lemma lc_view_attempt_columns:
  "map a_id xs = map a_id (job_attempts d) \<Longrightarrow> lc_view (d\<lparr>job_attempts := xs\<rparr>) = lc_view d"
proof (rule lc_view_cong)
  assume "map a_id xs = map a_id (job_attempts d)"
  from arg_cong [OF this, of set] have "a_id ` set xs = a_id ` set (job_attempts d)" by simp
  then show "dom (attempt_at (d\<lparr>job_attempts := xs\<rparr>)) = dom (attempt_at d)"
    by (auto simp: attempt_at_def dom_def row_at_None_iff simp flip: not_None_eq)
qed (simp add: job_at_def)

lemma lc_view_workers: "lc_view (d\<lparr>workers := ws\<rparr>) = lc_view d"
  by (rule lc_view_cong) (simp_all add: job_at_def attempt_at_def)

lemma act_sim:
  assumes "act a t d = Inr d'" and "db_ok d"
  shows "lc_view d' = lc_view d \<or> lc_step (lc_view d) (lc_view d')"
  using assms
  by (cases a)
     (auto simp: effect_Inr register_def heartbeat_def setWorkerBusy_def setWorkerIdle_def bury_stmt_def
        renew_stmt_def phase_stmt_def duration_stmt_def update_workers_def update_attempts_def
        lc_view_workers lc_view_attempt_columns attempt_keys split: if_splits
        dest: create_sim claim_sim complete_sim failure_sim expire_sim)

lemma settles_kept:
  assumes "settles d d' J A j j' st" and "job_at d k = Some x"
  shows "\<exists>y. job_at d' k = Some y \<and> job_fixed y = job_fixed x"
  using assms unfolding settles_def by (cases "k = J") auto

lemma act_kept:
  assumes a: "act a t d = Inr d'" and ok: "db_ok d" and j: "job_at d k = Some j"
  shows "\<exists>j'. job_at d' k = Some j' \<and> job_fixed j' = job_fixed j"
proof (cases a)
  case (Create cfg J fl p)
  with a obtain x where "create_job_tx cfg J fl p t d = Inr (x, d')" by (auto simp: effect_Inr)
  from create_effect(1,3) [OF this] j show ?thesis by (cases "k = J") simp_all
next
  case (Claim cfg W A J)
  with a obtain x where "claim_tx cfg W A J t d = Inr (x, d')" by (auto simp: effect_Inr)
  from claim_effect [OF ok this] j show ?thesis by (auto simp: claim_row_def job_fixed_def)
next
  case (Complete J A outs)
  with a obtain x where "complete_tx J A outs t d = Inr (x, d')" by (auto simp: effect_Inr)
  from complete_effect [OF ok this] j show ?thesis by (auto dest: settles_kept)
next
  case (Fail J A cause)
  with a obtain x where "failure_tx J A cause t d = Inr (x, d')" by (auto simp: effect_Inr)
  from failure_effect [OF ok this] j show ?thesis by (auto dest: settles_kept)
next
  case (Expire J A reason)
  with a obtain x where "expire_tx J A reason t d = Inr (x, d')" by (auto simp: effect_Inr)
  from expire_effect [OF ok this] j show ?thesis by (auto dest: settles_kept)
qed (use a j in \<open>auto simp: effect_Inr register_def heartbeat_def setWorkerBusy_def setWorkerIdle_def bury_stmt_def
        renew_stmt_def phase_stmt_def duration_stmt_def update_workers_def update_attempts_def job_at_def
        split: if_splits\<close>)

lemma step_kept:
  assumes "step w w'" and "db_ok (db w)" and "job_at (db w) k = Some j"
  shows "\<exists>j'. job_at (db w') k = Some j' \<and> job_fixed j' = job_fixed j"
  using assms by (induction rule: step.induct) (auto dest: act_kept)

lemma step_ok: "step w w' \<Longrightarrow> world_ok w \<Longrightarrow> world_ok w'"
proof (induction rule: step.induct)
  case (environment w' w)
  then show ?case by (simp add: world_ok_def queue_known_def)
next
  case (database a w d)
  from database.prems have ok: "db_ok (db w)" by (simp add: world_ok_def)
  have "\<exists>j'. job_at d J = Some j' \<and> j_priority j' = p"
    if "(p, J) \<in> set (contents (rds w))" for p J
  proof -
    from that database.prems obtain j where "job_at (db w) J = Some j" "j_priority j = p"
      by (auto simp: world_ok_def queue_known_def)
    with act_kept [OF database.hyps(2) ok] show ?thesis by (fastforce simp: job_fixed_def)
  qed
  with act_ok [OF database.hyps(2,1) ok] database.prems show ?case
    by (auto simp: world_ok_def queue_known_def)
next
  case (enqueue w J j)
  then have "job_local J j" using db_okD(3) [of "db w" J j] by (simp add: world_ok_def job_ok_def)
  then have J: "J \<noteq> ''''" and p: "valid_priority (j_priority j)" by (simp_all add: job_local_def)
  from enqueue have q: "queue_ok (rds w)" by (simp add: world_ok_def)
  from rq.enq_invar [OF q p J] rq.enq_items [OF q p J] enqueue show ?case
    by (auto simp: world_ok_def queue_known_def split: if_splits)
next
  case (pop w)
  with rq.deq_invar [of "rds w"] run_pop_subset [of "rds w"] show ?case
    by (auto simp: world_ok_def queue_known_def)
next
  case (lock w m)
  then show ?case by (simp add: world_ok_def queue_known_def redis_simps)
qed

lemma step_sim:
  assumes "step w w'" and "world_ok w"
  shows "lc_view (db w') = lc_view (db w) \<or> lc_step (lc_view (db w)) (lc_view (db w'))"
  using assms by (induction rule: step.induct) (auto simp: world_ok_def dest: act_sim)

subsection \<open>Runs\<close>

interpretation sys: simulation step world_ok "\<lambda>w. lc_view (db w)" lc_step
  by unfold_locales (auto intro: step_ok dest: step_sim)

lemma initial_ok: "initial w \<Longrightarrow> world_ok w"
  by (simp add: initial_def world_ok_def db_ok_empty queue_ok_empty queue_known_def)
     (simp add: contents_def tier_def [abs_def] empty_redis_def flat_empty)

lemma reachable_ok: "reachable w \<Longrightarrow> world_ok w"
  by (auto simp: reachable_def intro: sys.inv_run initial_ok)

lemma reachable_steps: "reachable w \<Longrightarrow> steps w w' \<Longrightarrow> reachable w'"
  by (auto simp: reachable_def)

lemma steps_kept:
  assumes "steps w w'" and "world_ok w" and "job_at (db w) k = Some j"
  shows "\<exists>j'. job_at (db w') k = Some j' \<and> job_fixed j' = job_fixed j"
proof (rule sys.kept_run [OF assms(1,2)])
  show "\<exists>j'. job_at (db w) k = Some j' \<and> job_fixed j' = job_fixed j" using assms(3) by blast
  show "\<exists>j'. job_at (db v) k = Some j' \<and> job_fixed j' = job_fixed j"
    if "step u v" "world_ok u" "\<exists>j'. job_at (db u) k = Some j' \<and> job_fixed j' = job_fixed j" for u v
    using that step_kept [OF that(1)] by (fastforce simp: world_ok_def)
qed

lemma lc_ok_view: "db_ok d \<Longrightarrow> lc_ok (lc_view d)"
  unfolding lc_ok_def
  by (auto simp: ajob_of_def domIff dest!: db_okD(3))
     (auto simp: job_ok_def job_local_def job_links_def attempt_is_def phase_of_def
       split: job_status.splits option.splits)

end
