(* ===== verification/Handlers.thy ===== *)
theory Handlers
  imports System
begin

text \<open>
  Every operation of the services is a run of the step relation, whatever the answers to its
  calls are: each call fails before its effect, takes effect, or takes effect and loses its
  answer. The invariant of the world therefore holds at every moment of every handler, and the
  results on runs apply to any interleaving of handlers and of handlers that stop half way.
\<close>

subsection \<open>Calls as steps\<close>

lemma environment_steps: "db w' = db w \<Longrightarrow> rds w' = rds w \<Longrightarrow> clock w \<le> clock w' \<Longrightarrow> steps w w'"
  by (blast intro: step.environment)

lemma next_reply_steps: "steps w (snd (next_reply w))"
  by (simp add: environment_steps)

lemma pg_steps:
  assumes "\<And>t d x d'. stmt t d = Inr (x, d') \<Longrightarrow> \<exists>a. permitted a \<and> act a t d = Inr d'"
  shows "steps w (snd (pg stmt w))"
proof -
  obtain r u where u: "next_reply w = (r, u)" by fastforce
  with next_reply_steps [of w] have wu: "steps w u" by simp
  have "step u (u\<lparr>db := d\<rparr>)" if "stmt (clock u) (db u) = Inr (x, d)" for x d
    using assms [OF that] by (auto intro: step.database)
  with wu show ?thesis
    by (cases r) (auto simp: pg_def u split: sum.splits intro: rtranclp.rtrancl_into_rtrancl)
qed

lemma pg_Inr: "pg stmt w = (Inr x, w') \<Longrightarrow> \<exists>t. stmt t (db w) = Inr (x, db w')"
  by (auto simp: pg_def next_reply_def split: list.splits prod.splits reply.splits sum.splits)

lemma query_steps: "steps w (snd (query q w))"
  using query_db [of q w] by (cases "query q w") (auto intro: environment_steps)

lemma rd_steps:
  assumes "\<And>t u. db u = db w \<Longrightarrow> step u (u\<lparr>rds := snd (cmd t (rds u))\<rparr>)"
  shows "steps w (snd (rd cmd w))"
proof -
  obtain r u where u: "next_reply w = (r, u)" by fastforce
  with next_reply_steps [of w] have wu: "steps w u" by simp
  have "db u = db w" using u next_reply_frame(1) [of w] by simp
  note assms [OF this, of "clock u"]
  with wu show ?thesis
    by (cases r) (auto simp: rd_def u split: prod.splits intro: rtranclp.rtrancl_into_rtrancl)
qed

lemma Enqueue_steps:
  assumes "job_at (db w) J = Some j" and "p = j_priority j"
  shows "steps w (snd (Enqueue J p w))"
proof -
  have "steps w (snd (rd (\<lambda>_ r. run_enqueue J p r) w))"
    by (rule rd_steps) (use assms step.enqueue in auto)
  then show ?thesis
    unfolding Enqueue_def
    by (auto split: sum.splits simp: fail_with_def ok_def intro: sys.runs.step_and_then)
qed

lemma Pop_steps: "steps w (snd (Pop w))"
  unfolding Pop_def
  by (rule sys.runs.step_and_then [OF rd_steps [OF step.pop]]) (simp add: fail_with_def ok_def)

subsection \<open>The API server\<close>

lemma create_runs:
  assumes "J \<noteq> ''''" and "valid_priority p"
  shows "runs_in steps (createQueuedJob cfg J fl p)"
  unfolding createQueuedJob_def
proof (rule sys.runs.run_and_then_dep)
  show "runs_in steps (pg (create_job_tx cfg J fl p))"
    using assms by (intro runs_inI pg_steps exI [of _ "Create cfg J fl p"]) (simp add: effect_Inr)
next
  fix x w w'
  assume "pg (create_job_tx cfg J fl p) w = (Inr x, w')"
  then obtain t where "create_job_tx cfg J fl p t (db w) = Inr (x, db w')" by (blast dest: pg_Inr)
  then have "job_at (db w') J = Some (new_job_row t J (WorkerMaxRetries cfg) p fl)"
    by (simp add: create_effect(3))
  then show "steps w' (snd (log_err (Enqueue J p) w'))"
    unfolding log_err_def by (simp add: Enqueue_steps new_job_row_def)
qed

subsection \<open>The worker\<close>

lemma fetchJob_steps: "steps w (snd (fetchJob J w))"
  unfolding fetchJob_def by (rule query_steps)

lemma fetchJob_Inr:
  assumes "fetchJob J w = (Inr job, w')"
  shows "\<exists>j. job_at (db w') J = Some j \<and> job = job_info_of j"
  using assms query_db [OF assms [unfolded fetchJob_def]]
  by (auto simp: fetchJob_def query_def pg_def next_reply_def
      split: list.splits prod.splits reply.splits sum.splits option.splits)

lemma poll_runs: "runs_in steps poll"
  unfolding poll_def
proof (rule sys.runs.run_and_then_dep)
  show "runs_in steps Pop" by (simp add: runs_in_def Pop_steps)
next
  fix x w'
  show "steps w' (snd ((case fetchJob x w' of (Inl e, v) \<Rightarrow> if errors_is e ErrNoRows then (Inr None, v) else (Inl e, v)
      | (Inr job, v) \<Rightarrow> (Inr (Some \<lparr>JobID = ID job, MsgInputFile = InputFile job, MsgPriority = Priority job, EnqueuedAt = zero_time\<rparr>), v))))"
    using fetchJob_steps [of w' x] by (auto split: prod.splits sum.splits)
qed

lemma markProcessing_runs: "A \<noteq> '''' \<Longrightarrow> runs_in steps (markProcessing cfg wid A J)"
  unfolding markProcessing_def
  by (intro runs_inI pg_steps exI [of _ "Claim cfg wid A J"]) (simp add: effect_Inr)

lemma completeJob_runs: "runs_in steps (completeJob J A outs)"
  unfolding completeJob_def
  by (intro runs_inI pg_steps exI [of _ "Complete J A outs"]) (simp add: effect_Inr)

lemma renewAttemptLease_runs: "runs_in steps (renewAttemptLease cfg A)"
  unfolding renewAttemptLease_def
  by (intro runs_inI pg_steps exI [of _ "Renew cfg A"]) (simp add: effect_Inr)

lemma setAttemptPhase_runs: "runs_in steps (setAttemptPhase A ph)"
  unfolding setAttemptPhase_def
  by (intro runs_inI pg_steps exI [of _ "SetPhase A ph"]) (simp add: effect_Inr)

lemma recordAttemptDuration_runs: "runs_in steps (recordAttemptDuration A field dur)"
proof (rule runs_inI)
  fix w
  have "steps w (snd (pg (duration_stmt A field dur) w))"
    by (intro pg_steps exI [of _ "Duration A field dur"]) (simp add: effect_Inr)
  then show "steps w (snd (recordAttemptDuration A field dur w))"
    by (simp add: recordAttemptDuration_def fail_with_def)
qed

text \<open>The failure and the expiry transaction return a priority only for a job they left behind.\<close>

lemma retried_row:
  "job_at d J = Some j \<Longrightarrow>
   job_at (update_jobs t (\<lambda>r. j_id r = J) (retry_row t) (update_attempts p f d)) J = Some ((retry_row t j)\<lparr>j_updated_at := t\<rparr>)"
  by (subst move_job(1) [OF _ retry_upd.keyed_update_axioms]) (simp_all add: table_simps)

lemma failure_requeues:
  "failure_tx J A cause t d = Inr (Some p, d') \<Longrightarrow> \<exists>j. job_at d' J = Some j \<and> j_priority j = p"
  by (auto simp: failure_tx_def Let_def retried_row retry_row_def split: option.splits if_splits)

lemma expire_requeues:
  "expire_tx J B reason t d = Inr (Some p, d') \<Longrightarrow> \<exists>j. job_at d' J = Some j \<and> j_priority j = p"
  by (auto simp: expire_tx_def Let_def retried_row retry_row_def split: option.splits if_splits)

lemma handleFailure_runs: "runs_in steps (handleFailure text_of J A cause)"
  unfolding handleFailure_def
proof (intro runs_in_log sys.runs.run_and_then_dep)
  show "runs_in steps (pg (failure_tx J A (text_of cause)))"
    by (intro runs_inI pg_steps exI [of _ "Fail J A (text_of cause)"]) (simp add: effect_Inr)
next
  fix q w w'
  assume "pg (failure_tx J A (text_of cause)) w = (Inr q, w')"
  then show "steps w' (snd ((case q of None \<Rightarrow> ok () | Some p \<Rightarrow> Enqueue J p) w'))"
    by (cases q) (auto simp: ok_def dest!: pg_Inr failure_requeues intro: Enqueue_steps)
qed

subsection \<open>The reaper\<close>

lemma requeueJob_runs: "runs_in steps (requeueJob J B reason)"
  unfolding requeueJob_def
proof (rule sys.runs.run_and_then_dep)
  show "runs_in steps (pg (expire_tx J B reason))"
    by (intro runs_inI pg_steps exI [of _ "Expire J B reason"]) (simp add: effect_Inr)
next
  fix q w w'
  assume "pg (expire_tx J B reason) w = (Inr q, w')"
  then show "steps w' (snd ((case q of None \<Rightarrow> ok () | Some p \<Rightarrow> Enqueue J p) w'))"
    by (cases q) (auto simp: ok_def dest!: pg_Inr expire_requeues intro: Enqueue_steps)
qed

lemma recover_worker_runs: "runs_in steps (recover_worker x)"
  unfolding recover_worker_def
proof (rule sys.runs.run_and_then)
  show "runs_in steps (pg (bury_stmt (DeadID x)))"
    by (intro runs_inI pg_steps exI [of _ "Bury (DeadID x)"]) (simp add: effect_Inr)
  show "runs_in steps (case CurrentJob x of None \<Rightarrow> ok () | Some job \<Rightarrow> requeueJob job '''' ''worker_death'')" for y :: unit
    by (auto split: option.splits intro: requeueJob_runs sys.runs.run_ok)
qed

lemma query_runs: "runs_in steps (query q)"
  by (simp add: runs_in_def query_steps)

lemma recoverDeadWorkers_runs: "runs_in steps (recoverDeadWorkers cfg)"
  unfolding recoverDeadWorkers_def
  by (intro sys.runs.run_and_then sys.runs.run_for_each recover_worker_runs query_runs)

lemma recover_attempt_runs: "runs_in steps (recover_attempt x)"
  by (cases x) (simp add: recover_attempt_def requeueJob_runs)

lemma recoverOrphanedJobs_runs: "runs_in steps (recoverOrphanedJobs cfg)"
  unfolding recoverOrphanedJobs_def
  by (intro sys.runs.run_and_then sys.runs.run_for_each recover_attempt_runs query_runs)

lemma queueContainsJob_runs: "runs_in steps (queueContainsJob J)"
  unfolding queueContainsJob_def
  by (intro runs_inI rd_steps step.environment) simp_all

lemma enqueueJob_runs: "runs_in steps (enqueueJob J)"
proof (rule runs_inI)
  fix w
  obtain r u where f: "fetchJob J w = (r, u)" by fastforce
  with fetchJob_steps [of w J] have wu: "steps w u" by simp
  show "steps w (snd (enqueueJob J w))"
  proof (cases r)
    case (Inl e)
    with f wu show ?thesis by (simp add: enqueueJob_def)
  next
    case (Inr job)
    with f fetchJob_Inr [of J w job u] obtain j where j: "job_at (db u) J = Some j" "job = job_info_of j" by blast
    have "steps u (snd (Enqueue J (j_priority j) u))" using Enqueue_steps [OF j(1) refl] .
    with f wu Inr j job_at_key [OF j(1)] show ?thesis
      by (simp add: enqueueJob_def job_info_of_def)
  qed
qed

lemma recover_missing_runs: "runs_in steps (recover_missing J)"
  unfolding recover_missing_def
  by (intro sys.runs.run_and_then queueContainsJob_runs)
     (auto intro: enqueueJob_runs sys.runs.run_ok)

lemma recoverMissing_runs: "runs_in steps (recoverMissingQueueMessages cfg)"
  unfolding recoverMissingQueueMessages_def
  by (intro sys.runs.run_and_then sys.runs.run_for_each recover_missing_runs query_runs)

lemma Sweep_runs: "runs_in steps (Sweep cfg)"
  unfolding Sweep_def
  by (intro sys.runs.run_and_then runs_in_wrap sys.runs.run_ok recoverDeadWorkers_runs recoverOrphanedJobs_runs
      recoverMissing_runs)

lemma runs_keep: "runs_in steps m \<Longrightarrow> world_ok w \<Longrightarrow> world_ok (snd (m w))"
  by (auto simp: runs_in_def intro: sys.inv_run)

end
