(* ===== verification/Run_Lemmas.thy ===== *)
theory Run_Lemmas
  imports Handlers
begin

text \<open>
  What no run of the system can undo: a terminal job keeps its row and its outputs, an attempt
  keeps its job and number and, once it has stopped, its status; attempts are counted by the
  retry budget.
\<close>

subsection \<open>Terminal jobs are frozen\<close>

definition outputs_of :: "uuid \<Rightarrow> database \<Rightarrow> output_row list" where
  "outputs_of J d = filter (\<lambda>x. o_job x = J) (job_outputs d)"

lemma upsert_other:
  assumes "upsert_output row d = Inr d'" and "o_job row \<noteq> J"
  shows "outputs_of J d' = outputs_of J d"
proof -
  let ?p = "\<lambda>x. o_job x = o_job row \<and> o_type x = o_type row"
  let ?f = "\<lambda>x. x\<lparr>o_attempt := o_attempt row, o_cdn_url := o_cdn_url row, o_file_size := o_file_size row\<rparr>"
  have "filter (\<lambda>x. o_job x = J) (update_where ?p ?f xs) = filter (\<lambda>x. o_job x = J) xs" for xs
    using assms(2) by (induction xs) (auto simp: update_where_def)
  moreover have "job_outputs d' = update_where ?p ?f (job_outputs d) \<or> job_outputs d' = job_outputs d @ [row]"
    using assms(1) by (auto simp: upsert_output_def split: if_splits option.splits)
  ultimately show ?thesis using assms(2) by (auto simp: outputs_of_def)
qed

lemma insert_outputs_other:
  "insert_outputs t J' A outs d = Inr d' \<Longrightarrow> J' \<noteq> J \<Longrightarrow> outputs_of J d' = outputs_of J d"
proof (induction t J' A outs d rule: insert_outputs.induct)
  case (2 t J' A oid out outs d)
  from "2.prems" obtain ty d1 where ty: "output_type_of (Type out) = Some ty"
    and u: "upsert_output (new_output_row t oid J' A ty out) d = Inr d1"
    and rest: "insert_outputs t J' A outs d1 = Inr d'"
    by (auto split: option.splits sum.splits)
  from "2.IH" [OF ty u rest "2.prems"(2)] upsert_other [OF u] "2.prems"(2) show ?case
    by (simp add: new_output_row_def)
qed simp

lemma settles_other:
  "settles d d' J' A j j' st \<Longrightarrow> job_at d J = Some x \<Longrightarrow> j_status x \<noteq> Processing \<Longrightarrow> J' \<noteq> J \<and> job_at d' J = Some x"
  by (auto simp: settles_def)

lemma act_frozen:
  assumes a: "act a t d = Inr d'" and ok: "db_ok d" and j: "job_at d J = Some j"
    and st: "j_status j = Completed \<or> j_status j = Dead"
  shows "job_at d' J = Some j \<and> outputs_of J d' = outputs_of J d"
proof (cases a)
  case (Create cfg J' fl p)
  with a obtain x where "create_job_tx cfg J' fl p t d = Inr (x, d')" by (auto simp: effect_Inr)
  from create_effect(1,2,3) [OF this] j show ?thesis by (auto simp: outputs_of_def)
next
  case (Claim cfg W A J')
  with a obtain x where "claim_tx cfg W A J' t d = Inr (x, d')" by (auto simp: effect_Inr)
  from claim_effect [OF ok this] j st show ?thesis by (auto simp: outputs_of_def)
next
  case (Complete J' A outs)
  with a obtain x where "complete_tx J' A outs t d = Inr (x, d')" by (auto simp: effect_Inr)
  from complete_effect [OF ok this] obtain j0 d2 where
    s: "settles d d' J' A j0 ((complete_row t A j0)\<lparr>j_updated_at := t\<rparr>) AttemptCompleted"
    and ins: "insert_outputs t J' A outs (update_jobs t (held_by J' A) (complete_row t A) d) = Inr d2"
    and o2: "job_outputs d' = job_outputs d2" by blast
  from settles_other [OF s j] st have "J' \<noteq> J \<and> job_at d' J = Some j" by auto
  with insert_outputs_other [OF ins] o2 show ?thesis by (simp add: outputs_of_def at_update_jobs)
next
  case (Fail J' A cause)
  with a obtain x where "failure_tx J' A cause t d = Inr (x, d')" by (auto simp: effect_Inr)
  from failure_effect [OF ok this] j st show ?thesis by (auto simp: outputs_of_def dest: settles_other)
next
  case (Expire J' A reason)
  with a obtain x where "expire_tx J' A reason t d = Inr (x, d')" by (auto simp: effect_Inr)
  from expire_effect [OF ok this] j st show ?thesis by (auto simp: outputs_of_def dest: settles_other)
qed (use a j in \<open>auto simp: effect_Inr register_def heartbeat_def setWorkerBusy_def setWorkerIdle_def bury_stmt_def
        renew_stmt_def phase_stmt_def duration_stmt_def table_simps outputs_of_def job_at_def update_workers_def
        update_attempts_def split: if_splits\<close>)

lemma step_frozen:
  assumes "step w w'" and "world_ok w" and "job_at (db w) J = Some j"
    and "j_status j = Completed \<or> j_status j = Dead"
  shows "job_at (db w') J = Some j \<and> outputs_of J (db w') = outputs_of J (db w)"
  using assms
proof (induction rule: step.induct)
  case (database a w d)
  with act_frozen [OF database.hyps(2)] show ?case by (simp add: world_ok_def)
qed auto

lemma steps_frozen:
  assumes "steps w w'" and "world_ok w" and "job_at (db w) J = Some j"
    and "j_status j = Completed \<or> j_status j = Dead"
  shows "job_at (db w') J = Some j \<and> outputs_of J (db w') = outputs_of J (db w)"
  by (rule sys.kept_run [OF assms(1,2)]) (use assms(3,4) step_frozen [of _ _ J j] in auto)

subsection \<open>Attempts are never revived\<close>

definition attempt_follows :: "attempt_row \<Rightarrow> attempt_row \<Rightarrow> bool" where
  "attempt_follows r r' \<longleftrightarrow>
     a_job r' = a_job r \<and> a_number r' = a_number r \<and> (a_status r = Running \<or> a_status r' = a_status r)"

lemma attempt_follows_refl [simp]: "attempt_follows r r"
  by (simp add: attempt_follows_def)

lemma attempt_follows_trans: "attempt_follows r s \<Longrightarrow> attempt_follows s t \<Longrightarrow> attempt_follows r t"
  by (auto simp: attempt_follows_def)

lemma settles_attempts:
  assumes ok: "db_ok d" and s: "settles d d' J' B j j' st" and r: "attempt_at d A = Some r"
  shows "\<exists>r'. attempt_at d' A = Some r' \<and> attempt_follows r r'"
proof (cases "A = B")
  case True
  from s have "job_at d J' = Some j" "j_current_attempt j = Some B" by (simp_all add: settles_def)
  from current_running [OF ok this] True r have "a_status r = Running" by auto
  with True s r show ?thesis by (auto simp: settles_def attempt_follows_def)
next
  case False
  with s r show ?thesis by (auto simp: settles_def)
qed

lemma act_attempts:
  assumes a: "act a t d = Inr d'" and ok: "db_ok d" and r: "attempt_at d A = Some r"
  shows "\<exists>r'. attempt_at d' A = Some r' \<and> attempt_follows r r'"
proof (cases a)
  case (Create cfg J' fl p)
  with a obtain x where "create_job_tx cfg J' fl p t d = Inr (x, d')" by (auto simp: effect_Inr)
  from create_effect(2) [OF this] r show ?thesis by (simp add: attempt_at_def)
next
  case (Claim cfg W B J')
  with a obtain x where "claim_tx cfg W B J' t d = Inr (x, d')" by (auto simp: effect_Inr)
  from claim_effect [OF ok this] r show ?thesis by auto
next
  case (Complete J' B outs)
  with a obtain x where "complete_tx J' B outs t d = Inr (x, d')" by (auto simp: effect_Inr)
  from complete_effect [OF ok this] r show ?thesis by (auto dest: settles_attempts [OF ok])
next
  case (Fail J' B cause)
  with a obtain x where "failure_tx J' B cause t d = Inr (x, d')" by (auto simp: effect_Inr)
  from failure_effect [OF ok this] r show ?thesis by (auto dest: settles_attempts [OF ok])
next
  case (Expire J' B reason)
  with a obtain x where "expire_tx J' B reason t d = Inr (x, d')" by (auto simp: effect_Inr)
  from expire_effect [OF ok this] r show ?thesis by (auto dest: settles_attempts [OF ok])
qed (use a r in \<open>auto simp: effect_Inr register_def heartbeat_def setWorkerBusy_def setWorkerIdle_def bury_stmt_def
        renew_stmt_def phase_stmt_def duration_stmt_def at_update_workers update_workers_def update_attempts_def
        attempt_at_def renew_upd.lookup phase_upd.lookup duration_upd.lookup set_row_def attempt_follows_def
        split: if_splits\<close>)

lemma step_attempts:
  assumes "step w w'" and "world_ok w" and "attempt_at (db w) A = Some r"
  shows "\<exists>r'. attempt_at (db w') A = Some r' \<and> attempt_follows r r'"
  using assms by (induction rule: step.induct) (auto simp: world_ok_def dest: act_attempts)

lemma steps_attempts:
  assumes "steps w w'" and "world_ok w" and "attempt_at (db w) A = Some r"
  shows "\<exists>r'. attempt_at (db w') A = Some r' \<and> attempt_follows r r'"
  by (rule sys.kept_run [OF assms(1,2)]) (use assms(3) in \<open>auto dest: step_attempts intro: attempt_follows_trans\<close>)

text \<open>A stopped attempt cannot renew, complete, fail or be expired: the statements change nothing.\<close>

lemma stopped_not_current:
  assumes "db_ok d" and "attempt_at d A = Some r" and "a_status r \<noteq> Running" and "job_at d J = Some j"
  shows "j_current_attempt j \<noteq> Some A"
  using assms current_running [OF assms(1,4), of A] by fastforce

lemma update_where_none: "rows_affected p xs = 0 \<Longrightarrow> update_where p f xs = xs"
  by (auto simp: rows_affected_def update_where_def filter_empty_conv intro: map_idI)

lemma stopped_renew:
  assumes ok: "db_ok d" and r: "attempt_at d A = Some r" and st: "a_status r \<noteq> Running"
  shows "renew_stmt cfg A t d = Inr (False, d)"
proof -
  have "distinct (map a_id (job_attempts d))" using db_okD(1) [OF ok] by (simp add: keys_ok_def)
  note row = row_at_Some_iff [OF this]
  have "\<not> lease_held A d x" if "x \<in> set (job_attempts d)" for x
    using that r st row [of A x] by (auto simp: lease_held_def attempt_at_def)
  then have none: "rows_affected (lease_held A d) (job_attempts d) = 0"
    by (simp add: rows_affected_def filter_empty_conv)
  with update_where_none [OF this] show ?thesis by (simp add: renew_stmt_def update_attempts_def)
qed

lemma stopped_failure:
  assumes ok: "db_ok d" and r: "attempt_at d A = Some r" and st: "a_status r \<noteq> Running"
  shows "failure_tx J A cause t d = Inr (None, d)"
  using stopped_not_current [OF ok r st] by (auto simp: failure_tx_def split: option.splits)

lemma stopped_expire:
  assumes ok: "db_ok d" and r: "attempt_at d A = Some r" and st: "a_status r \<noteq> Running"
  shows "expire_tx J A reason t d = Inr (None, d)"
proof -
  from db_okD(4) [OF ok r] have "A \<noteq> ''''" by (simp add: attempt_ok_def)
  with stopped_not_current [OF ok r st] show ?thesis by (auto simp: expire_tx_def split: option.splits)
qed

subsection \<open>Attempts are counted by the budget\<close>

definition attempts_of :: "uuid \<Rightarrow> database \<Rightarrow> attempt_row list" where
  "attempts_of J d = filter (\<lambda>a. a_job a = J) (job_attempts d)"

lemma in_attempts_of:
  "db_ok d \<Longrightarrow> a \<in> set (attempts_of J d) \<longleftrightarrow> attempt_at d (a_id a) = Some a \<and> a_job a = J"
  by (auto simp: attempts_of_def attempt_at_def db_ok_def keys_ok_def row_at_Some_iff)

lemma attempts_bounded:
  assumes ok: "db_ok d" and j: "job_at d J = Some j"
  shows "int (length (attempts_of J d)) \<le> j_retry_count j + 1"
proof -
  have inj: "inj_on a_number (set (attempts_of J d))"
  proof (rule inj_onI)
    fix x y assume x: "x \<in> set (attempts_of J d)" and y: "y \<in> set (attempts_of J d)" and n: "a_number x = a_number y"
    with db_okD(2) [OF ok] have "a_id x = a_id y"
      unfolding numbers_unique_def by (metis in_attempts_of [OF ok])
    with x y show "x = y" by (simp add: in_attempts_of [OF ok])
  qed
  have "distinct (attempts_of J d)"
    using ok by (auto simp: attempts_of_def db_ok_def keys_ok_def distinct_map)
  then have "length (attempts_of J d) = card (set (attempts_of J d))" by (simp add: distinct_card)
  also have "\<dots> = card (a_number ` set (attempts_of J d))" by (simp add: card_image [OF inj])
  also have "\<dots> \<le> card {1 .. j_retry_count j + 1}"
  proof (rule card_mono)
    show "a_number ` set (attempts_of J d) \<subseteq> {1 .. j_retry_count j + 1}"
      using j by (auto simp: in_attempts_of [OF ok] dest!: db_okD(4) [OF ok]) (auto simp: attempt_ok_def)
  qed simp
  finally have "length (attempts_of J d) \<le> nat (j_retry_count j + 1)" by simp
  moreover have "0 \<le> j_retry_count j" using db_okD(3) [OF ok j] by (simp add: job_ok_def job_local_def)
  ultimately show ?thesis by linarith
qed

end
