(* ===== verification/Sweep_Recovery.thy ===== *)
theory Sweep_Recovery
  imports Run_Lemmas
begin

text \<open>
  What a sweep achieves when its calls are answered. Each pass is a loop over the rows it
  selected; the loops share the preorder \<open>swept\<close>, which says what a sweep may change, and each
  body establishes a condition on its own row that later iterations keep.
\<close>

subsection \<open>What a sweep may change\<close>

definition fewer_running :: "database \<Rightarrow> database \<Rightarrow> bool" where
  "fewer_running d d' \<longleftrightarrow>
     (\<forall>A r. attempt_at d' A = Some r \<longrightarrow> a_status r = Running \<longrightarrow> attempt_at d A = Some r)"

definition fewer_busy :: "database \<Rightarrow> database \<Rightarrow> bool" where
  "fewer_busy d d' \<longleftrightarrow>
     (\<forall>W r. worker_at d' W = Some r \<longrightarrow> w_status r = Busy \<longrightarrow> worker_at d W = Some r)"

definition handed_back :: "world \<Rightarrow> world \<Rightarrow> bool" where
  "handed_back w w' \<longleftrightarrow>
     (\<forall>J. job_at (db w') J = job_at (db w) J \<or>
        (\<forall>j. job_at (db w') J = Some j \<longrightarrow> j_status j = Queued \<longrightarrow> queue_member J (rds w'))) \<and>
     (\<forall>J. queue_member J (rds w) \<longrightarrow> queue_member J (rds w'))"

definition swept :: "world \<Rightarrow> world \<Rightarrow> bool" where
  "swept w w' \<longleftrightarrow>
     fewer_running (db w) (db w') \<and> fewer_busy (db w) (db w') \<and> handed_back w w' \<and> clock w' = clock w"

definition calm :: "world \<Rightarrow> bool" where
  "calm w \<longleftrightarrow> world_ok w \<and> net w = []"

lemma handed_back_trans: "handed_back u v \<Longrightarrow> handed_back v w \<Longrightarrow> handed_back u w"
  unfolding handed_back_def by metis

interpretation swp: run_relation swept
proof
  show "swept w w" for w
    by (simp add: swept_def fewer_running_def fewer_busy_def handed_back_def)
  show "swept u v \<Longrightarrow> swept v w \<Longrightarrow> swept u w" for u v w
    unfolding swept_def by (auto intro: handed_back_trans) (auto simp: fewer_running_def fewer_busy_def)
qed

lemma settles_fewer: "settles d d' J A j j' st \<Longrightarrow> fewer_running d d' \<and> fewer_busy d d'"
  by (auto simp: settles_def fewer_running_def fewer_busy_def worker_at_def split: if_splits)

subsection \<open>Requeue\<close>

lemma expire_total: "\<exists>q d'. expire_tx J B reason t d = Inr (q, d')"
  by (auto simp: expire_tx_def Let_def split: option.splits)

lemma requeueJob_answered:
  assumes "calm w"
  obtains q d' where "expire_tx J B reason (clock w) (db w) = Inr (q, d')"
    and "requeueJob J B reason w = (Inr (), w\<lparr>db := d',
      rds := (case q of None \<Rightarrow> rds w | Some p \<Rightarrow> snd (run_enqueue J p (rds w)))\<rparr>)"
proof -
  from assms have ok: "db_ok (db w)" and net: "net w = []" by (simp_all add: calm_def world_ok_def)
  obtain q d' where e: "expire_tx J B reason (clock w) (db w) = Inr (q, d')" using expire_total by blast
  have "valid_priority p" if "q = Some p" for p
    using that expire_requeues [of J B reason _ _ p d'] e db_okD(3) [OF expire_ok [OF ok e]]
    by (fastforce simp: job_ok_def job_local_def)
  with e net have "requeueJob J B reason w = (Inr (), w\<lparr>db := d',
      rds := (case q of None \<Rightarrow> rds w | Some p \<Rightarrow> snd (run_enqueue J p (rds w)))\<rparr>)"
    by (cases q) (simp_all add: requeueJob_def and_then_def pg_answered ok_def Enqueue_answered)
  with e that show ?thesis by blast
qed

lemma runs_calm: "runs_in steps m \<Longrightarrow> calm w \<Longrightarrow> m w = (r, w') \<Longrightarrow> net w' = [] \<Longrightarrow> calm w'"
  using runs_inD [of steps m w r w'] by (auto simp: calm_def intro: sys.inv_run)

definition not_running :: "(attempt_row \<Rightarrow> bool) \<Rightarrow> world \<Rightarrow> bool" where
  "not_running P w \<longleftrightarrow> (\<forall>A r. attempt_at (db w) A = Some r \<longrightarrow> P r \<longrightarrow> a_status r \<noteq> Running)"

lemma not_running_swept: "not_running P w \<Longrightarrow> swept w w' \<Longrightarrow> not_running P w'"
  unfolding not_running_def swept_def fewer_running_def by blast

lemma expire_stops:
  assumes ok: "db_ok d" and e: "expire_tx J B reason t d = Inr (q, d')"
    and r: "attempt_at d' A = Some r" "a_job r = J" "B = '''' \<or> A = B"
  shows "a_status r \<noteq> Running"
proof
  assume run: "a_status r = Running"
  note ok' = expire_ok [OF ok e]
  from db_okD(4) [OF ok' r(1)] run r(2) obtain j where
    j: "job_at d' J = Some j" "j_current_attempt j = Some A" by (auto simp: attempt_ok_def)
  from expire_effect [OF ok e] show False
  proof
    assume "q = None \<and> d' = d \<and> (\<forall>j A. job_at d J = Some j \<longrightarrow> j_current_attempt j = Some A \<longrightarrow> B \<noteq> '''' \<and> A \<noteq> B)"
    with j r(3) show False by auto
  next
    assume "\<exists>j A. settles d d' J A j (give_up_or_retry t j) Expired \<and> job_outputs d' = job_outputs d \<and> (B = '''' \<or> A = B) \<and>
       q = (if j_retry_count j < j_max_retries j then Some (j_priority j) else None)"
    with j show False by (auto simp: settles_def give_up_or_retry_def dead_row_def retry_row_def)
  qed
qed

lemma requeueJob_swept:
  assumes c: "calm w"
  shows "\<exists>w'. requeueJob J B reason w = (Inr (), w') \<and> calm w' \<and> swept w w' \<and>
    not_running (\<lambda>r. a_job r = J \<and> (B = '''' \<or> a_id r = B)) w'"
proof -
  from c have ok: "db_ok (db w)" by (simp add: calm_def world_ok_def)
  obtain q d' where e: "expire_tx J B reason (clock w) (db w) = Inr (q, d')"
    and run: "requeueJob J B reason w = (Inr (), w\<lparr>db := d',
      rds := (case q of None \<Rightarrow> rds w | Some p \<Rightarrow> snd (run_enqueue J p (rds w)))\<rparr>)" (is "_ = (_, ?w)")
    using requeueJob_answered [OF c] by blast
  have calm': "calm ?w" using runs_calm [OF requeueJob_runs c run] c by (simp add: calm_def)
  have mono: "queue_member k (rds w) \<Longrightarrow> queue_member k (rds ?w)" for k
    by (simp add: run_enqueue_member_after split: option.splits)
  have "swept w ?w"
  proof (cases "d' = db w")
    case True
    with mono show ?thesis by (simp add: swept_def fewer_running_def fewer_busy_def handed_back_def)
  next
    case False
    with expire_effect [OF ok e] obtain j A where
      s: "settles (db w) d' J A j (give_up_or_retry (clock w) j) Expired"
      and q: "q = (if j_retry_count j < j_max_retries j then Some (j_priority j) else None)" by blast
    have "j_status (give_up_or_retry (clock w) j) = Queued \<Longrightarrow> queue_member J (rds ?w)"
      using q by (simp add: give_up_or_retry_def dead_row_def run_enqueue_member_after split: if_splits)
    with s mono have "handed_back w ?w" by (auto simp: handed_back_def settles_def)
    with settles_fewer [OF s] show ?thesis by (simp add: swept_def)
  qed
  moreover have "not_running (\<lambda>r. a_job r = J \<and> (B = '''' \<or> a_id r = B)) ?w"
    unfolding not_running_def using expire_stops [OF ok e] by (auto dest: attempt_at_key)
  ultimately show ?thesis using run calm' by blast
qed

subsection \<open>Pass 1\<close>

definition worker_recovered :: "dead_worker \<Rightarrow> world \<Rightarrow> bool" where
  "worker_recovered x w \<longleftrightarrow>
     (\<forall>r. worker_at (db w) (DeadID x) = Some r \<longrightarrow> w_status r \<noteq> Busy) \<and>
     (\<forall>J. CurrentJob x = Some J \<longrightarrow> not_running (\<lambda>r. a_job r = J) w)"

lemma worker_recovered_swept:
  assumes "worker_recovered x w" and "swept w w'"
  shows "worker_recovered x w'"
proof -
  have "w_status r \<noteq> Busy" if "worker_at (db w') (DeadID x) = Some r" for r
    using assms that unfolding worker_recovered_def swept_def fewer_busy_def by blast
  moreover have "not_running (\<lambda>r. a_job r = J) w'" if "CurrentJob x = Some J" for J
    using assms(1) that by (intro not_running_swept [OF _ assms(2)]) (simp add: worker_recovered_def)
  ultimately show ?thesis by (simp add: worker_recovered_def)
qed

lemma bury_answered:
  assumes c: "calm w"
  shows "\<exists>w'. pg (bury_stmt W) w = (Inr (), w') \<and> calm w' \<and> swept w w' \<and>
    (\<forall>r. worker_at (db w') W = Some r \<longrightarrow> w_status r \<noteq> Busy)"
proof -
  let ?f = "\<lambda>r. r\<lparr>w_status := WorkerDead, w_current_job := None\<rparr>"
  let ?d = "update_workers (\<lambda>r. w_id r = W) ?f (db w)"
  have run: "pg (bury_stmt W) w = (Inr (), w\<lparr>db := ?d\<rparr>)" (is "_ = (_, ?w)")
    using c by (simp add: calm_def pg_answered bury_stmt_def)
  have look: "worker_at ?d k = map_option (set_row (\<lambda>r. w_id r = W) ?f) (worker_at (db w) k)" for k
    by (simp add: worker_at_def update_workers_def bury_upd.lookup)
  have "runs_in steps (pg (bury_stmt W))"
    by (intro runs_inI pg_steps exI [of _ "Bury W"]) (simp add: effect_Inr)
  from runs_calm [OF this c run] c have "calm ?w" by (simp add: calm_def)
  moreover have busy: "worker_at (db w) k = Some r \<and> k \<noteq> W" if "worker_at ?d k = Some r" "w_status r = Busy" for k r
  proof -
    from that(1) look obtain z where z: "worker_at (db w) k = Some z" "r = set_row (\<lambda>r. w_id r = W) ?f z" by auto
    with that(2) have "w_id z \<noteq> W" by (auto simp: set_row_def)
    with z worker_at_key [OF z(1)] show ?thesis by (simp add: set_row_def)
  qed
  then have "swept w ?w"
    by (simp add: swept_def fewer_running_def fewer_busy_def handed_back_def table_simps)
  moreover have "\<forall>r. worker_at ?d W = Some r \<longrightarrow> w_status r \<noteq> Busy"
    using busy by blast
  ultimately show ?thesis using run by simp
qed

lemma recover_worker_swept:
  assumes c: "calm w"
  shows "\<exists>w'. recover_worker x w = (Inr (), w') \<and> calm w' \<and> swept w w' \<and> worker_recovered x w'"
proof -
  obtain u where u: "pg (bury_stmt (DeadID x)) w = (Inr (), u)" "calm u" "swept w u"
    "\<forall>r. worker_at (db u) (DeadID x) = Some r \<longrightarrow> w_status r \<noteq> Busy"
    using bury_answered [OF c] by blast
  show ?thesis
  proof (cases "CurrentJob x")
    case None
    with u show ?thesis by (simp add: recover_worker_def and_then_def ok_def worker_recovered_def)
  next
    case (Some J)
    obtain v where v: "requeueJob J '''' ''worker_death'' u = (Inr (), v)" "calm v" "swept u v"
      "not_running (\<lambda>r. a_job r = J) v"
      using requeueJob_swept [OF u(2), of J "''''" "''worker_death''"] by auto
    have "recover_worker x w = (Inr (), v)"
      by (simp add: recover_worker_def and_then_def u(1) Some v(1))
    moreover have "w_status r \<noteq> Busy" if "worker_at (db v) (DeadID x) = Some r" for r
      using that u(4) v(3) unfolding swept_def fewer_busy_def by blast
    then have "worker_recovered x v" using Some v(4) by (simp add: worker_recovered_def)
    ultimately show ?thesis using v(2) swp.join [OF u(3) v(3)] by blast
  qed
qed

lemma recoverDeadWorkers_swept:
  assumes c: "calm w"
  shows "\<exists>w'. recoverDeadWorkers cfg w = (Inr (), w') \<and> calm w' \<and> swept w w' \<and>
    (\<forall>x \<in> set (select_dead_workers cfg (clock w) (db w)). worker_recovered x w')"
proof -
  have "\<exists>w'. for_each recover_worker (select_dead_workers cfg (clock w) (db w)) w = (Inr (), w') \<and>
      calm w' \<and> swept w w' \<and> (\<forall>x \<in> set (select_dead_workers cfg (clock w) (db w)). worker_recovered x w')"
    by (rule swp.for_each_post [where I = calm, OF c])
       (blast intro: recover_worker_swept worker_recovered_swept)+
  moreover have "net w = []" using c by (simp add: calm_def)
  ultimately show ?thesis by (simp add: recoverDeadWorkers_def and_then_def query_answered)
qed

subsection \<open>Pass 2\<close>

lemma recover_attempt_swept:
  assumes c: "calm w"
  shows "\<exists>w'. recover_attempt x w = (Inr (), w') \<and> calm w' \<and> swept w w' \<and>
    not_running (\<lambda>r. (a_job r, a_id r) = x) w'"
proof -
  obtain J A where x: "x = (J, A)" by fastforce
  from requeueJob_swept [OF c, of J A "''lease_expired''"] show ?thesis
    by (auto simp: recover_attempt_def x not_running_def)
qed

lemma recoverOrphanedJobs_swept:
  assumes c: "calm w"
  shows "\<exists>w'. recoverOrphanedJobs cfg w = (Inr (), w') \<and> calm w' \<and> swept w w' \<and>
    (\<forall>x \<in> set (select_expired cfg (clock w) (db w)). not_running (\<lambda>r. (a_job r, a_id r) = x) w')"
proof -
  have "\<exists>w'. for_each recover_attempt (select_expired cfg (clock w) (db w)) w = (Inr (), w') \<and>
      calm w' \<and> swept w w' \<and> (\<forall>x \<in> set (select_expired cfg (clock w) (db w)). not_running (\<lambda>r. (a_job r, a_id r) = x) w')"
    by (rule swp.for_each_post [where I = calm, OF c])
       (blast intro: recover_attempt_swept not_running_swept)+
  moreover have "net w = []" using c by (simp add: calm_def)
  ultimately show ?thesis by (simp add: recoverOrphanedJobs_def and_then_def query_answered)
qed

subsection \<open>Pass 3\<close>

definition same_db :: "world \<Rightarrow> world \<Rightarrow> bool" where
  "same_db w w' \<longleftrightarrow> db w' = db w \<and> clock w' = clock w \<and> (\<forall>k. queue_member k (rds w) \<longrightarrow> queue_member k (rds w'))"

interpretation sdb: run_relation same_db
  by unfold_locales (auto simp: same_db_def)

lemma same_db_swept: "same_db w w' \<Longrightarrow> swept w w'"
  by (simp add: same_db_def swept_def fewer_running_def fewer_busy_def handed_back_def)

lemma recover_missing_answered:
  assumes c: "calm w" and j: "job_at (db w) J = Some j"
  shows "\<exists>w'. recover_missing J w = (Inr (), w') \<and> calm w' \<and> same_db w w' \<and> queue_member J (rds w')"
proof (cases "queue_member J (rds w)")
  case True
  with c show ?thesis
    by (simp add: recover_missing_def and_then_def queueContainsJob_def calm_def rd_answered ok_def same_db_def)
next
  case False
  let ?w = "w\<lparr>rds := snd (run_enqueue J (j_priority j) (rds w))\<rparr>"
  from c j have p: "valid_priority (j_priority j)" and net: "net w = []"
    using db_okD(3) [of "db w" J j] by (simp_all add: calm_def world_ok_def job_ok_def job_local_def)
  have "recover_missing J w = (Inr (), ?w)"
    using False j p net job_at_key [OF j]
    by (simp add: recover_missing_def and_then_def queueContainsJob_def rd_answered enqueueJob_def fetchJob_def
        query_answered job_info_of_def Enqueue_answered)
  with runs_calm [OF recover_missing_runs c this] net show ?thesis
    by (simp add: same_db_def run_enqueue_member_after)
qed

lemma recoverMissing_answered:
  assumes c: "calm w"
  shows "\<exists>w'. recoverMissingQueueMessages cfg w = (Inr (), w') \<and> calm w' \<and> same_db w w' \<and>
    (\<forall>J \<in> set (select_stale cfg (clock w) (db w)). queue_member J (rds w'))"
proof -
  let ?I = "\<lambda>v. calm v \<and> db v = db w"
  have known: "\<exists>j. job_at (db w) J = Some j" if "J \<in> set (select_stale cfg (clock w) (db w))" for J
    using that row_at_None_iff [of j_id "jobs (db w)" J] by (auto simp: select_stale_def job_at_def)
  have "\<exists>w'. for_each recover_missing (select_stale cfg (clock w) (db w)) w = (Inr (), w') \<and>
      ?I w' \<and> same_db w w' \<and> (\<forall>J \<in> set (select_stale cfg (clock w) (db w)). queue_member J (rds w'))"
  proof (rule sdb.for_each_post)
    fix J v
    assume "J \<in> set (select_stale cfg (clock w) (db w))" and v: "calm v \<and> db v = db w"
    with known obtain j where "job_at (db v) J = Some j" by auto
    with v recover_missing_answered [of v J j]
    show "\<exists>w'. recover_missing J v = (Inr (), w') \<and> ?I w' \<and> same_db v w' \<and> queue_member J (rds w')"
      by (auto simp: same_db_def)
  next
    show "queue_member J (rds u) \<Longrightarrow> same_db u v \<Longrightarrow> queue_member J (rds v)" for J u v
      by (simp add: same_db_def)
  qed (use c in simp_all)
  moreover have "net w = []" using c by (simp add: calm_def)
  ultimately show ?thesis by (auto simp: recoverMissingQueueMessages_def and_then_def query_answered)
qed

subsection \<open>The sweep\<close>

lemma Sweep_answered:
  assumes c: "calm w"
  obtains u v w' where "Sweep cfg w = (Inr (), w')" and "calm u" "swept w u"
    and "\<forall>x \<in> set (select_dead_workers cfg (clock w) (db w)). worker_recovered x u"
    and "calm v" "swept u v"
    and "\<forall>x \<in> set (select_expired cfg (clock u) (db u)). not_running (\<lambda>r. (a_job r, a_id r) = x) v"
    and "calm w'" "same_db v w'"
    and "\<forall>J \<in> set (select_stale cfg (clock v) (db v)). queue_member J (rds w')"
proof -
  obtain u where u: "recoverDeadWorkers cfg w = (Inr (), u)" "calm u" "swept w u"
    "\<forall>x \<in> set (select_dead_workers cfg (clock w) (db w)). worker_recovered x u"
    using recoverDeadWorkers_swept [OF c] by blast
  obtain v where v: "recoverOrphanedJobs cfg u = (Inr (), v)" "calm v" "swept u v"
    "\<forall>x \<in> set (select_expired cfg (clock u) (db u)). not_running (\<lambda>r. (a_job r, a_id r) = x) v"
    using recoverOrphanedJobs_swept [OF u(2)] by blast
  obtain w' where w': "recoverMissingQueueMessages cfg v = (Inr (), w')" "calm w'" "same_db v w'"
    "\<forall>J \<in> set (select_stale cfg (clock v) (db v)). queue_member J (rds w')"
    using recoverMissing_answered [OF v(2)] by blast
  have "Sweep cfg w = (Inr (), w')"
    by (simp add: Sweep_def and_then_def wrap_err_def u(1) v(1) w'(1) ok_def)
  with u v w' that show ?thesis by blast
qed

lemma sweep_no_expired_lease:
  assumes "calm w" and "Sweep cfg w = (r, w')" and "attempt_at (db w') A = Some a" and "a_status a = Running"
  shows "clock w' - LeaseExpiryGrace cfg \<le> a_lease_expires_at a"
proof -
  obtain u v w'' where s: "Sweep cfg w = (Inr (), w'')" "swept w u" "swept u v" "calm u"
    "\<forall>x \<in> set (select_expired cfg (clock u) (db u)). not_running (\<lambda>r. (a_job r, a_id r) = x) v" "same_db v w''"
    by (rule Sweep_answered [OF assms(1), of cfg])
  with assms have w': "w'' = w'" by simp
  from s(6) assms(3) w' have a: "attempt_at (db v) A = Some a" and t: "clock w' = clock v" by (simp_all add: same_db_def)
  with s(3) assms(4) have au: "attempt_at (db u) A = Some a" and tu: "clock v = clock u"
    by (auto simp: swept_def fewer_running_def)
  show ?thesis
  proof (rule ccontr)
    assume "\<not> ?thesis"
    with au t tu assms(4) have "(a_job a, a_id a) \<in> set (select_expired cfg (clock u) (db u))"
      by (auto simp: select_expired_def attempt_at_def dest: row_at_SomeD)
    with s(5) a assms(4) show False by (auto simp: not_running_def)
  qed
qed

lemma sweep_no_stale_worker:
  assumes "calm w" and "Sweep cfg w = (r, w')" and "worker_at (db w') W = Some x" and "w_status x = Busy"
  shows "clock w' - DeadWorkerThreshold cfg \<le> w_last_heartbeat x"
proof -
  obtain u v w'' where s: "Sweep cfg w = (Inr (), w'')" "swept w u" "swept u v"
    "\<forall>x \<in> set (select_dead_workers cfg (clock w) (db w)). worker_recovered x u" "same_db v w''"
    by (rule Sweep_answered [OF assms(1), of cfg])
  with assms have w': "w'' = w'" by simp
  have wv: "swept u w''" and ww: "swept w w''"
    using s swp.join same_db_swept by blast+
  with assms(3,4) w' have x: "worker_at (db u) W = Some x" "worker_at (db w) W = Some x" and t: "clock w' = clock w"
    by (auto simp: swept_def fewer_busy_def)
  show ?thesis
  proof (rule ccontr)
    assume "\<not> ?thesis"
    with x t assms(4) have "\<lparr>DeadID = w_id x, CurrentJob = w_current_job x\<rparr> \<in> set (select_dead_workers cfg (clock w) (db w))"
      by (auto simp: select_dead_workers_def worker_at_def dest: row_at_SomeD)
    with s(4) x assms(4) show False by (auto simp: worker_recovered_def dest: worker_at_key)
  qed
qed

lemma sweep_no_lost_job:
  assumes "calm w" and "Sweep cfg w = (r, w')" and "job_at (db w') J = Some j" and "j_status j = Queued"
    and "j_updated_at j < clock w' - StaleQueueThreshold cfg"
  shows "queue_member J (rds w')"
proof -
  obtain u v w'' where s: "Sweep cfg w = (Inr (), w'')" "same_db v w''"
    "\<forall>J \<in> set (select_stale cfg (clock v) (db v)). queue_member J (rds w'')"
    by (rule Sweep_answered [OF assms(1), of cfg])
  with assms have w': "w'' = w'" by simp
  with s(2) assms(3,4,5) have "J \<in> set (select_stale cfg (clock v) (db v))"
    by (auto simp: select_stale_def same_db_def job_at_def image_iff dest: row_at_SomeD)
  with s(3) w' show ?thesis by simp
qed

lemma sweep_hands_back:
  assumes "calm w" and "Sweep cfg w = (r, w')" and "job_at (db w) J = Some j" and "j_status j = Processing"
    and "job_at (db w') J = Some j'" and "j_status j' = Queued"
  shows "queue_member J (rds w')"
proof -
  obtain u v w'' where s: "Sweep cfg w = (Inr (), w'')" "swept w u" "swept u v" "same_db v w''"
    by (rule Sweep_answered [OF assms(1), of cfg])
  then have "swept w w'" using assms(2) swp.join same_db_swept by (metis prod.inject)
  with assms(3-6) show ?thesis unfolding swept_def handed_back_def by force
qed

end
