(* ===== verification/Samples.thy ===== *)
theory Samples
  imports Sweep_Recovery
begin

text \<open>
  Concrete runs of the system with the default configuration, used where a property is shown to
  apply: one job is submitted, a worker claims it, and the attempt completes, fails or loses its
  lease.
\<close>

definition no_env :: environ where
  "no_env = (\<lambda>_. '''')"

abbreviation "api0 \<equiv> api_LoadConfig no_env"
abbreviation "worker0 \<equiv> worker_LoadConfig no_env"
abbreviation "reaper0 \<equiv> reaper_LoadConfig no_env"

lemma default_config [simp]:
  "WorkerMaxRetries api0 = 3" "LeaseTTL worker0 = 300000000000" "ProcessingMode worker0 = ''parallel''"
  "LeaseExpiryGrace reaper0 = 0" "DeadWorkerThreshold reaper0 = 30000000000"
  "StaleQueueThreshold reaper0 = 30000000000" "SweepInterval reaper0 = 30000000000"
  "LeadershipLockTTL reaper0 = 60000000000"
  by (simp_all add: api_LoadConfig_def worker_LoadConfig_def reaper_LoadConfig_def no_env_def envInt_def
      envSeconds_def Atoi_def Second_def Minute_def loadProcessingMode_def env_def processingModeParallel_def
      processingModeSequential_def Let_def)

definition sample_row :: job_row where
  "sample_row = new_job_row 0 ''j1'' 3 5 ''raw/j1.mp4''"

definition sample_output :: media_output where
  "sample_output = \<lparr>Type = ''thumbnail'', LocalPath = ''t.jpg'', ObjectKey = ''outputs/j1/a1/thumbnail'',
     CDNURL = ''http://cdn/outputs/j1/a1/thumbnail'', FileSize = 7, ContentType = ''image/jpeg''\<rparr>"

definition w_queued :: world where
  "w_queued = snd (pg (register ''w1'') (snd (createQueuedJob api0 ''j1'' ''raw/j1.mp4'' 5 empty_world)))"

definition w_claimed :: world where
  "w_claimed = snd (markProcessing worker0 ''w1'' ''a1'' ''j1'' w_queued)"

definition w_completed :: world where
  "w_completed = snd (completeJob ''j1'' ''a1'' [(''o1'', sample_output)] w_claimed)"

definition w_expired :: world where
  "w_expired = snd (requeueJob ''j1'' ''a1'' ''lease_expired'' w_claimed)"

text \<open>The claimed job after its lease ran out.\<close>

definition w_late :: world where
  "w_late = w_claimed\<lparr>clock := 400000000000\<rparr>"

subsection \<open>They are reachable\<close>

lemma empty_world_reachable: "reachable empty_world"
  by (auto simp: reachable_def initial_def empty_world_def intro!: exI [of _ empty_world])

lemma register_runs: "runs_in steps (pg (register W))"
  by (intro runs_inI pg_steps exI [of _ "Register W"]) (simp add: effect_Inr)

lemma reachable_run: "reachable w \<Longrightarrow> runs_in steps m \<Longrightarrow> reachable (snd (m w))"
  by (auto simp: runs_in_def intro: reachable_steps)

lemma w_queued_reachable: "reachable w_queued"
  unfolding w_queued_def
  by (intro reachable_run register_runs create_runs empty_world_reachable)
     (simp_all add: valid_priority_def MinPriority_def MaxPriority_def)

lemma w_claimed_reachable: "reachable w_claimed"
  unfolding w_claimed_def by (intro reachable_run markProcessing_runs w_queued_reachable) simp

lemma w_completed_reachable: "reachable w_completed"
  unfolding w_completed_def by (intro reachable_run completeJob_runs w_claimed_reachable)

lemma w_expired_reachable: "reachable w_expired"
  unfolding w_expired_def by (intro reachable_run requeueJob_runs w_claimed_reachable)

subsection \<open>Their databases\<close>

lemma valid_5 [simp]: "valid_priority 5"
  by (simp add: valid_priority_def MinPriority_def MaxPriority_def)

lemma w_queued_eq:
  "w_queued = empty_world\<lparr>db := empty_db\<lparr>jobs := [sample_row],
     workers := [\<lparr>w_id = ''w1'', w_status = Idle, w_current_job = None, w_last_heartbeat = 0\<rparr>]\<rparr>,
     rds := snd (run_enqueue ''j1'' 5 empty_redis)\<rparr>"
  by (simp add: w_queued_def createQueuedJob_def and_then_def log_err_def pg_answered Enqueue_answered
      create_job_tx_def insert_job_def new_job_row_def sample_row_def register_def
      int4_def job_at_def worker_at_def empty_world_def empty_db_def)

lemma w_claimed_eq:
  "w_claimed = w_queued\<lparr>db := (db w_queued)\<lparr>jobs := [(claim_row ''a1'' sample_row)\<lparr>j_updated_at := 0\<rparr>],
     job_attempts := [new_attempt_row worker0 ''w1'' 0 ''a1'' sample_row]\<rparr>\<rparr>"
  by (simp add: w_claimed_def markProcessing_def w_queued_eq pg_answered claim_tx_def insert_attempt_def
      new_attempt_row_def sample_row_def new_job_row_def claim_row_def update_jobs_def update_where_def
      int4_def job_at_def worker_at_def attempt_at_def empty_world_def empty_db_def)

lemma w_completed_eq:
  "w_completed = w_claimed\<lparr>db := (db w_claimed)\<lparr>
     jobs := [(complete_row 0 ''a1'' (claim_row ''a1'' sample_row))\<lparr>j_updated_at := 0\<rparr>],
     job_attempts := [(new_attempt_row worker0 ''w1'' 0 ''a1'' sample_row)\<lparr>a_status := AttemptCompleted,
       a_finished_at := Some 0, a_phase := ''completed''\<rparr>],
     job_outputs := [new_output_row 0 ''o1'' ''j1'' ''a1'' Thumbnail sample_output]\<rparr>\<rparr>"
  by (simp add: w_completed_def completeJob_def w_claimed_eq w_queued_eq pg_answered complete_tx_def
      held_by_def rows_affected_def upsert_output_def new_output_row_def sample_output_def output_type_of_def
      new_attempt_row_def sample_row_def new_job_row_def claim_row_def complete_row_def update_jobs_def
      update_attempts_def update_where_def int8_def job_at_def attempt_at_def empty_world_def empty_db_def)

lemma w_expired_eq:
  "w_expired = w_claimed\<lparr>db := (db w_claimed)\<lparr>
     jobs := [(retry_row 0 (claim_row ''a1'' sample_row))\<lparr>j_updated_at := 0\<rparr>],
     job_attempts := [expired_attempt 0 ''lease_expired'' (new_attempt_row worker0 ''w1'' 0 ''a1'' sample_row)]\<rparr>,
     rds := snd (run_enqueue ''j1'' 5 (rds w_claimed))\<rparr>"
  by (simp add: w_expired_def requeueJob_def and_then_def w_claimed_eq w_queued_eq pg_answered expire_tx_def
      Enqueue_answered new_attempt_row_def sample_row_def new_job_row_def claim_row_def retry_row_def
      expired_attempt_def update_jobs_def update_attempts_def update_where_def job_at_def attempt_at_def
      empty_world_def empty_db_def)

lemmas sample_defs = w_queued_eq w_claimed_eq w_completed_eq w_expired_eq sample_row_def new_job_row_def
  new_attempt_row_def claim_row_def complete_row_def retry_row_def expired_attempt_def new_output_row_def
  job_at_def attempt_at_def worker_at_def empty_world_def empty_db_def

lemma w_late_reachable: "reachable w_late"
proof (rule reachable_steps [OF w_claimed_reachable])
  show "steps w_claimed w_late"
    unfolding w_late_def by (rule environment_steps) (simp_all add: w_claimed_eq w_queued_eq empty_world_def)
qed

lemma sample_calm: "calm w_queued" "calm w_claimed" "calm w_late"
  using w_queued_reachable w_claimed_reachable w_late_reachable
  by (simp_all add: calm_def reachable_ok) (simp_all add: w_late_def w_claimed_eq w_queued_eq empty_world_def)

end
