(* ===== verification/Behaviour.thy ===== *)
theory Behaviour
  imports Samples
begin

text \<open>
  What the operations on jobs do when their calls are answered: the claim of a queued job
  succeeds, a holder renews, completes or fails its attempt, a submitted job is stored and
  queued, and a poll delivers it.
\<close>

subsection \<open>Claims\<close>

lemma claim_succeeds:
  assumes ok: "db_ok d" and j: "job_at d J = Some j" "j_status j = Queued"
    and w: "worker_at d wid \<noteq> None" and A: "attempt_at d A = None" and n: "j_retry_count j < 2 ^ 31 - 1"
  shows "\<exists>d'. claim_tx cfg wid A J t d = Inr (Some A, d')"
proof -
  let ?row = "new_attempt_row cfg wid t A j"
  have jl: "0 \<le> j_retry_count j" "j_id j = J"
    using db_okD(3) [OF ok j(1)] job_at_key [OF j(1)] by (simp_all add: job_ok_def job_local_def)
  have "\<not> (a_job a = J \<and> a_number a = j_retry_count j + 1)" if "a \<in> set (job_attempts d)" for a
  proof -
    from that db_okD(1) [OF ok] have "attempt_at d (a_id a) = Some a"
      by (simp add: attempt_at_def keys_ok_def row_at_Some_iff)
    from db_okD(4) [OF ok this] j show ?thesis by (auto simp: attempt_ok_def)
  qed
  then have "\<not> list_ex (\<lambda>a. a_job a = J \<and> a_number a = j_retry_count j + 1) (job_attempts d)"
    by (auto simp: list_ex_iff)
  then have "insert_attempt ?row d = Inr (d\<lparr>job_attempts := job_attempts d @ [?row]\<rparr>)"
    using jl j w A n by (auto simp: insert_attempt_def new_attempt_row_def int4_def)
  with j show ?thesis by (simp add: claim_tx_def)
qed

lemma claim_refused: "job_at d J = Some j \<Longrightarrow> j_status j \<noteq> Queued \<Longrightarrow> claim_tx cfg wid A J t d = Inr (None, d)"
  by (simp add: claim_tx_def)

subsection \<open>Leases\<close>

lemma lease_held_one:
  assumes ok: "db_ok d" and j: "job_at d J = Some j" "j_current_attempt j = Some A"
    and a: "attempt_at d A = Some a"
  shows "lease_held A d a" and "rows_affected (lease_held A d) (job_attempts d) = 1"
proof -
  obtain r where r: "attempt_at d A = Some r" "a_status r = Running" "a_job r = J" "j_status j = Processing"
    using current_running [OF ok j] by blast
  have "j \<in> set (jobs d)" "j_id j = J" using j(1) by (auto simp: job_at_def dest: row_at_SomeD)
  with r a j attempt_at_key [OF a] show held: "lease_held A d a"
    by (auto simp: lease_held_def list_ex_iff)
  have "distinct (map a_id (job_attempts d))" using db_okD(1) [OF ok] by (simp add: keys_ok_def)
  from rows_affected_key [OF this, of A "\<lambda>x. a_status x = Running \<and>
      list_ex (\<lambda>j. j_id j = a_job x \<and> j_status j = Processing \<and> j_current_attempt j = Some (a_id x)) (jobs d)"]
  show "rows_affected (lease_held A d) (job_attempts d) = 1"
    using a held attempt_at_key [OF a] by (auto simp: attempt_at_def lease_held_def [abs_def])
qed

lemma renew_succeeds:
  assumes ok: "db_ok d" and j: "job_at d J = Some j" "j_current_attempt j = Some A"
    and a: "attempt_at d A = Some a"
  shows "\<exists>d'. renew_stmt cfg A t d = Inr (True, d') \<and>
    attempt_at d' = (attempt_at d)(A \<mapsto> a\<lparr>a_last_heartbeat := t, a_lease_expires_at := t + LeaseTTL cfg\<rparr>) \<and>
    job_at d' = job_at d \<and> workers d' = workers d \<and> job_outputs d' = job_outputs d"
proof -
  note held = lease_held_one [OF assms]
  have row: "row_at a_id (job_attempts d) A = Some a" using a by (simp add: attempt_at_def)
  have "lease_held A d x \<Longrightarrow> a_id x = A" for x by (simp add: lease_held_def)
  from renew_upd.lookup_one [OF row held(1) this, of "t + LeaseTTL cfg" t] held(2) show ?thesis
    by (simp add: renew_stmt_def update_attempts_def attempt_at_def job_at_def)
qed

lemma failure_total: "\<exists>q d'. failure_tx J A cause t d = Inr (q, d')"
  by (auto simp: failure_tx_def Let_def split: option.splits)

subsection \<open>Completion\<close>

definition publishable :: "(uuid \<times> media_output) list \<Rightarrow> database \<Rightarrow> bool" where
  "publishable outs d \<longleftrightarrow>
     distinct (map (\<lambda>x. Type (snd x)) outs) \<and> distinct (map fst outs) \<and>
     list_all (\<lambda>x. output_type_of (Type (snd x)) \<noteq> None \<and> 0 \<le> FileSize (snd x) \<and> FileSize (snd x) < 2 ^ 63 \<and>
       fst x \<notin> o_id ` set (job_outputs d)) outs"

lemma insert_outputs_succeeds:
  assumes "publishable outs d" and "job_at d J \<noteq> None" and "attempt_at d A \<noteq> None"
    and "\<And>x. x \<in> set (job_outputs d) \<Longrightarrow> o_job x = J \<Longrightarrow> output_type_text (o_type x) \<notin> (\<lambda>x. Type (snd x)) ` set outs"
  shows "\<exists>d'. insert_outputs t J A outs d = Inr d'"
  using assms
proof (induction t J A outs d rule: insert_outputs.induct)
  case (2 t J A oid out outs d)
  from "2.prems"(1) obtain ty where ty: "output_type_of (Type out) = Some ty" by (auto simp: publishable_def)
  let ?row = "new_output_row t oid J A ty out"
  let ?d = "d\<lparr>job_outputs := job_outputs d @ [?row]\<rparr>"
  have new: "\<not> list_ex (\<lambda>x. o_job x = J \<and> o_type x = ty) (job_outputs d)"
    using "2.prems"(4) output_type_of_Some [OF ty] by (auto simp: list_ex_iff)
  have id: "\<not> list_ex (\<lambda>x. o_id x = oid) (job_outputs d)" and size: "0 \<le> FileSize out" "FileSize out < 2 ^ 63"
    using "2.prems"(1) by (auto simp: publishable_def list_ex_iff)
  have u: "upsert_output ?row d = Inr ?d"
    using new id size "2.prems"(2,3) by (auto simp: upsert_output_def new_output_row_def int8_def)
  have "publishable outs ?d" using "2.prems"(1) by (auto simp: publishable_def list_all_iff new_output_row_def)
  moreover have "output_type_text (o_type x) \<notin> (\<lambda>x. Type (snd x)) ` set outs"
    if "x \<in> set (job_outputs ?d)" "o_job x = J" for x
  proof (cases "x = ?row")
    case True
    have "Type out \<notin> (\<lambda>x. Type (snd x)) ` set outs" using "2.prems"(1) by (simp add: publishable_def)
    with True output_type_of_Some [OF ty] show ?thesis by (simp add: new_output_row_def)
  next
    case False
    with that "2.prems"(4) [of x] show ?thesis by simp
  qed
  ultimately have "\<exists>d'. insert_outputs t J A outs ?d = Inr d'"
    using "2.IH" [OF ty u] "2.prems"(2,3) by (simp add: job_at_def attempt_at_def)
  with ty u show ?case by simp
qed simp

lemma held_outputs_empty:
  "db_ok d \<Longrightarrow> job_at d J = Some j \<Longrightarrow> j_current_attempt j = Some A \<Longrightarrow> x \<in> set (job_outputs d) \<Longrightarrow> o_job x \<noteq> J"
  using db_okD(5) [of d x] db_okD(3) [of d J j] by (auto simp: output_ok_def job_ok_def job_local_def)

lemma output_rows_job: "x \<in> set (output_rows t J A outs) \<Longrightarrow> o_job x = J"
  by (induction t J A outs rule: output_rows.induct) (auto simp: new_output_row_def split: option.splits)

lemma complete_succeeds:
  assumes ok: "db_ok d" and j: "job_at d J = Some j" "j_current_attempt j = Some A" and p: "publishable outs d"
  shows "\<exists>d'. complete_tx J A outs t d = Inr ((), d') \<and> outputs_of J d' = output_rows t J A outs"
proof -
  let ?d = "update_jobs t (held_by J A) (complete_row t A) d"
  obtain a where a: "attempt_at d A = Some a" "j_status j = Processing" using current_running [OF ok j] by blast
  have none: "x \<in> set (job_outputs d) \<Longrightarrow> o_job x \<noteq> J" for x using held_outputs_empty [OF ok j] .
  have job: "job_at ?d J \<noteq> None"
    using j complete_upd.lookup_None by (simp add: job_at_def update_jobs_def del: not_None_eq)
  have rows: "rows_affected (held_by J A) (jobs d) = 1" using j a by (simp add: held_by_rows [OF ok])
  have "\<exists>d'. insert_outputs t J A outs ?d = Inr d'"
  proof (rule insert_outputs_succeeds)
    show "publishable outs ?d" using p by (simp add: publishable_def table_simps)
    show "attempt_at ?d A \<noteq> None" using a by (simp add: table_simps)
    show "output_type_text (o_type x) \<notin> (\<lambda>x. Type (snd x)) ` set outs"
      if "x \<in> set (job_outputs ?d)" "o_job x = J" for x using none [of x] that by (simp add: table_simps)
  qed (rule job)
  then obtain d' where ins: "insert_outputs t J A outs ?d = Inr d'" ..
  have "distinct (map (Type \<circ> snd) outs)" using p by (simp add: publishable_def comp_def)
  from insert_outputs_append [OF ins this] none have "job_outputs d' = job_outputs d @ output_rows t J A outs"
    by (simp add: table_simps)
  moreover have "filter (\<lambda>x. o_job x = J) (job_outputs d) = []" using none by (simp add: filter_empty_conv)
  moreover have "filter (\<lambda>x. o_job x = J) (output_rows t J A outs) = output_rows t J A outs"
    by (simp add: output_rows_job)
  ultimately show ?thesis
    using rows ins by (simp add: complete_tx_def outputs_of_def table_simps)
qed

subsection \<open>Properties\<close>

text \<open>
  C11. A queued job can be claimed by a registered worker with a fresh attempt, which becomes the
  current attempt with a lease of \<open>LeaseTTL\<close> from now; every further claim of the job, by any
  worker, is turned away without effect.
\<close>

theorem claim_is_exclusive:
  assumes "reachable w" and "net w = []" and "job_at (db w) J = Some j" and "j_status j = Queued"
    and "worker_at (db w) wid \<noteq> None" and "attempt_at (db w) A = None" and "j_retry_count j < 2 ^ 31 - 1"
  shows "\<exists>w'. markProcessing cfg wid A J w = (Inr (Some A), w') \<and>
    job_at (db w') J = Some (j\<lparr>j_status := Processing, j_current_attempt := Some A, j_updated_at := clock w\<rparr>) \<and>
    attempt_at (db w') A = Some (new_attempt_row cfg wid (clock w) A j) \<and>
    (\<forall>cfg' wid' B. markProcessing cfg' wid' B J w' = (Inr None, w'))"
proof -
  have ok: "db_ok (db w)" using reachable_ok [OF assms(1)] by (simp add: world_ok_def)
  obtain d' where c: "claim_tx cfg wid A J (clock w) (db w) = Inr (Some A, d')"
    using claim_succeeds [OF ok assms(3-7)] by blast
  let ?w = "w\<lparr>db := d'\<rparr>"
  have "markProcessing cfg wid A J w = (Inr (Some A), ?w)"
    using c assms(2) by (simp add: markProcessing_def pg_answered)
  moreover have e: "job_at d' J = Some (j\<lparr>j_status := Processing, j_current_attempt := Some A, j_updated_at := clock w\<rparr>)"
    "attempt_at d' A = Some (new_attempt_row cfg wid (clock w) A j)"
    using claim_effect [OF ok c] assms(3) by (auto simp: claim_row_def)
  moreover have "markProcessing cfg' wid' B J ?w = (Inr None, ?w)" for cfg' wid' B
    using e(1) assms(2) by (simp add: markProcessing_def pg_answered claim_refused)
  ultimately show ?thesis by (intro exI [of _ ?w]) simp
qed

theorem claim_is_exclusive_witness:
  "\<exists>w'. markProcessing worker0 ''w1'' ''a1'' ''j1'' w_queued = (Inr (Some ''a1''), w') \<and>
     markProcessing worker0 ''w1'' ''a2'' ''j1'' w' = (Inr None, w')"
proof -
  have "net w_queued = []" "job_at (db w_queued) ''j1'' = Some sample_row" "j_status sample_row = Queued"
    "worker_at (db w_queued) ''w1'' \<noteq> None" "attempt_at (db w_queued) ''a1'' = None" "j_retry_count sample_row < 2 ^ 31 - 1"
    by (simp_all add: sample_defs)
  from claim_is_exclusive [OF w_queued_reachable this, of worker0] show ?thesis by blast
qed

text \<open>
  C12. The holder of a job completes it: with outputs of distinct, known types and admissible
  sizes, \<open>completeJob\<close> succeeds, the job is completed by this attempt at this time, the attempt
  is completed, and the job's output rows are exactly the published outputs, in order.
\<close>

theorem completion_publishes_outputs:
  assumes "reachable w" and "net w = []" and "job_at (db w) J = Some j" and "j_current_attempt j = Some A"
    and "publishable outs (db w)"
  shows "\<exists>w'. completeJob J A outs w = (Inr (), w') \<and>
    job_at (db w') J = Some (j\<lparr>j_status := Completed, j_completed_attempt := Some A, j_completed_at := Some (clock w),
      j_current_attempt := None, j_updated_at := clock w\<rparr>) \<and>
    outputs_of J (db w') = output_rows (clock w) J A outs \<and> length (outputs_of J (db w')) = length outs \<and>
    (\<exists>a. attempt_at (db w') A = Some a \<and> a_status a = AttemptCompleted)"
proof -
  have ok: "db_ok (db w)" using reachable_ok [OF assms(1)] by (simp add: world_ok_def)
  obtain d' where c: "complete_tx J A outs (clock w) (db w) = Inr ((), d')"
    and out: "outputs_of J d' = output_rows (clock w) J A outs"
    using complete_succeeds [OF ok assms(3-5)] by blast
  from complete_effect [OF ok c] obtain j0 where
    s: "settles (db w) d' J A j0 ((complete_row (clock w) A j0)\<lparr>j_updated_at := clock w\<rparr>) AttemptCompleted" by blast
  with assms(3) have j0: "j0 = j" by (simp add: settles_def)
  have "length (output_rows t J A outs) = length outs" for t
    using assms(5) by (induction outs) (auto simp: publishable_def)
  moreover have "completeJob J A outs w = (Inr (), w\<lparr>db := d'\<rparr>)"
    using c assms(2) by (simp add: completeJob_def pg_answered)
  moreover have "job_at d' J = Some (j\<lparr>j_status := Completed, j_completed_attempt := Some A, j_completed_at := Some (clock w),
      j_current_attempt := None, j_updated_at := clock w\<rparr>)" "\<exists>a. attempt_at d' A = Some a \<and> a_status a = AttemptCompleted"
    using s by (auto simp: settles_def j0 complete_row_def)
  ultimately show ?thesis using out by (intro exI [of _ "w\<lparr>db := d'\<rparr>"]) simp
qed

theorem completion_publishes_outputs_witness:
  "\<exists>w'. completeJob ''j1'' ''a1'' [(''o1'', sample_output)] w_claimed = (Inr (), w') \<and>
     outputs_of ''j1'' (db w') = [new_output_row 0 ''o1'' ''j1'' ''a1'' Thumbnail sample_output]"
proof -
  have "net w_claimed = []" "job_at (db w_claimed) ''j1'' = Some ((claim_row ''a1'' sample_row)\<lparr>j_updated_at := 0\<rparr>)"
    "j_current_attempt ((claim_row ''a1'' sample_row)\<lparr>j_updated_at := 0\<rparr>) = Some ''a1''"
    "publishable [(''o1'', sample_output)] (db w_claimed)"
    by (simp_all add: sample_defs publishable_def sample_output_def output_type_of_def)
  moreover have "output_type_of (Type sample_output) = Some Thumbnail" "clock w_claimed = 0"
    by (simp_all add: sample_output_def output_type_of_def sample_defs)
  ultimately show ?thesis
    using completion_publishes_outputs [OF w_claimed_reachable, of "''j1''" _ "''a1''" "[(''o1'', sample_output)]"] by auto
qed

text \<open>
  C13. The holder of a job keeps its lease: a renewal that is answered affects exactly its row,
  reports success and sets the lease to \<open>LeaseTTL\<close> from now.
\<close>

theorem holder_renews_lease:
  assumes "reachable w" and "net w = []" and "job_at (db w) J = Some j" and "j_current_attempt j = Some A"
    and "attempt_at (db w) A = Some a"
  shows "\<exists>w'. renewLease_tick cfg A w = (True, w') \<and>
    attempt_at (db w') = (attempt_at (db w))(A \<mapsto> a\<lparr>a_last_heartbeat := clock w, a_lease_expires_at := clock w + LeaseTTL cfg\<rparr>) \<and>
    job_at (db w') = job_at (db w)"
proof -
  have ok: "db_ok (db w)" using reachable_ok [OF assms(1)] by (simp add: world_ok_def)
  from renew_succeeds [OF ok assms(3-5), of cfg "clock w"] assms(2) show ?thesis
    by (auto simp: renewLease_tick_def renewAttemptLease_def pg_answered)
qed

theorem holder_renews_lease_witness:
  "\<exists>w'. renewLease_tick worker0 ''a1'' w_late = (True, w') \<and>
     map_option a_lease_expires_at (attempt_at (db w') ''a1'') = Some 700000000000"
proof -
  have "net w_late = []" "job_at (db w_late) ''j1'' = Some ((claim_row ''a1'' sample_row)\<lparr>j_updated_at := 0\<rparr>)"
    "j_current_attempt ((claim_row ''a1'' sample_row)\<lparr>j_updated_at := 0\<rparr>) = Some ''a1''" "clock w_late = 400000000000"
    "attempt_at (db w_late) ''a1'' = Some (new_attempt_row worker0 ''w1'' 0 ''a1'' sample_row)"
    by (simp_all add: w_late_def sample_defs)
  from holder_renews_lease [OF w_late_reachable this(1-3,5), of worker0] this(4) show ?thesis by auto
qed

text \<open>
  C14. A failure reported by the holder ends its attempt as failed and does to the job what
  \<open>failureActionFor\<close> says: with retries left the job is queued again with one more retry and is
  in Redis; with none left it is dead and Redis is untouched.
\<close>

theorem failure_follows_action:
  assumes "reachable w" and "net w = []" and "job_at (db w) J = Some j" and "j_current_attempt j = Some A"
  shows "\<exists>w' j' a. handleFailure txt J A cause w = (Inr (), w') \<and> job_at (db w') J = Some j' \<and>
    j_current_attempt j' = None \<and> attempt_at (db w') A = Some a \<and> a_status a = Failed \<and>
    (case failureActionFor (job_info_of j) of
       MarkDead \<Rightarrow> j_status j' = Dead \<and> j_retry_count j' = j_retry_count j \<and> rds w' = rds w
     | Requeue \<Rightarrow> j_status j' = Queued \<and> j_retry_count j' = j_retry_count j + 1 \<and>
         j_queue_entered_at j' = clock w \<and> queue_member J (rds w'))"
proof -
  have ok: "db_ok (db w)" using reachable_ok [OF assms(1)] by (simp add: world_ok_def)
  have p: "valid_priority (j_priority j)" using db_okD(3) [OF ok assms(3)] by (simp add: job_ok_def job_local_def)
  obtain q d' where f: "failure_tx J A (txt cause) (clock w) (db w) = Inr (q, d')" using failure_total by blast
  from failure_effect [OF ok f] assms(3,4) obtain j0 where
    s: "settles (db w) d' J A j0 (give_up_or_retry (clock w) j0) Failed"
    and q: "q = (if j_retry_count j0 < j_max_retries j0 then Some (j_priority j0) else None)" by auto
  with assms(3) have j0: "j0 = j" by (simp add: settles_def)
  let ?w = "w\<lparr>db := d', rds := (case q of None \<Rightarrow> rds w | Some p \<Rightarrow> snd (run_enqueue J p (rds w)))\<rparr>"
  have "handleFailure txt J A cause w = (Inr (), ?w)"
    using f q p j0 assms(2) by (simp add: handleFailure_def log_err_def and_then_def pg_answered Enqueue_answered ok_def)
  moreover have "job_at d' J = Some (give_up_or_retry (clock w) j)" "\<exists>a. attempt_at d' A = Some a \<and> a_status a = Failed"
    using s j0 by (auto simp: settles_def)
  ultimately show ?thesis
    using q j0 by (intro exI [of _ ?w] exI [of _ "give_up_or_retry (clock w) j"])
      (auto simp: give_up_or_retry_def dead_row_def retry_row_def failureActionFor_def job_info_of_def run_enqueue_member_after)
qed

theorem failure_follows_action_witness:
  "\<exists>w' j'. handleFailure (\<lambda>_. ''ffmpeg failed'') ''j1'' ''a1'' ErrDriver w_claimed = (Inr (), w') \<and>
     job_at (db w') ''j1'' = Some j' \<and> j_status j' = Queued \<and> j_retry_count j' = 1 \<and> queue_member ''j1'' (rds w')"
proof -
  let ?j = "(claim_row ''a1'' sample_row)\<lparr>j_updated_at := 0\<rparr>"
  have "net w_claimed = []" "job_at (db w_claimed) ''j1'' = Some ?j" "j_current_attempt ?j = Some ''a1''"
    "failureActionFor (job_info_of ?j) = Requeue" "j_retry_count ?j = 0"
    by (simp_all add: sample_defs failureActionFor_def job_info_of_def)
  with failure_follows_action [OF w_claimed_reachable, of "''j1''" ?j "''a1''" "\<lambda>_. ''ffmpeg failed''" ErrDriver]
  show ?thesis by auto
qed



lemma poll_front:
  assumes "world_ok w" and "net w = []" and "contents (rds w) = (p, J) # xs"
  obtains j where "job_at (db w) J = Some j" and "j_priority j = p" and "contents (snd (run_pop (rds w))) = xs"
    and "poll w = (Inr (Some \<lparr>JobID = J, MsgInputFile = j_input_file j, MsgPriority = p, EnqueuedAt = zero_time\<rparr>),
      w\<lparr>rds := snd (run_pop (rds w))\<rparr>)"
proof -
  have ok: "queue_ok (rds w)" and known: "queue_known w" using assms(1) by (simp_all add: world_ok_def)
  from known assms(3) obtain j where j: "job_at (db w) J = Some j" "j_priority j = p" by (auto simp: queue_known_def)
  note first = run_pop_first [OF ok assms(3)]
  have "J \<noteq> ''''" using rq.items_proper [OF ok] assms(3) by auto
  with first assms(2) j job_at_key [OF j(1)]
  have "poll w = (Inr (Some \<lparr>JobID = J, MsgInputFile = j_input_file j, MsgPriority = p, EnqueuedAt = zero_time\<rparr>), w\<lparr>rds := snd (run_pop (rds w))\<rparr>)"
    by (simp add: poll_def and_then_def Pop_answered fetchJob_def query_answered job_info_of_def)
  with j first that show ?thesis by simp
qed

text \<open>
  C16. A poll whose calls are answered takes the job at the front of the queue, never one that the
  database does not know, and returns its stored input file and priority; it returns no message
  and \<open>redis.Nil\<close> only when the queue is empty.
\<close>

theorem poll_delivers_front:
  assumes "reachable w" and "net w = []"
  shows "case contents (rds w) of
      [] \<Rightarrow> poll w = (Inl RedisNil, w)
    | (p, J) # xs \<Rightarrow> (\<exists>j w'. job_at (db w) J = Some j \<and> j_priority j = p \<and> db w' = db w \<and> contents (rds w') = xs \<and>
        poll w = (Inr (Some \<lparr>JobID = J, MsgInputFile = j_input_file j, MsgPriority = p, EnqueuedAt = zero_time\<rparr>), w'))"
proof (cases "contents (rds w)")
  case Nil
  with assms reachable_ok [OF assms(1)] show ?thesis
    by (simp add: poll_def and_then_def Pop_answered world_ok_def run_pop_empty)
next
  case (Cons x xs)
  obtain p J where x: "x = (p, J)" by fastforce
  from poll_front [OF reachable_ok [OF assms(1)] assms(2) Cons [unfolded x]] show ?thesis unfolding Cons x by force
qed

theorem poll_delivers_front_witness:
  "\<exists>w'. poll w_queued = (Inr (Some \<lparr>JobID = ''j1'', MsgInputFile = ''raw/j1.mp4'', MsgPriority = 5, EnqueuedAt = zero_time\<rparr>), w')"
proof -
  have "contents empty_redis = []" by (simp add: contents_def tier_def [abs_def] empty_redis_def flat_empty)
  moreover have "\<not> queue_member ''j1'' empty_redis" by (simp add: queue_member_def SISMEMBER_def empty_redis_def)
  ultimately have "contents (rds w_queued) = [(5, ''j1'')]"
    using rq.enq_items [OF queue_ok_empty valid_5, of "''j1''"] by (simp add: w_queued_eq)
  moreover have "net w_queued = []" "job_at (db w_queued) ''j1'' = Some sample_row" "j_input_file sample_row = ''raw/j1.mp4''"
    by (simp_all add: sample_defs)
  ultimately show ?thesis using poll_delivers_front [OF w_queued_reachable] by auto
qed

end
