(* ===== verification/Job_Runs.thy ===== *)
theory Job_Runs
  imports Worker_Run Behaviour
begin

text \<open>
  A worker's whole job is a run of the system, whatever ffmpeg, the file system and the services
  do.
\<close>

definition msteps :: "machine \<Rightarrow> machine \<Rightarrow> bool" where
  "msteps s s' \<longleftrightarrow> steps (fst s) (fst s')"

interpretation mach: run_relation msteps
  by unfold_locales (auto simp: msteps_def)

declare mach.stay [simp]

lemma on_world_runs: "runs_in steps m \<Longrightarrow> runs_in msteps (on_world m)"
  by (auto simp: runs_in_def msteps_def on_world_def split: prod.splits) (metis snd_conv)

lemma os_call_runs: "runs_in msteps (os_call g)"
proof (rule runs_inI)
  fix s :: machine
  obtain w f where s: "s = (w, f)" by fastforce
  obtain r u where u: "next_reply w = (r, u)" by fastforce
  then have "steps w u" using next_reply_steps [of w] by simp
  then show "msteps s (snd (os_call g s))"
    by (cases r) (auto simp: os_call_def s u msteps_def split: prod.splits)
qed

lemma deferred_runs:
  assumes "runs_in msteps c" and "runs_in msteps m"
  shows "runs_in msteps (deferred c m)"
proof (rule runs_inI)
  fix s
  obtain r t where m: "m s = (r, t)" by (rule prod.exhaust)
  have "msteps s t" using runs_inD [OF assms(2) m] .
  moreover have "msteps t (snd (c t))" using assms(1) unfolding runs_in_def by blast
  ultimately show "msteps s (snd (deferred c m s))" by (simp add: deferred_def m) (rule mach.join)
qed

lemma timed_runs: "runs_in msteps m \<Longrightarrow> runs_in msteps (timed m)"
  by (auto simp: runs_in_def timed_def split: prod.splits sum.splits) (metis snd_conv)+

lemma run_indexed_runs:
  assumes "\<And>i. runs_in msteps (body i)"
  shows "runs_in msteps (run_indexed body is outs)"
proof (rule runs_inI)
  show "msteps s (snd (run_indexed body is outs s))" for s
  proof (induction "is" arbitrary: outs s)
    case (Cons i "is")
    obtain r s' where b: "body i s = (r, s')" by (rule prod.exhaust)
    have "msteps s s'" using runs_inD [OF assms b] .
    with b Cons.IH [where s = s'] show ?case by (auto split: sum.splits intro: mach.join)
  qed simp
qed

lemma object_store_runs:
  "runs_in steps open_object" "runs_in steps (get_object k)" "runs_in steps (put_object k ob)"
  by (auto simp: runs_in_def open_object_def get_object_def put_object_def next_reply_def
      split: list.splits prod.splits reply.splits option.splits intro!: environment_steps)

lemmas machine_runs = on_world_runs object_store_runs mach.run_and_then
  runs_in_wrap mach.run_ok timed_runs os_call_runs deferred_runs

lemma download_runs: "runs_in msteps (downloadInput key dest)"
  unfolding downloadInput_def write_file_def by (intro machine_runs)

lemma runFFmpegJobs_runs: "runs_in msteps (runFFmpegJobs p order path inp dir mode)"
  unfolding runFFmpegJobs_def
proof (rule run_indexed_runs)
  show "runs_in msteps (run_task p path inp dir (tasks ! i))" for i
    unfolding run_task_def Let_def runFFmpeg_def Stat_def by (intro machine_runs)
qed

lemma uploadOutputs_runs: "runs_in msteps (uploadOutputs cfg order J A outs)"
  unfolding uploadOutputs_def
proof (rule run_indexed_runs)
  show "runs_in msteps (upload_one cfg J A (outs ! i))" for i
    unfolding upload_one_def Let_def Open_def by (intro machine_runs)
qed

lemma runs_in_case_prod: "(\<And>x y. runs_in R (f x y)) \<Longrightarrow> runs_in R (case p of (x, y) \<Rightarrow> f x y)"
  by (cases p) simp

lemma runJob_runs: "runs_in msteps (runJob cfg e msg A)"
  unfolding runJob_def run_phases_def Let_def MkdirAll_def RemoveAll_def
  by (intro machine_runs runs_in_case_prod setAttemptPhase_runs recordAttemptDuration_runs completeJob_runs
      download_runs runFFmpegJobs_runs uploadOutputs_runs)

lemma busy_runs: "runs_in steps (pg (setWorkerBusy wid J))"
  by (intro runs_inI pg_steps exI [of _ "SetBusy wid J"]) (simp add: effect_Inr)

lemma idle_runs: "runs_in steps (pg (setWorkerIdle wid))"
  by (intro runs_inI pg_steps exI [of _ "SetIdle wid"]) (simp add: effect_Inr)

lemma runs_stepD: "runs_in R m \<Longrightarrow> R s (snd (m s))"
  by (simp add: runs_in_def)

lemma finish_runs:
  "runs_in msteps (\<lambda>s. case runJob cfg e msg A s of
      (Inr _, s2) \<Rightarrow> (Inr (), s2)
    | (Inl err, s2) \<Rightarrow> if errors_is err ErrStaleAttempt then (Inr (), s2)
        else (Inl err, snd (on_world (handleFailure txt J A err) s2)))"
proof (rule runs_inI)
  fix s
  obtain r t where j: "runJob cfg e msg A s = (r, t)" by (rule prod.exhaust)
  have st: "msteps s t" using runs_inD [OF runJob_runs j] .
  have "msteps t (snd (on_world (handleFailure txt J A err) t))" for err
    by (rule runs_stepD [OF on_world_runs [OF handleFailure_runs]])
  with st show "msteps s (snd (case runJob cfg e msg A s of
      (Inr _, s2) \<Rightarrow> (Inr (), s2)
    | (Inl err, s2) \<Rightarrow> if errors_is err ErrStaleAttempt then (Inr (), s2)
        else (Inl err, snd (on_world (handleFailure txt J A err) s2))))"
    by (auto simp: j split: sum.splits intro: mach.join)
qed

lemma processJob_runs:
  assumes "A \<noteq> ''''"
  shows "runs_in msteps (processJob cfg wid txt e A msg)"
  unfolding processJob_def
proof (rule mach.run_and_then)
  show "runs_in msteps (on_world (markProcessing cfg wid A (JobID msg)))"
    by (rule on_world_runs [OF markProcessing_runs [OF assms]])
  fix claimed :: "uuid option"
  show "runs_in msteps (case claimed of None \<Rightarrow> fail_with ErrJobAlreadyClaimed
       | Some attempt \<Rightarrow> (\<lambda>s.
           case on_world (pg (setWorkerBusy wid (JobID msg))) s of
             (Inl err, s1) \<Rightarrow> (Inl err, snd (on_world (handleFailure txt (JobID msg) attempt err) s1))
           | (Inr _, s1) \<Rightarrow>
               deferred (on_world (log_err (pg (setWorkerIdle wid)))) (\<lambda>s.
                 case runJob cfg e msg attempt s of
                   (Inr _, s2) \<Rightarrow> (Inr (), s2)
                 | (Inl err, s2) \<Rightarrow>
                     if errors_is err ErrStaleAttempt then (Inr (), s2)
                     else (Inl err, snd (on_world (handleFailure txt (JobID msg) attempt err) s2))) s1))"
  proof (cases claimed)
    case None
    then show ?thesis by (simp add: mach.run_fail)
  next
    case (Some B)
    have fail: "msteps s1 (snd (on_world (handleFailure txt (JobID msg) B err) s1))" for s1 err
      by (rule runs_stepD [OF on_world_runs [OF handleFailure_runs]])
    note rest = runs_stepD [OF deferred_runs [OF on_world_runs [OF runs_in_log [OF idle_runs]] finish_runs]]
    show ?thesis
    proof (rule runs_inI, goal_cases)
      case (1 s)
      obtain r s1 where b: "on_world (pg (setWorkerBusy wid (JobID msg))) s = (r, s1)" by (rule prod.exhaust)
      have "msteps s s1" using runs_inD [OF on_world_runs [OF busy_runs] b] .
      with fail [of s1] rest [where s = s1] show ?case
        by (auto simp: Some b split: sum.splits intro: mach.join)
    qed
  qed
qed

lemma worker_turn_runs:
  assumes "A \<noteq> ''''"
  shows "msteps s (worker_turn cfg wid txt e A s)"
proof -
  obtain r w1 f1 where p: "on_world poll s = (r, (w1, f1))" by (metis prod.collapse)
  have s1: "msteps s (w1, f1)" using runs_inD [OF on_world_runs [OF poll_runs] p] .
  have "steps w1 (sleepOrDone (PollBackoff cfg) w1)" by (rule environment_steps) (simp_all add: sleepOrDone_def)
  then have sl: "msteps (w1, f1) (sleepOrDone (PollBackoff cfg) w1, f1)" by (simp add: msteps_def)
  have "msteps (w1, f1) (snd (processJob cfg wid txt e A msg (w1, f1)))" for msg
    by (rule runs_stepD [OF processJob_runs [OF assms]])
  with s1 sl show ?thesis
    by (auto simp: worker_turn_def p split: sum.splits option.splits intro: mach.join)
qed

end
