(* ===== verification/Job_Success.thy ===== *)
theory Job_Success
  imports Job_Runs
begin

text \<open>
  A job from claim to completion when the calls are answered and ffmpeg transcodes, in
  any order of the parallel parts.
\<close>

subsection \<open>Answered calls on a machine\<close>

lemma on_world_eq: "m w = (r, w') \<Longrightarrow> on_world m (w, f) = (r, (w', f))"
  by (simp add: on_world_def)

lemma os_call_answered: "net w = [] \<Longrightarrow> os_call g (w, f) = (case g f of (r, f') \<Rightarrow> (r, (w, f')))"
  by (simp add: os_call_def)

lemmas os_answered = os_call_answered MkdirAll_def RemoveAll_def write_file_def Stat_def Open_def runFFmpeg_def

lemma download_answered:
  assumes "net w = []" and "objs w key = Some ob"
  shows "downloadInput key dest (w, f) = (Inr (), (w, f(dest \<mapsto> content ob)))"
  using assms
  by (simp add: downloadInput_def and_then_def wrap_err_def on_world_def open_object_def get_object_def os_answered)

subsection \<open>Loops over indices\<close>

lemma run_indexed_result:
  assumes "P s" and "\<And>i s. i \<in> set is \<Longrightarrow> P s \<Longrightarrow> body i s = (Inr (res i), upd i s) \<and> P (upd i s)"
  shows "run_indexed body is outs s = (Inr (fold (\<lambda>i xs. xs[i := res i]) is outs), fold upd is s) \<and> P (fold upd is s)"
  using assms
proof (induction "is" arbitrary: s outs)
  case (Cons i "is")
  from Cons.prems have b: "body i s = (Inr (res i), upd i s)" and p: "P (upd i s)" by simp_all
  from Cons.IH [OF p, of "outs[i := res i]"] Cons.prems(2) b show ?case by simp
qed simp

lemma fold_updates:
  "length (fold (\<lambda>i xs. xs[i := res i]) is xs) = length xs \<and>
   (\<forall>k < length xs. fold (\<lambda>i xs. xs[i := res i]) is xs ! k = (if k \<in> set is then res k else xs ! k))"
proof (induction "is" arbitrary: xs)
  case (Cons i "is")
  from Cons.IH [of "xs[i := res i]"] show ?case by (auto simp: nth_list_update)
qed simp

lemma fold_updates_all:
  assumes "set is = {..<length xs}"
  shows "fold (\<lambda>i xs. xs[i := res i]) is xs = map res [0..<length xs]"
  using fold_updates [of res "is" xs] assms by (intro nth_equalityI) auto

subsection \<open>Transcoding\<close>

text \<open>
  What is expected of ffmpeg: given an existing input it succeeds and writes the output file, and
  nothing else, with content that depends on the task and the input alone. \<open>enc\<close> names that
  content.
\<close>

definition transcodes :: "ffmpeg_program \<Rightarrow> (string \<Rightarrow> string \<Rightarrow> string) \<Rightarrow> bool" where
  "transcodes p enc \<longleftrightarrow>
     (\<forall>path task inp out f data. task \<in> set tasks \<longrightarrow> f inp = Some data \<longrightarrow>
        p path (Args task inp out) f = (Inr (), f(out \<mapsto> enc (OutputType task) data))) \<and>
     (\<forall>ty data. int (length (enc ty data)) < 2 ^ 63)"

definition any_order :: "nat list \<Rightarrow> bool" where
  "any_order is \<longleftrightarrow> set is = {..<length tasks}"

definition task_path :: "string \<Rightarrow> nat \<Rightarrow> string" where
  "task_path dir i = Join dir (FileName (tasks ! i))"

definition task_output :: "(string \<Rightarrow> string \<Rightarrow> string) \<Rightarrow> string \<Rightarrow> string \<Rightarrow> nat \<Rightarrow> media_output" where
  "task_output enc data dir i = zero_output\<lparr>Type := OutputType (tasks ! i), LocalPath := task_path dir i,
     FileSize := int (length (enc (OutputType (tasks ! i)) data)), ContentType := TaskContentType (tasks ! i)\<rparr>"

lemma length_tasks: "length tasks = 4"
  by (simp add: tasks_def)

lemma less_4: "i < (4 :: nat) \<Longrightarrow> i = 0 \<or> i = 1 \<or> i = 2 \<or> i = 3"
  by auto

lemma task_cases:
  assumes "i < length tasks"
  obtains "i = 0" | "i = 1" | "i = 2" | "i = 3"
  using assms less_4 by (auto simp: length_tasks)

lemma plain_file_names: "i < length tasks \<Longrightarrow> plain_name (FileName (tasks ! i))" "plain_name ''raw.mp4''"
  by (erule task_cases; simp add: tasks_def plain_name_def) (simp add: plain_name_def)

lemma file_names_distinct:
  "i < length tasks \<Longrightarrow> k < length tasks \<Longrightarrow> FileName (tasks ! i) = FileName (tasks ! k) \<longleftrightarrow> i = k"
  by (erule task_cases; erule task_cases; simp add: tasks_def)

lemma file_name_not_raw: "i < length tasks \<Longrightarrow> FileName (tasks ! i) \<noteq> ''raw.mp4''"
  by (erule task_cases) (simp_all add: tasks_def)

lemma run_task_answered:
  assumes "transcodes p enc" and "net w = []" and "f inp = Some data" and "i < length tasks"
  shows "run_task p path inp dir (tasks ! i) (w, f) =
    (Inr (task_output enc data dir i), (w, f(task_path dir i \<mapsto> enc (OutputType (tasks ! i)) data)))"
proof -
  have "tasks ! i \<in> set tasks" using assms(4) by simp
  with assms(1,3) have "p path (Args (tasks ! i) inp (task_path dir i)) f =
      (Inr (), f(task_path dir i \<mapsto> enc (OutputType (tasks ! i)) data))"
    unfolding transcodes_def by blast
  with assms(2) show ?thesis
    by (simp add: run_task_def Let_def and_then_def wrap_err_def os_answered ok_def task_output_def task_path_def)
qed

lemma fold_map_upd:
  assumes "inj_on k (set is)"
  shows "i \<in> set is \<Longrightarrow> fold (\<lambda>i g. g(k i \<mapsto> v i)) is f (k i) = Some (v i)"
    and "p \<notin> k ` set is \<Longrightarrow> fold (\<lambda>i g. g(k i \<mapsto> v i)) is f p = f p"
proof -
  show other: "p \<notin> k ` set is \<Longrightarrow> fold (\<lambda>i g. g(k i \<mapsto> v i)) is f p = f p" for p "is" f
    by (induction "is" arbitrary: f) auto
  show "i \<in> set is \<Longrightarrow> fold (\<lambda>i g. g(k i \<mapsto> v i)) is f (k i) = Some (v i)"
    using assms
  proof (induction "is" arbitrary: f)
    case (Cons x xs)
    show ?case
    proof (cases "i \<in> set xs")
      case True
      with Cons show ?thesis by (simp add: inj_on_insert)
    next
      case False
      with Cons.prems have "i = x" "k i \<notin> k ` set xs" by (auto simp: inj_on_def)
      with other [of "k i" xs "f(k x \<mapsto> v x)"] show ?thesis by (simp del: fun_upd_apply) simp
    qed
  qed simp
qed

lemma fold_map_upd_same:
  assumes "inj_on k (set is)" and "set is = set js"
  shows "fold (\<lambda>i g. g(k i \<mapsto> v i)) is f = fold (\<lambda>i g. g(k i \<mapsto> v i)) js f"
proof
  fix p
  show "fold (\<lambda>i g. g(k i \<mapsto> v i)) is f p = fold (\<lambda>i g. g(k i \<mapsto> v i)) js f p"
  proof (cases "p \<in> k ` set is")
    case True
    then obtain i where "i \<in> set is" "p = k i" by blast
    with fold_map_upd(1) [of k "is" i v f] fold_map_upd(1) [of k js i v f] assms show ?thesis by simp
  next
    case False
    with fold_map_upd(2) [of k "is" p v f] fold_map_upd(2) [of k js p v f] assms show ?thesis by simp
  qed
qed

text \<open>The files after all tasks, and the outputs they report.\<close>

definition transcoded :: "(string \<Rightarrow> string \<Rightarrow> string) \<Rightarrow> string \<Rightarrow> string \<Rightarrow> files \<Rightarrow> files" where
  "transcoded enc data dir f =
     fold (\<lambda>i g. g(task_path dir i \<mapsto> enc (OutputType (tasks ! i)) data)) [0..<length tasks] f"

definition task_outputs :: "(string \<Rightarrow> string \<Rightarrow> string) \<Rightarrow> string \<Rightarrow> string \<Rightarrow> media_output list" where
  "task_outputs enc data dir = map (task_output enc data dir) [0..<length tasks]"

lemma task_path_plain:
  "plain_name J \<Longrightarrow> i < length tasks \<Longrightarrow> task_path (Join d J) i = Join d J @ ''/'' @ FileName (tasks ! i)"
  by (simp add: task_path_def Join_Join plain_file_names)

lemma task_path_inj: "plain_name J \<Longrightarrow> inj_on (task_path (Join d J)) {..<length tasks}"
  by (auto simp: inj_on_def task_path_plain file_names_distinct)

lemma task_path_not_raw: "plain_name J \<Longrightarrow> i < length tasks \<Longrightarrow> task_path (Join d J) i \<noteq> Join (Join d J) ''raw.mp4''"
  by (simp add: task_path_plain Join_Join plain_file_names file_name_not_raw)

lemma fold_snd: "fold (\<lambda>i s. (fst s, g i (snd s))) is (a, b) = (a, fold g is b)"
  by (induction "is" arbitrary: b) simp_all

lemma runFFmpegJobs_answered:
  assumes t: "transcodes p enc" and net: "net w = []" and J: "plain_name J" and dir: "dir = Join d J"
    and inp: "inp = Join dir ''raw.mp4''" "f inp = Some data"
    and ord: "mode = processingModeSequential \<or> any_order order"
  shows "runFFmpegJobs p order path inp dir mode (w, f) = (Inr (task_outputs enc data dir), (w, transcoded enc data dir f))"
proof -
  define idxs where "idxs = (if mode = processingModeSequential then [0..<length tasks] else order)"
  let ?v = "\<lambda>i. enc (OutputType (tasks ! i)) data"
  let ?upd = "\<lambda>i s. (fst s, (snd s)(task_path dir i \<mapsto> ?v i)) :: machine"
  let ?P = "\<lambda>s. fst s = w \<and> snd s inp = Some data"
  have is_all: "set idxs = {..<length tasks}" using ord by (cases "mode = processingModeSequential") (simp_all add: idxs_def any_order_def lessThan_atLeast0)
  have inj: "inj_on (task_path dir) (set idxs)" using task_path_inj [OF J] by (simp add: dir is_all)
  have one: "run_task p path inp dir (tasks ! i) s = (Inr (task_output enc data dir i), ?upd i s) \<and> ?P (?upd i s)"
    if i: "i \<in> set idxs" and P: "?P s" for i s
  proof -
    obtain g where s: "s = (w, g)" and g: "g inp = Some data" using P by (cases s) auto
    have l: "i < length tasks" using i is_all by simp
    from run_task_answered [where f = g and inp = inp and path = path and dir = dir, OF t net g l] g task_path_not_raw [OF J l, of d] show ?thesis
      by (simp add: s inp(1) dir)
  qed
  have "run_indexed (\<lambda>i. run_task p path inp dir (tasks ! i)) idxs (replicate (length tasks) zero_output) (w, f) =
      (Inr (fold (\<lambda>i xs. xs[i := task_output enc data dir i]) idxs (replicate (length tasks) zero_output)), fold ?upd idxs (w, f)) \<and>
    ?P (fold ?upd idxs (w, f))"
  proof (rule run_indexed_result [where P = ?P])
    show "?P (w, f)" using inp(2) by simp
  qed (rule one)
  then have "run_indexed (\<lambda>i. run_task p path inp dir (tasks ! i)) idxs (replicate (length tasks) zero_output) (w, f) =
      (Inr (fold (\<lambda>i xs. xs[i := task_output enc data dir i]) idxs (replicate (length tasks) zero_output)), fold ?upd idxs (w, f))"
    by (rule conjunct1)
  moreover have "fold (\<lambda>i xs. xs[i := task_output enc data dir i]) idxs (replicate (length tasks) zero_output) = task_outputs enc data dir"
    using fold_updates_all [of "idxs" "replicate (length tasks) zero_output"] is_all by (simp add: task_outputs_def)
  moreover have "fold ?upd idxs (w, f) = (w, transcoded enc data dir f)"
    using fold_map_upd_same [OF inj, of "[0..<length tasks]" ?v f] is_all
      fold_snd [of "\<lambda>i g. g(task_path dir i \<mapsto> ?v i)" idxs w f]
    by (simp add: transcoded_def lessThan_atLeast0)
  ultimately show ?thesis by (simp add: runFFmpegJobs_def idxs_def [symmetric])
qed

lemma transcoded_at:
  "plain_name J \<Longrightarrow> i < length tasks \<Longrightarrow>
   transcoded enc data (Join d J) f (task_path (Join d J) i) = Some (enc (OutputType (tasks ! i)) data)"
  unfolding transcoded_def
  by (rule fold_map_upd(1)) (use task_path_inj [of J d] in \<open>auto simp: lessThan_atLeast0\<close>)

lemma transcoded_other:
  assumes "plain_name J" and "\<not> under (Join d J) q"
  shows "transcoded enc data (Join d J) f q = f q"
  unfolding transcoded_def
proof (rule fold_map_upd(2))
  show "inj_on (task_path (Join d J)) (set [0..<length tasks])" using task_path_inj [OF assms(1)] by (simp add: lessThan_atLeast0)
  show "q \<notin> task_path (Join d J) ` set [0..<length tasks]"
    using assms(2) under_Join [OF assms(1) plain_file_names(1)] by (auto simp: task_path_def)
qed

subsection \<open>Upload\<close>

definition uploaded_output :: "worker_config \<Rightarrow> uuid \<Rightarrow> uuid \<Rightarrow> media_output \<Rightarrow> media_output" where
  "uploaded_output cfg J A out = out\<lparr>ObjectKey := object_key cfg J A (Type out), CDNURL := cdnURL cfg (object_key cfg J A (Type out))\<rparr>"

definition stored_object :: "worker_config \<Rightarrow> string \<Rightarrow> media_output \<Rightarrow> object" where
  "stored_object cfg data out = \<lparr>content = data, content_type = ContentType out, cache_control = OutputCacheControl cfg\<rparr>"

lemma upload_one_answered:
  assumes "net w = []" and "f (LocalPath out) = Some data"
  shows "upload_one cfg J A out (w, f) =
    (Inr (uploaded_output cfg J A out), (w\<lparr>objs := (objs w)(object_key cfg J A (Type out) \<mapsto> stored_object cfg data out)\<rparr>, f))"
  using assms
  by (simp add: upload_one_def Let_def and_then_def wrap_err_def os_answered on_world_def put_object_def ok_def
      uploaded_output_def stored_object_def)

lemma fold_objs:
  "fold (\<lambda>i s. ((fst s)\<lparr>objs := (objs (fst s))(k i \<mapsto> v i)\<rparr>, snd s)) is (w, f) =
   (w\<lparr>objs := fold (\<lambda>i g. g(k i \<mapsto> v i)) is (objs w)\<rparr>, f)"
  by (induction "is" arbitrary: w) simp_all

lemma uploadOutputs_answered:
  assumes net: "net w = []" and data: "\<And>i. i < length outs \<Longrightarrow> f (LocalPath (outs ! i)) = Some (data i)"
    and ord: "set order = {..<length outs}" and keys: "inj_on (\<lambda>i. object_key cfg J A (Type (outs ! i))) {..<length outs}"
  shows "\<exists>ob. uploadOutputs cfg order J A outs (w, f) = (Inr (map (uploaded_output cfg J A) outs), (w\<lparr>objs := ob\<rparr>, f)) \<and>
    (\<forall>i < length outs. ob (object_key cfg J A (Type (outs ! i))) = Some (stored_object cfg (data i) (outs ! i))) \<and>
    (\<forall>q. (\<forall>i < length outs. q \<noteq> object_key cfg J A (Type (outs ! i))) \<longrightarrow> ob q = objs w q)"
proof -
  let ?k = "\<lambda>i. object_key cfg J A (Type (outs ! i))" and ?v = "\<lambda>i. stored_object cfg (data i) (outs ! i)"
  let ?upd = "\<lambda>i s. ((fst s)\<lparr>objs := (objs (fst s))(?k i \<mapsto> ?v i)\<rparr>, snd s) :: machine"
  let ?P = "\<lambda>s :: machine. net (fst s) = [] \<and> snd s = f"
  have one: "upload_one cfg J A (outs ! i) s = (Inr (uploaded_output cfg J A (outs ! i)), ?upd i s) \<and> ?P (?upd i s)"
    if i: "i \<in> set order" and P: "?P s" for i s
  proof -
    obtain u where s: "s = (u, f)" and u: "net u = []" using P by (cases s) auto
    have "f (LocalPath (outs ! i)) = Some (data i)" using i data ord by auto
    from upload_one_answered [where f = f and out = "outs ! i" and cfg = cfg and J = J and A = A, OF u this] u show ?thesis by (simp add: s)
  qed
  have "run_indexed (\<lambda>i. upload_one cfg J A (outs ! i)) order outs (w, f) =
      (Inr (fold (\<lambda>i xs. xs[i := uploaded_output cfg J A (outs ! i)]) order outs), fold ?upd order (w, f)) \<and>
    ?P (fold ?upd order (w, f))"
  proof (rule run_indexed_result [where P = ?P])
    show "?P (w, f)" using net by simp
  qed (rule one)
  then have "uploadOutputs cfg order J A outs (w, f) =
      (Inr (fold (\<lambda>i xs. xs[i := uploaded_output cfg J A (outs ! i)]) order outs), fold ?upd order (w, f))"
    unfolding uploadOutputs_def by (rule conjunct1)
  moreover have "fold (\<lambda>i xs. xs[i := uploaded_output cfg J A (outs ! i)]) order outs = map (uploaded_output cfg J A) outs"
    using fold_updates_all [OF ord, of "\<lambda>i. uploaded_output cfg J A (outs ! i)"] by (auto intro: nth_equalityI)
  moreover have "fold (\<lambda>i g. g(?k i \<mapsto> ?v i)) order (objs w) q = objs w q" if "\<forall>i < length outs. q \<noteq> ?k i" for q
    by (rule fold_map_upd(2)) (use that keys ord in auto)
  ultimately show ?thesis
    using fold_map_upd(1) [of ?k order] keys ord unfolding fold_objs
    by (intro exI [of _ "fold (\<lambda>i g. g(?k i \<mapsto> ?v i)) order (objs w)"]) auto
qed

subsection \<open>The phases of a job\<close>

text \<open>What the statements between the phases leave alone.\<close>

definition same_job :: "world \<Rightarrow> world \<Rightarrow> bool" where
  "same_job u w \<longleftrightarrow>
     world_ok w \<and> net w = [] \<and> clock w = clock u \<and> job_at (db w) = job_at (db u) \<and>
     workers (db w) = workers (db u) \<and> job_outputs (db w) = job_outputs (db u) \<and> objs w = objs u"

lemma world_ok_objs: "world_ok (w\<lparr>objs := x\<rparr>) = world_ok w"
  by (simp add: world_ok_def queue_known_def)

lemma same_job_attempts:
  assumes "same_job u w" and "runs_in steps m" and "m w = (Inr (), w\<lparr>db := update_attempts p g (db w)\<rparr>)"
  shows "\<exists>w'. m w = (Inr (), w') \<and> same_job u w'"
proof -
  have "world_ok (w\<lparr>db := update_attempts p g (db w)\<rparr>)"
    using runs_keep [OF assms(2), of w] assms(1,3) by (simp add: same_job_def)
  with assms show ?thesis by (simp add: same_job_def at_update_attempts)
qed

lemma phase_answered: "same_job u w \<Longrightarrow> \<exists>w'. setAttemptPhase A ph w = (Inr (), w') \<and> same_job u w'"
  by (rule same_job_attempts [OF _ setAttemptPhase_runs])
     (simp_all add: setAttemptPhase_def pg_answered same_job_def phase_stmt_def)

lemma duration_answered:
  assumes "same_job u w" and "field \<in> {''download_duration_ms'', ''processing_duration_ms'', ''upload_duration_ms''}"
  shows "\<exists>w'. recordAttemptDuration A field dur w = (Inr (), w') \<and> same_job u w'"
  by (rule same_job_attempts [OF assms(1) recordAttemptDuration_runs])
     (use assms in \<open>auto simp: recordAttemptDuration_def pg_answered same_job_def duration_stmt_def\<close>)

lemma timed_eq: "m (w, f) = (Inr x, (w', f')) \<Longrightarrow> timed m (w, f) = (Inr (x, clock w' - clock w), (w', f'))"
  by (simp add: timed_def)

lemma task_outputs_nth: "i < length tasks \<Longrightarrow> task_outputs enc data dir ! i = task_output enc data dir i"
  and length_task_outputs [simp]: "length (task_outputs enc data dir) = length tasks"
  by (simp_all add: task_outputs_def)

lemma task_output_sel [simp]:
  "Type (task_output enc data dir i) = OutputType (tasks ! i)" "LocalPath (task_output enc data dir i) = task_path dir i"
  "FileSize (task_output enc data dir i) = int (length (enc (OutputType (tasks ! i)) data))"
  by (simp_all add: task_output_def)

lemma uploaded_sel [simp]:
  "Type (uploaded_output cfg J A out) = Type out" "FileSize (uploaded_output cfg J A out) = FileSize out"
  "CDNURL (uploaded_output cfg J A out) = cdnURL cfg (object_key cfg J A (Type out))"
  by (simp_all add: uploaded_output_def)

lemma output_types_distinct:
  "i < length tasks \<Longrightarrow> k < length tasks \<Longrightarrow> OutputType (tasks ! i) = OutputType (tasks ! k) \<longleftrightarrow> i = k"
  by (erule task_cases; erule task_cases; simp add: tasks_def)

text \<open>Enough fresh identifiers for the output rows.\<close>

definition fresh_ids :: "uuid list \<Rightarrow> database \<Rightarrow> bool" where
  "fresh_ids ids d \<longleftrightarrow> length ids = length tasks \<and> distinct ids \<and> set ids \<inter> o_id ` set (job_outputs d) = {}"

lemma map_zip_snd: "length xs = length ys \<Longrightarrow> map (\<lambda>x. g (snd x)) (zip xs ys) = map g ys"
  by (induction xs ys rule: list_induct2) auto

lemma uploaded_publishable:
  assumes t: "transcodes p enc" and ids: "fresh_ids ids d"
  shows "publishable (zip ids (map (uploaded_output cfg J A) (task_outputs enc data dir))) d"
proof -
  let ?ups = "map (uploaded_output cfg J A) (task_outputs enc data dir)"
  have len: "length ids = length ?ups" using ids by (simp add: fresh_ids_def)
  have "map Type ?ups = map OutputType tasks"
    by (intro nth_equalityI) (simp_all add: task_outputs_nth)
  then have ty: "map (\<lambda>x. Type (snd x)) (zip ids ?ups) = map OutputType tasks"
    using map_zip_snd [OF len, of Type] by simp
  have "distinct (map OutputType tasks)" by (simp add: tasks_def)
  with ty have d: "distinct (map (\<lambda>x. Type (snd x)) (zip ids ?ups))" by simp
  have i: "distinct (map fst (zip ids ?ups))" using ids len by (simp add: fresh_ids_def)
  have "output_type_of (Type (snd x)) \<noteq> None \<and> 0 \<le> FileSize (snd x) \<and> FileSize (snd x) < 2 ^ 63 \<and> fst x \<notin> o_id ` set (job_outputs d)"
    if x: "x \<in> set (zip ids ?ups)" for x
  proof -
    obtain k where k: "k < length tasks" "x = (ids ! k, ?ups ! k)"
      using x len by (auto simp: set_zip)
    have o: "output_type_of (OutputType (tasks ! k)) \<noteq> None"
      using k(1) by (rule task_cases) (simp_all add: tasks_def output_type_of_def)
    have "ids ! k \<in> set ids" using k(1) len by simp
    with ids have "ids ! k \<notin> o_id ` set (job_outputs d)" by (auto simp: fresh_ids_def)
    with k o t show ?thesis by (simp add: task_outputs_nth transcodes_def)
  qed
  then show ?thesis using d i by (simp add: publishable_def list_all_iff)
qed

lemma object_key_inj: "object_key cfg J A x = object_key cfg J A y \<longleftrightarrow> x = y"
  by (simp add: object_key_def)

text \<open>The published rows, in the order of the tasks.\<close>

definition output_types :: "output_type list" where
  "output_types = [Video360, Video720, Video1080, Thumbnail]"

lemma output_rows_uploaded:
  assumes "length ids = length tasks"
  shows "map o_type (output_rows t J A (zip ids (map (uploaded_output cfg J A) (task_outputs enc data dir)))) = output_types"
    and "map o_cdn_url (output_rows t J A (zip ids (map (uploaded_output cfg J A) (task_outputs enc data dir)))) =
      map (\<lambda>ty. cdnURL cfg (object_key cfg J A (output_type_text ty))) output_types"
proof -
  obtain a b c d where ids: "ids = [a, b, c, d]"
    using assms by (auto simp: length_tasks numeral_eq_Suc length_Suc_conv)
  have outs: "task_outputs enc data dir = [task_output enc data dir 0, task_output enc data dir 1, task_output enc data dir 2, task_output enc data dir 3]"
    by (simp add: task_outputs_def length_tasks upt_rec numeral_eq_Suc)
  show "map o_type (output_rows t J A (zip ids (map (uploaded_output cfg J A) (task_outputs enc data dir)))) = output_types"
    and "map o_cdn_url (output_rows t J A (zip ids (map (uploaded_output cfg J A) (task_outputs enc data dir)))) =
      map (\<lambda>ty. cdnURL cfg (object_key cfg J A (output_type_text ty))) output_types"
    by (simp_all add: ids outs tasks_def output_type_of_def new_output_row_def output_types_def)
qed

subsection \<open>The statements around a job\<close>

lemma claim_answered:
  assumes "world_ok w" and "net w = []" and "job_at (db w) J = Some j" and "j_status j = Queued"
    and "worker_at (db w) wid \<noteq> None" and "attempt_at (db w) A = None" and "j_retry_count j < 2 ^ 31 - 1" and "A \<noteq> ''''"
  shows "\<exists>d'. markProcessing cfg wid A J w = (Inr (Some A), w\<lparr>db := d'\<rparr>) \<and> world_ok (w\<lparr>db := d'\<rparr>) \<and>
    job_at d' J = Some ((claim_row A j)\<lparr>j_updated_at := clock w\<rparr>) \<and> job_outputs d' = job_outputs (db w) \<and> workers d' = workers (db w)"
proof -
  have ok: "db_ok (db w)" using assms(1) by (simp add: world_ok_def)
  obtain d' where c: "claim_tx cfg wid A J (clock w) (db w) = Inr (Some A, d')"
    using claim_succeeds [OF ok assms(3-7)] by blast
  then have m: "markProcessing cfg wid A J w = (Inr (Some A), w\<lparr>db := d'\<rparr>)"
    using assms(2) by (simp add: markProcessing_def pg_answered)
  with runs_keep [OF markProcessing_runs [OF assms(8)] assms(1), of cfg wid J] claim_effect [OF ok c] assms(3)
  show ?thesis by auto
qed

lemma worker_update:
  assumes "worker_at d wid = Some x"
  shows "worker_at (update_workers (\<lambda>r. w_id r = wid) (\<lambda>r. r\<lparr>w_status := st, w_current_job := cj, w_last_heartbeat := t\<rparr>) d) wid =
    Some (x\<lparr>w_status := st, w_current_job := cj, w_last_heartbeat := t\<rparr>)"
  using assms worker_at_key [OF assms] by (simp add: worker_at_def update_workers_def worker_upd.lookup set_row_def)

lemma busy_answered:
  assumes "world_ok w" and "net w = []" and "job_at (db w) J \<noteq> None" and "worker_at (db w) wid \<noteq> None"
  shows "\<exists>d'. pg (setWorkerBusy wid J) w = (Inr (), w\<lparr>db := d'\<rparr>) \<and> world_ok (w\<lparr>db := d'\<rparr>) \<and> job_at d' = job_at (db w) \<and>
    job_outputs d' = job_outputs (db w) \<and> worker_at d' wid \<noteq> None"
proof -
  obtain x where x: "worker_at (db w) wid = Some x" using assms(4) by blast
  let ?d = "update_workers (\<lambda>r. w_id r = wid) (\<lambda>r. r\<lparr>w_status := Busy, w_current_job := Some J, w_last_heartbeat := clock w\<rparr>) (db w)"
  have "pg (setWorkerBusy wid J) w = (Inr (), w\<lparr>db := ?d\<rparr>)" using assms(2,3) by (auto simp: pg_answered setWorkerBusy_def)
  with runs_keep [OF busy_runs assms(1), of wid J] worker_update [OF x] show ?thesis
    by (intro exI [of _ ?d]) (simp add: at_update_workers)
qed

lemma idle_answered:
  assumes "net w = []" and "worker_at (db w) wid \<noteq> None"
  shows "\<exists>d'. log_err (pg (setWorkerIdle wid)) w = (Inr (), w\<lparr>db := d'\<rparr>) \<and> job_at d' = job_at (db w) \<and>
    job_outputs d' = job_outputs (db w) \<and> (\<exists>x. worker_at d' wid = Some x \<and> w_status x = Idle \<and> w_current_job x = None)"
proof -
  obtain x where x: "worker_at (db w) wid = Some x" using assms(2) by blast
  let ?d = "update_workers (\<lambda>r. w_id r = wid) (\<lambda>r. r\<lparr>w_status := Idle, w_current_job := None, w_last_heartbeat := clock w\<rparr>) (db w)"
  have "log_err (pg (setWorkerIdle wid)) w = (Inr (), w\<lparr>db := ?d\<rparr>)" using assms(1) by (simp add: log_err_def pg_answered setWorkerIdle_def)
  with worker_update [OF x] show ?thesis by (intro exI [of _ ?d]) (simp add: at_update_workers)
qed

lemma complete_answered:
  assumes "world_ok w" and "net w = []" and "job_at (db w) J = Some j" and "j_current_attempt j = Some A" and "publishable outs (db w)"
  shows "\<exists>d'. completeJob J A outs w = (Inr (), w\<lparr>db := d'\<rparr>) \<and> world_ok (w\<lparr>db := d'\<rparr>) \<and>
    job_at d' J = Some ((complete_row (clock w) A j)\<lparr>j_updated_at := clock w\<rparr>) \<and> workers d' = workers (db w) \<and>
    outputs_of J d' = output_rows (clock w) J A outs"
proof -
  have ok: "db_ok (db w)" using assms(1) by (simp add: world_ok_def)
  obtain d' where c: "complete_tx J A outs (clock w) (db w) = Inr ((), d')" and rows: "outputs_of J d' = output_rows (clock w) J A outs"
    using complete_succeeds [OF ok assms(3-5)] by blast
  have m: "completeJob J A outs w = (Inr (), w\<lparr>db := d'\<rparr>)" using c assms(2) by (simp add: completeJob_def pg_answered)
  from complete_effect [OF ok c] obtain j0 where
    "settles (db w) d' J A j0 ((complete_row (clock w) A j0)\<lparr>j_updated_at := clock w\<rparr>) AttemptCompleted" by blast
  with m rows runs_keep [OF completeJob_runs assms(1), of J A outs] assms(3) show ?thesis by (auto simp: settles_def)
qed

text \<open>The uploads of the four outputs.\<close>

lemma uploads_answered:
  assumes net: "net w = []" and J: "plain_name J" and dir: "dir = Join d J" and ord: "any_order order"
    and f: "f = transcoded enc data dir g"
  shows "\<exists>ob. uploadOutputs cfg order J A (task_outputs enc data dir) (w, f) =
      (Inr (map (uploaded_output cfg J A) (task_outputs enc data dir)), (w\<lparr>objs := ob\<rparr>, f)) \<and>
    (\<forall>ty \<in> set output_types. \<exists>o'. ob (object_key cfg J A (output_type_text ty)) = Some o' \<and> content o' = enc (output_type_text ty) data)"
proof -
  let ?outs = "task_outputs enc data dir"
  have keys: "inj_on (\<lambda>i. object_key cfg J A (Type (?outs ! i))) {..<length ?outs}"
    by (auto simp: inj_on_def object_key_inj task_outputs_nth output_types_distinct)
  have files: "f (LocalPath (?outs ! i)) = Some (enc (OutputType (tasks ! i)) data)" if "i < length ?outs" for i
    using that transcoded_at [OF J, of i enc data d g] by (simp add: task_outputs_nth dir f)
  obtain ob where up: "uploadOutputs cfg order J A ?outs (w, f) = (Inr (map (uploaded_output cfg J A) ?outs), (w\<lparr>objs := ob\<rparr>, f))"
    and stored: "\<forall>i < length ?outs. ob (object_key cfg J A (Type (?outs ! i))) = Some (stored_object cfg (enc (OutputType (tasks ! i)) data) (?outs ! i))"
    using uploadOutputs_answered [where outs = ?outs and f = f and w = w and order = order and cfg = cfg and J = J and A = A
        and data = "\<lambda>i. enc (OutputType (tasks ! i)) data", OF net files _ keys] ord by (auto simp: any_order_def)
  have "\<exists>o'. ob (object_key cfg J A (output_type_text ty)) = Some o' \<and> content o' = enc (output_type_text ty) data"
    if ty: "ty \<in> set output_types" for ty
  proof -
    have "\<exists>i < length tasks. OutputType (tasks ! i) = output_type_text ty"
      using ty by (auto simp: output_types_def tasks_def All_less_Suc intro: exI [of _ 0] exI [of _ 1] exI [of _ 2] exI [of _ 3])
    then obtain i where "i < length tasks" "OutputType (tasks ! i) = output_type_text ty" by blast
    with stored [rule_format, of i] show ?thesis by (simp add: task_outputs_nth stored_object_def)
  qed
  with up show ?thesis by blast
qed

subsection \<open>The whole job\<close>

text \<open>The download and the transcoding, with the statements around them.\<close>

definition prepared :: "world \<Rightarrow> world \<Rightarrow> worker_config \<Rightarrow> job_env \<Rightarrow> queue_message \<Rightarrow> uuid \<Rightarrow> string \<Rightarrow> files \<Rightarrow> media_output list \<Rightarrow> files \<Rightarrow> bool" where
  "prepared w w' cfg e msg A dir f outs f' \<longleftrightarrow> same_job w w' \<and>
     run_phases cfg e msg A dir (w, f) =
       and_then (timed (uploadOutputs cfg (upload_order e) (JobID msg) A outs)) (\<lambda>(uploaded, d3).
       and_then (on_world (recordAttemptDuration A ''upload_duration_ms'' d3)) (\<lambda>_.
       and_then (on_world (setAttemptPhase A ''completing'')) (\<lambda>_.
       on_world (completeJob (JobID msg) A (zip (output_ids e) uploaded))))) (w', f')"

lemma prepare_answered:
  assumes ok: "world_ok w" and net: "net w = []" and inp: "objs w (MsgInputFile msg) = Some ob" and J: "plain_name J"
    and t: "transcodes (ffmpeg e) enc" and dir: "dir = Join d J"
    and ord: "ProcessingMode cfg = processingModeSequential \<or> any_order (ffmpeg_order e)"
  shows "\<exists>w'. prepared w w' cfg e msg A dir f (task_outputs enc (content ob) dir)
    (transcoded enc (content ob) dir (f(Join dir ''raw.mp4'' \<mapsto> content ob)))"
proof -
  let ?raw = "Join dir ''raw.mp4''"
  let ?f1 = "f(?raw \<mapsto> content ob)"
  have s0: "same_job w w" using ok net by (simp add: same_job_def)
  obtain w1 where p1: "setAttemptPhase A ''downloading'' w = (Inr (), w1)" "same_job w w1"
    using phase_answered [OF s0] by blast
  have dl: "downloadInput (MsgInputFile msg) ?raw (w1, f) = (Inr (), (w1, ?f1))"
    using p1(2) inp by (intro download_answered) (simp_all add: same_job_def)
  obtain w2 where p2: "recordAttemptDuration A ''download_duration_ms'' (clock w1 - clock w1) w1 = (Inr (), w2)" "same_job w w2"
    using duration_answered [OF p1(2)] by blast
  obtain w3 where p3: "setAttemptPhase A ''processing'' w2 = (Inr (), w3)" "same_job w w3"
    using phase_answered [OF p2(2)] by blast
  have ff: "runFFmpegJobs (ffmpeg e) (ffmpeg_order e) (FFmpegPath cfg) ?raw dir (ProcessingMode cfg) (w3, ?f1) =
      (Inr (task_outputs enc (content ob) dir), (w3, transcoded enc (content ob) dir ?f1))"
    using p3(2) by (intro runFFmpegJobs_answered [OF t _ J dir refl _ ord]) (simp_all add: same_job_def)
  obtain w4 where p4: "recordAttemptDuration A ''processing_duration_ms'' (clock w3 - clock w3) w3 = (Inr (), w4)" "same_job w w4"
    using duration_answered [OF p3(2)] by blast
  obtain w5 where p5: "setAttemptPhase A ''uploading'' w4 = (Inr (), w5)" "same_job w w5"
    using phase_answered [OF p4(2)] by blast
  have "prepared w w5 cfg e msg A dir f (task_outputs enc (content ob) dir) (transcoded enc (content ob) dir ?f1)"
    using p2(1) p4(1) p5(2)
    by (simp add: prepared_def run_phases_def Let_def)
       (simp add: and_then_def on_world_def timed_def p1(1) dl p3(1) ff p5(1))
  then show ?thesis by blast
qed

lemma run_phases_answered:
  assumes ok: "world_ok w" and net: "net w = []" and j: "job_at (db w) J = Some j" "j_current_attempt j = Some A"
    and inp: "objs w (MsgInputFile msg) = Some ob" and J: "JobID msg = J" "plain_name J"
    and t: "transcodes (ffmpeg e) enc" and dir: "dir = Join d J"
    and ord: "ProcessingMode cfg = processingModeSequential \<or> any_order (ffmpeg_order e)" "any_order (upload_order e)"
    and ids: "fresh_ids (output_ids e) (db w)"
  shows "\<exists>w' f'. run_phases cfg e msg A dir (w, f) = (Inr (), (w', f')) \<and> net w' = [] \<and>
    job_at (db w') J = Some ((complete_row (clock w) A j)\<lparr>j_updated_at := clock w\<rparr>) \<and> workers (db w') = workers (db w) \<and>
    map o_type (outputs_of J (db w')) = output_types \<and>
    map o_cdn_url (outputs_of J (db w')) = map (\<lambda>ty. cdnURL cfg (object_key cfg J A (output_type_text ty))) output_types \<and>
    (\<forall>ty \<in> set output_types. \<exists>o'. objs w' (object_key cfg J A (output_type_text ty)) = Some o' \<and>
        content o' = enc (output_type_text ty) (content ob)) \<and>
    (\<forall>q. \<not> under dir q \<longrightarrow> f' q = f q)"
proof -
  let ?data = "content ob"
  let ?f2 = "transcoded enc ?data dir (f(Join dir ''raw.mp4'' \<mapsto> ?data))"
  let ?outs = "task_outputs enc ?data dir" and ?ups = "map (uploaded_output cfg J A) (task_outputs enc ?data dir)"
  obtain w5 where p5: "prepared w w5 cfg e msg A dir f ?outs ?f2"
    using prepare_answered [OF ok net inp J(2) t dir ord(1)] by blast
  then have s5: "same_job w w5" and net5: "net w5 = []" by (simp_all add: prepared_def same_job_def)
  obtain obs where up: "uploadOutputs cfg (upload_order e) J A ?outs (w5, ?f2) = (Inr ?ups, (w5\<lparr>objs := obs\<rparr>, ?f2))"
    and stored: "\<forall>ty \<in> set output_types. \<exists>o'. obs (object_key cfg J A (output_type_text ty)) = Some o' \<and> content o' = enc (output_type_text ty) ?data"
    using uploads_answered [OF net5 J(2) dir ord(2) refl] by blast
  let ?u = "w5\<lparr>objs := obs\<rparr>"
  have su: "same_job ?u ?u" using s5 by (simp add: same_job_def world_ok_objs)
  obtain w6 where p6: "recordAttemptDuration A ''upload_duration_ms'' (clock ?u - clock w5) ?u = (Inr (), w6)" "same_job ?u w6"
    using duration_answered [OF su] by blast
  obtain w7 where p7: "setAttemptPhase A ''completing'' w6 = (Inr (), w7)" "same_job ?u w7"
    using phase_answered [OF p6(2)] by blast
  have w7: "net w7 = []" "clock w7 = clock w" "job_at (db w7) J = Some j" "workers (db w7) = workers (db w)"
    "job_outputs (db w7) = job_outputs (db w)" "objs w7 = obs" "world_ok w7"
    using p7(2) s5 j(1) by (simp_all add: same_job_def)
  have pub: "publishable (zip (output_ids e) ?ups) (db w7)"
    using uploaded_publishable [OF t, of "output_ids e" "db w7"] ids w7(5) by (simp add: fresh_ids_def)
  obtain d' where cj: "completeJob J A (zip (output_ids e) ?ups) w7 = (Inr (), w7\<lparr>db := d'\<rparr>)"
    and fin: "job_at d' J = Some ((complete_row (clock w) A j)\<lparr>j_updated_at := clock w\<rparr>)" "workers d' = workers (db w)"
      "outputs_of J d' = output_rows (clock w) J A (zip (output_ids e) ?ups)"
    using complete_answered [OF w7(7,1,3) j(2) pub] w7 by auto
  have run: "run_phases cfg e msg A dir (w, f) = (Inr (), (w7\<lparr>db := d'\<rparr>, ?f2))"
    using p5 p6(1) by (simp add: prepared_def) (simp add: and_then_def on_world_def timed_def J(1) up p7(1) cj)
  have outside: "?f2 q = f q" if q: "\<not> under dir q" for q
  proof -
    have "q \<noteq> Join dir ''raw.mp4''" using q under_Join [OF J(2) plain_file_names(2), of d] by (auto simp: dir)
    with transcoded_other [OF J(2), of d q enc ?data] q show ?thesis by (simp add: dir)
  qed
  have len: "length (output_ids e) = length tasks" using ids by (simp add: fresh_ids_def)
  show ?thesis
    using run w7(1,6) fin output_rows_uploaded [OF len, of "clock w" J A cfg enc ?data dir] stored outside
    by (intro exI [of _ "w7\<lparr>db := d'\<rparr>"] exI [of _ ?f2] conjI) simp_all
qed

lemma processJob_completes:
  assumes "reachable w" and "net w = []" and "job_at (db w) J = Some j" and "j_status j = Queued"
    and "j_retry_count j < 2 ^ 31 - 1" and "worker_at (db w) wid \<noteq> None" and "attempt_at (db w) A = None" and "A \<noteq> ''''"
    and "JobID msg = J" and "objs w (MsgInputFile msg) = Some ob" and "plain_name J" and "transcodes (ffmpeg e) enc"
    and "ProcessingMode cfg = processingModeSequential \<or> any_order (ffmpeg_order e)" and "any_order (upload_order e)"
    and "fresh_ids (output_ids e) (db w)"
  shows "\<exists>w' f'. processJob cfg wid txt e A msg (w, f) = (Inr (), (w', f')) \<and>
    (\<exists>j'. job_at (db w') J = Some j' \<and> j_status j' = Completed \<and> j_completed_attempt j' = Some A) \<and>
    net w' = [] \<and> map o_type (outputs_of J (db w')) = output_types \<and>
    map o_cdn_url (outputs_of J (db w')) = map (\<lambda>ty. cdnURL cfg (object_key cfg J A (output_type_text ty))) output_types \<and>
    (\<forall>ty \<in> set output_types. \<exists>o'. objs w' (object_key cfg J A (output_type_text ty)) = Some o' \<and>
        content o' = enc (output_type_text ty) (content ob)) \<and>
    (\<exists>x. worker_at (db w') wid = Some x \<and> w_status x = Idle \<and> w_current_job x = None) \<and>
    f' = (\<lambda>q. if under (work_dir cfg e J) q then None else f q)"
proof -
  let ?dir = "work_dir cfg e J" and ?j1 = "(claim_row A j)\<lparr>j_updated_at := clock w\<rparr>"
  obtain d1 where claim: "markProcessing cfg wid A J w = (Inr (Some A), w\<lparr>db := d1\<rparr>)" "world_ok (w\<lparr>db := d1\<rparr>)"
    and d1: "job_at d1 J = Some ?j1" "job_outputs d1 = job_outputs (db w)" "workers d1 = workers (db w)"
    using claim_answered [OF reachable_ok [OF assms(1)] assms(2-4,6,7,5,8)] by blast
  obtain d2 where busy: "pg (setWorkerBusy wid J) (w\<lparr>db := d1\<rparr>) = (Inr (), w\<lparr>db := d2\<rparr>)" "world_ok (w\<lparr>db := d2\<rparr>)"
    and d2: "job_at d2 = job_at d1" "job_outputs d2 = job_outputs (db w)" "worker_at d2 wid \<noteq> None"
    using busy_answered [OF claim(2), of J wid] assms(2,6) d1 by (auto simp: worker_at_def)
  obtain w3 f3 where run: "run_phases cfg e msg A ?dir (w\<lparr>db := d2\<rparr>, f) = (Inr (), (w3, f3))" "net w3 = []" "workers (db w3) = workers d2"
    and job: "job_at (db w3) J = Some ((complete_row (clock w) A ?j1)\<lparr>j_updated_at := clock w\<rparr>)"
    and rows: "map o_type (outputs_of J (db w3)) = output_types"
      "map o_cdn_url (outputs_of J (db w3)) = map (\<lambda>ty. cdnURL cfg (object_key cfg J A (output_type_text ty))) output_types"
    and obj: "\<forall>ty \<in> set output_types. \<exists>o'. objs w3 (object_key cfg J A (output_type_text ty)) = Some o' \<and> content o' = enc (output_type_text ty) (content ob)"
    and outside: "\<forall>q. \<not> under ?dir q \<longrightarrow> f3 q = f q"
    using run_phases_answered [where f = f and msg = msg and dir = ?dir and ob = ob and cfg = cfg and j = ?j1
        and d = "if TempDir cfg = '''' then osTempDir e else TempDir cfg", OF busy(2) _ _ _ _ assms(9,11,12) _ assms(13,14)]
      assms(2,10,15) d1(1) d2 by (auto simp: work_dir_def claim_row_def fresh_ids_def)
  let ?f' = "\<lambda>q. if under ?dir q then None else f3 q"
  have rj: "runJob cfg e msg A (w\<lparr>db := d2\<rparr>, f) = (Inr (), (w3, ?f'))"
    using assms(2,9) run by (simp add: runJob_def Let_def and_then_def wrap_err_def os_answered deferred_def)
  obtain d4 where idle: "log_err (pg (setWorkerIdle wid)) w3 = (Inr (), w3\<lparr>db := d4\<rparr>)" "job_at d4 = job_at (db w3)"
    "job_outputs d4 = job_outputs (db w3)" "\<exists>x. worker_at d4 wid = Some x \<and> w_status x = Idle \<and> w_current_job x = None"
    using idle_answered [OF run(2), of wid] d2(3) run(3) by (auto simp: worker_at_def)
  have "processJob cfg wid txt e A msg (w, f) = (Inr (), (w3\<lparr>db := d4\<rparr>, ?f'))"
    by (simp add: processJob_def and_then_def on_world_def claim(1) assms(9) busy(1) deferred_def rj idle(1))
  moreover have "?f' = (\<lambda>q. if under ?dir q then None else f q)" using outside by auto
  ultimately show ?thesis
    using job rows obj idle run(2)
    by (intro exI [of _ "w3\<lparr>db := d4\<rparr>"] exI [of _ ?f'] conjI) (simp_all add: outputs_of_def complete_row_def)
qed

text \<open>
  C22. A queued job runs to completion: when the calls are answered and ffmpeg transcodes,
  \<open>processJob\<close> claims the job, publishes one output per type under the attempt's own object keys,
  completes the job, leaves the worker idle and removes the working directory, touching no other
  file; in sequential mode and in parallel mode with the goroutines in any order.
\<close>

theorem job_runs_to_completion:
  assumes "reachable w" and "net w = []" and "job_at (db w) J = Some j" and "j_status j = Queued"
    and "j_retry_count j < 2 ^ 31 - 1" and "worker_at (db w) wid \<noteq> None" and "attempt_at (db w) A = None" and "A \<noteq> ''''"
    and "JobID msg = J" and "objs w (MsgInputFile msg) = Some ob" and "plain_name J" and "transcodes (ffmpeg e) enc"
    and "ProcessingMode cfg = processingModeSequential \<or> any_order (ffmpeg_order e)" and "any_order (upload_order e)"
    and "fresh_ids (output_ids e) (db w)"
  shows "\<exists>w' f'. processJob cfg wid txt e A msg (w, f) = (Inr (), (w', f')) \<and>
    (\<exists>j'. job_at (db w') J = Some j' \<and> j_status j' = Completed \<and> j_completed_attempt j' = Some A) \<and>
    map o_type (outputs_of J (db w')) = [Video360, Video720, Video1080, Thumbnail] \<and>
    map o_cdn_url (outputs_of J (db w')) = map (\<lambda>ty. cdnURL cfg (object_key cfg J A (output_type_text ty))) output_types \<and>
    (\<forall>ty \<in> set output_types. \<exists>o'. objs w' (object_key cfg J A (output_type_text ty)) = Some o' \<and>
        content o' = enc (output_type_text ty) (content ob)) \<and>
    (\<exists>x. worker_at (db w') wid = Some x \<and> w_status x = Idle \<and> w_current_job x = None) \<and>
    f' = (\<lambda>q. if under (work_dir cfg e J) q then None else f q)"
  using processJob_completes [OF assms, of _ f] unfolding output_types_def [symmetric] by blast

text \<open>An ffmpeg that writes one byte, and a world with the uploaded file.\<close>

definition sample_ffmpeg :: ffmpeg_program where
  "sample_ffmpeg path args f = (Inr (), f(last args \<mapsto> ''x''))"

lemma sample_ffmpeg_transcodes: "transcodes sample_ffmpeg (\<lambda>_ _. ''x'')"
  by (auto simp: transcodes_def sample_ffmpeg_def tasks_def scale_args_def thumbnail_args_def)

definition sample_env :: job_env where
  "sample_env = \<lparr>ffmpeg = sample_ffmpeg, osTempDir = ''/tmp'', ffmpeg_order = [2, 0, 3, 1], upload_order = [3, 2, 1, 0],
     output_ids = [''o1'', ''o2'', ''o3'', ''o4'']\<rparr>"

definition w_uploaded :: world where
  "w_uploaded = w_queued\<lparr>objs := [''raw/j1.mp4'' \<mapsto> \<lparr>content = ''v'', content_type = ''video/mp4'', cache_control = ''''\<rparr>]\<rparr>"

lemma w_uploaded_reachable: "reachable w_uploaded"
  by (rule reachable_steps [OF w_queued_reachable]) (rule environment_steps; simp add: w_uploaded_def)

theorem job_runs_to_completion_witness:
  "\<exists>w' f'. processJob worker0 ''w1'' (\<lambda>_. '''') sample_env ''a1''
      \<lparr>JobID = ''j1'', MsgInputFile = ''raw/j1.mp4'', MsgPriority = 5, EnqueuedAt = zero_time\<rparr> (w_uploaded, \<lambda>_. None) = (Inr (), (w', f')) \<and>
    map o_type (outputs_of ''j1'' (db w')) = [Video360, Video720, Video1080, Thumbnail] \<and> f' = (\<lambda>_. None)"
proof -
  let ?msg = "\<lparr>JobID = ''j1'', MsgInputFile = ''raw/j1.mp4'', MsgPriority = 5, EnqueuedAt = zero_time\<rparr>"
  have w: "net w_uploaded = []" "job_at (db w_uploaded) ''j1'' = Some sample_row" "j_status sample_row = Queued"
    "j_retry_count sample_row < 2 ^ 31 - 1" "worker_at (db w_uploaded) ''w1'' \<noteq> None" "attempt_at (db w_uploaded) ''a1'' = None"
    "''a1'' \<noteq> ''''" "JobID ?msg = ''j1''"
    "objs w_uploaded (MsgInputFile ?msg) = Some \<lparr>content = ''v'', content_type = ''video/mp4'', cache_control = ''''\<rparr>"
    "plain_name ''j1''"
    by (simp_all add: w_uploaded_def sample_defs plain_name_def)
  have e: "transcodes (ffmpeg sample_env) (\<lambda>_ _. ''x'')"
    "ProcessingMode worker0 = processingModeSequential \<or> any_order (ffmpeg_order sample_env)" "any_order (upload_order sample_env)"
    "fresh_ids (output_ids sample_env) (db w_uploaded)"
    using sample_ffmpeg_transcodes
    by (auto simp: sample_env_def any_order_def length_tasks fresh_ids_def w_uploaded_def sample_defs)
  from job_runs_to_completion [OF w_uploaded_reachable w e, of "\<lambda>_. ''''" "\<lambda>_. None"] show ?thesis by auto
qed



lemma append_no_slash:
  assumes "a @ CHR ''/'' # x = b @ CHR ''/'' # y" and "CHR ''/'' \<notin> set a" and "CHR ''/'' \<notin> set b"
  shows "a = b \<and> x = y"
  using assms
proof (induction a arbitrary: b)
  case Nil
  then show ?case by (cases b) auto
next
  case (Cons c a)
  then show ?case by (cases b) auto
qed

text \<open>
  C24. Attempts never write over each other's objects: two outputs have the same object key only
  if they are the same output of the same attempt of the same job, identifiers having no slash;
  so an upload of a stale attempt cannot change what the completing attempt published.
\<close>

theorem object_keys_are_attempt_scoped:
  assumes "plain_name J" and "plain_name J'" and "plain_name A" and "plain_name A'"
  shows "object_key cfg J A ty = object_key cfg J' A' ty' \<longleftrightarrow> J = J' \<and> A = A' \<and> ty = ty'"
proof
  assume "object_key cfg J A ty = object_key cfg J' A' ty'"
  then have "J @ CHR ''/'' # (A @ CHR ''/'' # ty) = J' @ CHR ''/'' # (A' @ CHR ''/'' # ty')" by (simp add: object_key_def)
  with assms have "J = J' \<and> A @ CHR ''/'' # ty = A' @ CHR ''/'' # ty'" by (intro append_no_slash) (auto simp: plain_name_def)
  with assms show "J = J' \<and> A = A' \<and> ty = ty'" using append_no_slash [of A ty A' ty'] by (simp add: plain_name_def)
qed simp

theorem object_keys_are_attempt_scoped_witness:
  "object_key worker0 ''j1'' ''a1'' ''thumbnail'' \<noteq> object_key worker0 ''j1'' ''a2'' ''thumbnail''"
  using object_keys_are_attempt_scoped [of "''j1''" "''j1''" "''a1''" "''a2''" worker0 "''thumbnail''" "''thumbnail''"]
  by (simp add: plain_name_def)

text \<open>
  A whole turn of a worker, with polling, claiming, downloading, transcoding, uploading, completing
  or failing, keeps the invariant, whatever the services, the file system and ffmpeg do.
\<close>

lemma worker_turn_keeps_invariant:
  assumes "world_ok w" and "A \<noteq> ''''"
  shows "world_ok (fst (worker_turn cfg wid txt e A (w, f)))"
  by (rule sys.inv_run [OF _ assms(1)]) (use worker_turn_runs [OF assms(2), where s = "(w, f)"] in \<open>simp add: msteps_def\<close>)

end
