(* ===== verification/Go_Reader.thy ===== *)
theory Go_Reader
  imports Go_Text
begin

text \<open>
  Go's \<open>io.Reader\<close>s as the upload handler composes them. A \<open>Source\<close> is the stream of a request:
  the chunks in which its bytes arrive, the error it ends with (\<open>io.EOF\<close> when it is complete) and
  whether that error comes together with the last bytes, as \<open>io.Reader\<close> allows. On it stand
  \<open>io.MultiReader\<close>, \<open>io.LimitReader\<close> and the handler's own \<open>sizeLimitedReader\<close>. One \<open>Read\<close> with
  a buffer of \<open>k\<close> bytes returns the bytes read, an error or none, and the reader left.

  \<open>yields r bs e\<close> is the contract of a reader: it delivers the bytes \<open>bs\<close> and then the error \<open>e\<close>,
  whatever buffers it is read with. \<open>io.ReadAll\<close> and \<open>io.ReadFull\<close> are total on these readers.
\<close>

named_theorems reader_simps \<open>what a reader delivers\<close>

datatype reader =
    Source "string list" go_error bool
  | MultiReader "reader list"
  | LimitReader reader int
  | sizeLimitedReader reader int int

text \<open>\<open>sizeLimitedReader r limit read\<close> has the fields of the structure in the source.\<close>

type_synonym read_result = "(string \<times> go_error option) \<times> reader"

fun Source_Read :: "nat \<Rightarrow> string list \<Rightarrow> go_error \<Rightarrow> bool \<Rightarrow> read_result" where
  "Source_Read k [] e eager = (([], Some e), Source [] e eager)"
| "Source_Read k (c # cs) e eager =
     (if k < length c then ((take k c, None), Source (drop k c # cs) e eager)
      else if cs = [] \<and> eager then ((c, Some e), Source [] e eager)
      else ((c, None), Source cs e eager))"

text \<open>
  \<open>sizeLimitedReader.Read\<close>, given the \<open>Read\<close> of the underlying reader: at the limit one more byte
  is asked for, and its presence is the error; below it at most the remaining bytes are read.
\<close>

definition sizeLimited_Read :: "(nat \<Rightarrow> read_result) \<Rightarrow> nat \<Rightarrow> int \<Rightarrow> int \<Rightarrow> read_result" where
  "sizeLimited_Read inner k limit read =
     (if limit \<le> read
      then (case inner 1 of
              ((probe, err), r') \<Rightarrow>
                (if probe \<noteq> [] then (([], Some ErrUploadTooLarge), sizeLimitedReader r' limit read)
                 else (([], err), sizeLimitedReader r' limit read)))
      else (let remaining = limit - read;
                k' = (if remaining < int k then nat remaining else k)
            in case inner k' of
                 ((bs, err), r') \<Rightarrow> ((bs, err), sizeLimitedReader r' limit (read + int (length bs)))))"

fun Read :: "nat \<Rightarrow> reader \<Rightarrow> read_result" where
  "Read k (Source cs e eager) = Source_Read k cs e eager"
| "Read k (MultiReader []) = (([], Some ErrEOF), MultiReader [])"
| "Read k (MultiReader (r # rs)) =
     (case Read k r of
        ((bs, Some e), r') \<Rightarrow>
          (if e = ErrEOF
           then (if bs = [] then Read k (MultiReader rs)
                 else ((bs, if rs = [] then Some ErrEOF else None), MultiReader rs))
           else ((bs, Some e), MultiReader (r' # rs)))
      | ((bs, None), r') \<Rightarrow> ((bs, None), MultiReader (r' # rs)))"
| "Read k (LimitReader r n) =
     (if n \<le> 0 then (([], Some ErrEOF), LimitReader r n)
      else (case Read (if n < int k then nat n else k) r of
              ((bs, err), r') \<Rightarrow> ((bs, err), LimitReader r' (n - int (length bs)))))"
| "Read k (sizeLimitedReader r limit read) = sizeLimited_Read (\<lambda>k. Read k r) k limit read"

text \<open>How many more reads may return without an error, given buffers that are not empty.\<close>

fun read_rank :: "reader \<Rightarrow> nat" where
  "read_rank (Source cs e eager) = sum_list (map (\<lambda>c. Suc (length c)) cs)"
| "read_rank (MultiReader []) = 0"
| "read_rank (MultiReader (r # rs)) = Suc (read_rank r + read_rank (MultiReader rs))"
| "read_rank (LimitReader r n) = read_rank r"
| "read_rank (sizeLimitedReader r limit read) = read_rank r"

lemma Source_Read_rank:
  "0 < k \<Longrightarrow> Source_Read k cs e eager = ((bs, err), r') \<Longrightarrow>
     read_rank r' \<le> read_rank (Source cs e eager) \<and> (err = None \<longrightarrow> read_rank r' < read_rank (Source cs e eager))"
  by (cases cs) (auto split: if_splits)

lemma Read_rank:
  "0 < k \<Longrightarrow> Read k r = ((bs, err), r') \<Longrightarrow>
     read_rank r' \<le> read_rank r \<and> (err = None \<longrightarrow> read_rank r' < read_rank r)"
proof (induction k r arbitrary: bs err r' rule: Read.induct)
  case (1 k cs e eager)
  then show ?case using Source_Read_rank by simp
next
  case (3 k r rs)
  obtain bs1 err1 r1 where r1: "Read k r = ((bs1, err1), r1)" by (metis prod.exhaust)
  from 3(1) [OF 3(3) r1] have "read_rank r1 \<le> read_rank r" "err1 = None \<Longrightarrow> read_rank r1 < read_rank r" by auto
  moreover have "read_rank r' \<le> read_rank (MultiReader rs) \<and> (err = None \<longrightarrow> read_rank r' < read_rank (MultiReader rs))"
    if "err1 = Some ErrEOF" "bs1 = []" using that 3 r1 by auto
  ultimately show ?case using 3(4) r1 by (auto split: if_splits option.splits)
next
  case (4 k r n)
  then show ?case by (auto split: if_splits prod.splits)
next
  case (5 k r limit read)
  have "0 < (if limit - read < int k then nat (limit - read) else k)" if "\<not> limit \<le> read" using that 5 by simp
  with 5 show ?case
    by (auto simp: sizeLimited_Read_def Let_def split: if_splits prod.splits dest!: "5.IH" [rotated])
qed simp

subsection \<open>What a reader delivers\<close>

inductive yields :: "reader \<Rightarrow> string \<Rightarrow> go_error \<Rightarrow> bool" where
  source: "yields (Source cs e eager) (concat cs) e"
| multi_end: "yields (MultiReader []) [] ErrEOF"
| multi_error: "yields r bs e \<Longrightarrow> e \<noteq> ErrEOF \<Longrightarrow> yields (MultiReader (r # rs)) bs e"
| multi_next: "yields r bs ErrEOF \<Longrightarrow> yields (MultiReader rs) bs' e \<Longrightarrow> yields (MultiReader (r # rs)) (bs @ bs') e"
| limit_all: "yields r bs e \<Longrightarrow> int (length bs) \<le> n \<Longrightarrow> yields (LimitReader r n) bs e"
| limit_cut: "yields r bs e \<Longrightarrow> n \<le> int (length bs) \<Longrightarrow> yields (LimitReader r n) (take (nat n) bs) ErrEOF"
| size_ok: "yields r bs e \<Longrightarrow> int (length bs) \<le> max 0 (limit - read) \<Longrightarrow> yields (sizeLimitedReader r limit read) bs e"
| size_exceeded: "yields r bs e \<Longrightarrow> max 0 (limit - read) < int (length bs) \<Longrightarrow>
    yields (sizeLimitedReader r limit read) (take (nat (limit - read)) bs) ErrUploadTooLarge"

inductive_cases yields_SourceE: "yields (Source cs e eager) bs e'"
inductive_cases yields_MultiE: "yields (MultiReader rs) bs e"
inductive_cases yields_LimitE: "yields (LimitReader r n) bs e"
inductive_cases yields_sizeE: "yields (sizeLimitedReader r limit read) bs e"

lemma yields_exists: "\<exists>bs e. yields r bs e"
proof (induction r rule: read_rank.induct)
  case (3 r rs)
  then obtain bs e bs' e' where "yields r bs e" "yields (MultiReader rs) bs' e'" by blast
  then show ?case by (cases "e = ErrEOF") (blast intro: yields.intros)+
next
  case (4 r n)
  then obtain bs e where "yields r bs e" by blast
  then show ?case by (cases "int (length bs) \<le> n") (use linear in \<open>blast intro: yields.intros\<close>)+
next
  case (5 r limit read)
  then obtain bs e where "yields r bs e" by blast
  then show ?case by (cases "int (length bs) \<le> max 0 (limit - read)") (use not_le in \<open>blast intro: yields.intros\<close>)+
qed (auto intro: yields.intros)

lemma yields_Source [reader_simps]: "yields (Source cs e eager) bs e' \<longleftrightarrow> bs = concat cs \<and> e' = e"
  by (auto elim: yields_SourceE intro: source)

text \<open>A read that fails ends what the reader delivers; a read that does not takes its front.\<close>

definition read_agrees :: "nat \<Rightarrow> reader \<Rightarrow> read_result \<Rightarrow> bool" where
  "read_agrees k r res \<longleftrightarrow>
     (case res of ((bs, err), r') \<Rightarrow> length bs \<le> k \<and>
       (case err of Some e \<Rightarrow> yields r bs e | None \<Rightarrow> (\<forall>bs' e. yields r' bs' e \<longrightarrow> yields r (bs @ bs') e)))"

lemma Source_Read_agrees: "read_agrees k (Source cs e eager) (Source_Read k cs e eager)"
proof (cases cs)
  case (Cons c cs')
  moreover have "take k c @ drop k c @ concat cs' = concat cs" using Cons by simp
  ultimately show ?thesis by (auto simp: read_agrees_def reader_simps)
qed (auto simp: read_agrees_def reader_simps)

lemma limit_agrees:
  assumes "read_agrees k' r ((bs, err), r')" and "k' \<le> k" and "int k' \<le> n" and "0 < n"
  shows "read_agrees k (LimitReader r n) ((bs, err), LimitReader r' (n - int (length bs)))"
proof -
  from assms have len: "length bs \<le> k'" by (simp add: read_agrees_def)
  show ?thesis
  proof (cases err)
    case (Some e)
    with assms len show ?thesis by (auto simp: read_agrees_def intro: limit_all)
  next
    case None
    with assms have yr: "\<And>bs' e. yields r' bs' e \<Longrightarrow> yields r (bs @ bs') e" by (simp add: read_agrees_def)
    have "yields (LimitReader r n) (bs @ bs') e" if "yields (LimitReader r' (n - int (length bs))) bs' e" for bs' e
      using that
    proof (cases rule: yields_LimitE [consumes 1])
      case 1
      then show ?thesis by (intro limit_all [OF yr]) auto
    next
      case (2 x e')
      then have "yields (LimitReader r n) (take (nat n) (bs @ x)) ErrEOF" by (intro limit_cut [OF yr]) auto
      moreover have "take (nat n) (bs @ x) = bs @ bs'" using 2 assms len by (simp add: nat_diff_distrib)
      ultimately show ?thesis using 2 by simp
    qed
    with None len assms show ?thesis by (simp add: read_agrees_def)
  qed
qed

lemma size_agrees:
  assumes "read_agrees k' r ((bs, err), r')" and "k' \<le> k" and "int k' \<le> limit - read"
  shows "read_agrees k (sizeLimitedReader r limit read) ((bs, err), sizeLimitedReader r' limit (read + int (length bs)))"
proof -
  from assms have len: "length bs \<le> k'" by (simp add: read_agrees_def)
  show ?thesis
  proof (cases err)
    case (Some e)
    with assms len show ?thesis by (auto simp: read_agrees_def intro: size_ok)
  next
    case None
    with assms have yr: "\<And>bs' e. yields r' bs' e \<Longrightarrow> yields r (bs @ bs') e" by (simp add: read_agrees_def)
    have "yields (sizeLimitedReader r limit read) (bs @ bs') e"
      if "yields (sizeLimitedReader r' limit (read + int (length bs))) bs' e" for bs' e
      using that
    proof (cases rule: yields_sizeE [consumes 1])
      case 1
      then show ?thesis using assms len by (intro size_ok [OF yr]) auto
    next
      case (2 x e')
      then have "yields (sizeLimitedReader r limit read) (take (nat (limit - read)) (bs @ x)) ErrUploadTooLarge"
        using assms len by (intro size_exceeded [OF yr]) auto
      moreover have "take (nat (limit - read)) (bs @ x) = bs @ bs'"
        using 2 assms len by (simp add: nat_diff_distrib diff_diff_eq [symmetric])
      ultimately show ?thesis using 2 by simp
    qed
    with None len assms show ?thesis by (simp add: read_agrees_def)
  qed
qed

lemma probe_agrees:
  assumes "read_agrees 1 r ((probe, err), r')" and "limit \<le> read"
  shows "read_agrees k (sizeLimitedReader r limit read)
    ((if probe \<noteq> [] then ([], Some ErrUploadTooLarge) else ([], err)), sizeLimitedReader r' limit read)"
proof (cases "probe = []")
  case True
  have "yields (sizeLimitedReader r limit read) bs e"
    if yr: "\<And>bs' e. yields r' bs' e \<Longrightarrow> yields r bs' e" and y: "yields (sizeLimitedReader r' limit read) bs e" for bs e
    using y by (cases rule: yields_sizeE [consumes 1]) (auto intro: size_ok [OF yr] size_exceeded [OF yr])
  with True assms show ?thesis by (auto simp: read_agrees_def intro: size_ok split: option.splits)
next
  case False
  obtain x e where "yields r' x e" using yields_exists by blast
  with assms False obtain y e' where y: "yields r y e'" "y \<noteq> []" by (cases err) (auto simp: read_agrees_def)
  then have "yields (sizeLimitedReader r limit read) (take (nat (limit - read)) y) ErrUploadTooLarge"
    using assms(2) by (intro size_exceeded) auto
  with False assms show ?thesis by (simp add: read_agrees_def)
qed

lemma sizeLimited_Read_agrees:
  assumes "\<And>k. read_agrees k r (inner k)"
  shows "read_agrees k (sizeLimitedReader r limit read) (sizeLimited_Read inner k limit read)"
proof (cases "limit \<le> read")
  case True
  obtain probe err r' where i: "inner 1 = ((probe, err), r')" by (metis prod.exhaust)
  with assms [of 1] probe_agrees [OF _ True] show ?thesis by (fastforce simp: sizeLimited_Read_def True)
next
  case False
  define k' where "k' = (if limit - read < int k then nat (limit - read) else k)"
  obtain bs err r' where i: "inner k' = ((bs, err), r')" by (metis prod.exhaust)
  have "read_agrees k (sizeLimitedReader r limit read) ((bs, err), sizeLimitedReader r' limit (read + int (length bs)))"
    using assms [of k'] i False by (intro size_agrees [of k']) (auto simp: k'_def)
  with i False show ?thesis by (simp add: sizeLimited_Read_def Let_def k'_def [symmetric])
qed

lemma multi_agrees:
  assumes one: "read_agrees k r (Read k r)"
    and rest: "fst (Read k r) = ([], Some ErrEOF) \<Longrightarrow> read_agrees k (MultiReader rs) (Read k (MultiReader rs))"
  shows "read_agrees k (MultiReader (r # rs)) (Read k (MultiReader (r # rs)))"
proof -
  obtain bs err r' where r: "Read k r = ((bs, err), r')" by (metis prod.exhaust)
  note a = one [unfolded r]
  consider "err = None" | "err = Some ErrEOF" "bs = []" | "err = Some ErrEOF" "bs \<noteq> []" "rs = []"
    | "err = Some ErrEOF" "bs \<noteq> []" "rs \<noteq> []" | e where "err = Some e" "e \<noteq> ErrEOF"
    by (cases err) blast+
  then show ?thesis
  proof cases
    case 1
    with a have yr: "\<And>bs' e. yields r' bs' e \<Longrightarrow> yields r (bs @ bs') e" by (simp add: read_agrees_def)
    have "yields (MultiReader (r # rs)) (bs @ bs') e" if "yields (MultiReader (r' # rs)) bs' e" for bs' e
      using that
    proof (cases rule: yields_MultiE [consumes 1])
      case (3 r0 x rs0 y)
      then show ?thesis using multi_next [OF yr, of x rs y e] by simp
    qed (auto intro: multi_error yr)
    with 1 a r show ?thesis by (simp add: read_agrees_def)
  next
    case 2
    then have y: "yields r [] ErrEOF" using a by (simp add: read_agrees_def)
    obtain bs2 err2 r2 where q: "Read k (MultiReader rs) = ((bs2, err2), r2)" by (metis prod.exhaust)
    have "read_agrees k (MultiReader rs) ((bs2, err2), r2)" using rest r 2 q by simp
    then have "read_agrees k (MultiReader (r # rs)) ((bs2, err2), r2)"
      using multi_next [OF y] by (auto simp: read_agrees_def split: option.splits)
    with 2 r q show ?thesis by simp
  next
    case 3
    with a have "yields r bs ErrEOF" by (simp add: read_agrees_def)
    from multi_next [OF this multi_end] a 3 r show ?thesis by (simp add: read_agrees_def)
  next
    case 4
    with a have "yields r bs ErrEOF" by (simp add: read_agrees_def)
    from multi_next [OF this] a 4 r show ?thesis by (simp add: read_agrees_def)
  next
    case 5
    with a r show ?thesis by (auto simp: read_agrees_def intro: multi_error)
  qed
qed

lemma Read_agrees: "read_agrees k r (Read k r)"
proof (induction k r rule: Read.induct)
  case (3 k r rs)
  then show ?case by (intro multi_agrees) (metis prod.collapse fst_conv)+
next
  case (4 k r n)
  obtain bs e where y: "yields r bs e" using yields_exists by blast
  define k' where "k' = (if n < int k then nat n else k)"
  obtain bs1 err r' where r: "Read k' r = ((bs1, err), r')" by (metis prod.exhaust)
  show ?case
  proof (cases "n \<le> 0")
    case True
    with limit_cut [OF y, of n] show ?thesis by (simp add: read_agrees_def)
  next
    case False
    then have "read_agrees k (LimitReader r n) ((bs1, err), LimitReader r' (n - int (length bs1)))"
      using 4 r by (intro limit_agrees [of k']) (auto simp: k'_def)
    with False r show ?thesis by (simp add: k'_def [symmetric])
  qed
qed (auto simp: Source_Read_agrees sizeLimited_Read_agrees intro: multi_end simp: read_agrees_def [of _ "MultiReader []"])

subsection \<open>io.ReadAll\<close>

text \<open>
  \<open>io.ReadAll\<close>: read until an error, which is dropped when it is \<open>io.EOF\<close>. The size of the buffer
  after \<open>n\<close> bytes is \<open>buf n\<close>, at least one byte, so that the same loop covers every reading client.
\<close>

function ReadAll :: "(nat \<Rightarrow> nat) \<Rightarrow> string \<Rightarrow> reader \<Rightarrow> string \<times> go_error option" where
  "ReadAll buf acc r =
     (case Read (max 1 (buf (length acc))) r of
        ((bs, None), r') \<Rightarrow> ReadAll buf (acc @ bs) r'
      | ((bs, Some e), r') \<Rightarrow> (acc @ bs, if e = ErrEOF then None else Some e))"
  by pat_completeness auto
termination
proof (relation "measure (\<lambda>(buf, acc, r). read_rank r)")
  fix buf :: "nat \<Rightarrow> nat" and acc bs :: string and r r' :: reader and x :: "string \<times> go_error option" and y
  assume "(x, r') = Read (max 1 (buf (length acc))) r" and "(bs, y) = x" and "y = None"
  then show "((buf, acc @ bs, r'), buf, acc, r) \<in> measure (\<lambda>(buf, acc, r). read_rank r)"
    using Read_rank [of "max 1 (buf (length acc))" r bs None r'] by simp
qed simp

declare ReadAll.simps [simp del]

lemma ReadAll_yields:
  "ReadAll buf acc r = (bs, err) \<Longrightarrow> \<exists>bs' e. yields r bs' e \<and> bs = acc @ bs' \<and> err = (if e = ErrEOF then None else Some e)"
proof (induction buf acc r arbitrary: bs err rule: ReadAll.induct)
  case (1 buf acc r)
  obtain bs1 err1 r1 where r: "Read (max 1 (buf (length acc))) r = ((bs1, err1), r1)" by (metis prod.exhaust)
  have a: "read_agrees (max 1 (buf (length acc))) r ((bs1, err1), r1)" using Read_agrees r by metis
  show ?case
  proof (cases err1)
    case (Some e)
    with a r "1.prems" show ?thesis
      by (intro exI [of _ bs1] exI [of _ e]) (auto simp: ReadAll.simps [of buf acc r] read_agrees_def)
  next
    case None
    with r "1.prems" have "ReadAll buf (acc @ bs1) r1 = (bs, err)" by (simp add: ReadAll.simps [of buf acc r])
    with "1.IH" r None obtain bs' e where
      "yields r1 bs' e" "bs = (acc @ bs1) @ bs'" "err = (if e = ErrEOF then None else Some e)" by fastforce
    with a None show ?thesis by (auto simp: read_agrees_def)
  qed
qed

subsection \<open>io.ReadFull\<close>

text \<open>
  \<open>io.ReadFull\<close> of a buffer of \<open>n\<close> bytes: read until it is full or an error comes. An error that
  comes with the last byte needed is dropped, an end of the stream in the middle is
  \<open>io.ErrUnexpectedEOF\<close>.
\<close>

function ReadFull :: "nat \<Rightarrow> string \<Rightarrow> reader \<Rightarrow> read_result" where
  "ReadFull n acc r =
     (if n \<le> length acc then ((acc, None), r)
      else case Read (n - length acc) r of
        ((bs, None), r') \<Rightarrow> ReadFull n (acc @ bs) r'
      | ((bs, Some e), r') \<Rightarrow>
          ((acc @ bs,
            if n \<le> length (acc @ bs) then None
            else if acc @ bs \<noteq> [] \<and> e = ErrEOF then Some ErrUnexpectedEOF else Some e), r'))"
  by pat_completeness auto
termination
proof (relation "measure (\<lambda>(n, acc, r). read_rank r)")
  fix n and acc bs :: string and r r' :: reader and x :: "string \<times> go_error option" and y
  assume "\<not> n \<le> length acc" and "(x, r') = Read (n - length acc) r" and "(bs, y) = x" and "y = None"
  then show "((n, acc @ bs, r'), n, acc, r) \<in> measure (\<lambda>(n, acc, r). read_rank r)"
    using Read_rank [of "n - length acc" r bs None r'] by simp
qed simp

declare ReadFull.simps [simp del]

text \<open>What it takes from a source, and what the source still holds.\<close>

lemma Source_Read_cases:
  assumes "0 < k"
  obtains (end_of) "concat cs = []" "cs = []" "Source_Read k cs e eager = (([], Some e), Source [] e eager)"
  | (last_chunk) c where "cs = [c]" "length c \<le> k" "Source_Read k cs e eager = ((c, Some e), Source [] e eager)"
  | (more) bs cs' where "Source_Read k cs e eager = ((bs, None), Source cs' e eager)" "concat cs = bs @ concat cs'" "length bs \<le> k"
proof (cases cs)
  case Nil
  then show ?thesis using end_of by simp
next
  case (Cons c cs')
  consider "k < length c" | "length c \<le> k" "cs' = []" "eager" | "length c \<le> k" "\<not> (cs' = [] \<and> eager)" by fastforce
  then show ?thesis
  proof cases
    case 1
    then show ?thesis using Cons by (intro more [of "take k c" "drop k c # cs'"]) auto
  next
    case 2
    then show ?thesis using Cons by (intro last_chunk [of c]) auto
  next
    case 3
    then show ?thesis using Cons by (intro more [of c cs']) auto
  qed
qed

lemma ReadFull_Source:
  assumes "length acc \<le> n"
  shows "\<exists>cs'. ReadFull n acc (Source cs e eager) =
      ((take n (acc @ concat cs),
        if n \<le> length (acc @ concat cs) then None
        else if acc @ concat cs \<noteq> [] \<and> e = ErrEOF then Some ErrUnexpectedEOF else Some e), Source cs' e eager)
    \<and> concat cs' = drop (n - length acc) (concat cs)"
  using assms
proof (induction "read_rank (Source cs e eager)" arbitrary: acc cs rule: less_induct)
  case less
  show ?case
  proof (cases "n \<le> length acc")
    case True
    with less.prems show ?thesis by (simp add: ReadFull.simps)
  next
    case False
    then have "0 < n - length acc" by simp
    then show ?thesis
    proof (cases rule: Source_Read_cases [of _ cs e eager])
      case end_of
      with False show ?thesis by (auto simp: ReadFull.simps [of n acc])
    next
      case (last_chunk c)
      with False show ?thesis by (auto simp: ReadFull.simps [of n acc])
    next
      case (more bs cs')
      have "read_rank (Source cs' e eager) < read_rank (Source cs e eager)"
        using Source_Read_rank [of "n - length acc" cs e eager bs None] False more by simp
      moreover have "length (acc @ bs) \<le> n" using more False by simp
      ultimately obtain cs2 where
        "ReadFull n (acc @ bs) (Source cs' e eager) =
          ((take n ((acc @ bs) @ concat cs'),
            if n \<le> length ((acc @ bs) @ concat cs') then None
            else if (acc @ bs) @ concat cs' \<noteq> [] \<and> e = ErrEOF then Some ErrUnexpectedEOF else Some e), Source cs2 e eager)
          \<and> concat cs2 = drop (n - length (acc @ bs)) (concat cs')"
        using less.hyps [of cs' "acc @ bs"] by blast
      with more False show ?thesis by (auto simp: ReadFull.simps [of n acc])
    qed
  qed
qed

subsection \<open>Readers over sources\<close>

definition bytes_reader :: "string \<Rightarrow> reader" where
  "bytes_reader bs = Source (if bs = [] then [] else [bs]) ErrEOF False"

lemma yields_prefixed [reader_simps]:
  "yields (MultiReader [bytes_reader h, Source cs e eager]) bs e' \<longleftrightarrow> bs = h @ concat cs \<and> e' = e"
proof
  assume "yields (MultiReader [bytes_reader h, Source cs e eager]) bs e'"
  then show "bs = h @ concat cs \<and> e' = e"
    by (auto simp: bytes_reader_def reader_simps elim!: yields_MultiE split: if_splits)
next
  assume bs: "bs = h @ concat cs \<and> e' = e"
  have h: "yields (bytes_reader h) h ErrEOF" by (simp add: bytes_reader_def reader_simps)
  have s: "yields (Source cs e eager) (concat cs) e" by (simp add: reader_simps)
  have "yields (MultiReader [Source cs e eager]) (concat cs) e"
  proof (cases "e = ErrEOF")
    case True
    with multi_next [OF s [unfolded True] multi_end] show ?thesis by (simp add: True)
  qed (rule multi_error [OF s])
  with multi_next [OF h] bs show "yields (MultiReader [bytes_reader h, Source cs e eager]) bs e'" by simp
qed

lemma ReadAll_limited:
  "ReadAll buf [] (LimitReader (Source cs e eager) n) = (bs, None) \<Longrightarrow> bs = take (nat n) (concat cs)"
  by (drule ReadAll_yields) (auto simp: reader_simps elim!: yields_LimitE split: if_splits)

lemma ReadAll_sized:
  assumes "\<And>bs e'. yields r bs e' \<longleftrightarrow> bs = body \<and> e' = e"
  shows "ReadAll buf [] (sizeLimitedReader r limit 0) =
     (if int (length body) \<le> max 0 limit then (body, if e = ErrEOF then None else Some e)
      else (take (nat limit) body, Some ErrUploadTooLarge))"
proof -
  obtain bs err where r: "ReadAll buf [] (sizeLimitedReader r limit 0) = (bs, err)" by fastforce
  then obtain e' where "yields (sizeLimitedReader r limit 0) bs e'" "err = (if e' = ErrEOF then None else Some e')"
    using ReadAll_yields by fastforce
  then show ?thesis unfolding r by (cases rule: yields_sizeE [consumes 1]) (auto simp: assms max_def split: if_splits)
qed

end
