(* ===== verification/Api_Upload.thy ===== *)
theory Api_Upload
  imports Api_Create Go_Reader Go_Path
begin

text \<open>
  The upload endpoint (\<open>upload\<close>, \<open>readPriority\<close>, \<open>storeUpload\<close>, \<open>removeStoredObject\<close> of
  \<open>api/internal/server/handlers.go\<close>). A request is the sequence of what \<open>reader.NextPart\<close> returns
  up to \<open>io.EOF\<close>: parts, and errors, among them the one \<open>http.MaxBytesReader\<close> raises; the body of
  a part is a stream of chunks. A request that is not a multipart form is \<open>None\<close>. The result is the
  status and the body of the response.

  Outside the repository: \<open>http.DetectContentType\<close> is the parameter \<open>detect\<close>, the buffers with
  which the storage client reads the body are \<open>buf\<close>, the text of an error value is \<open>text_of\<close>, and \<open>uuid.NewString()\<close> returns \<open>jobID\<close>.
\<close>

datatype 'a response = JSON int 'a | ErrorJSON int string

record form_part =
  FormName :: string
  raw_filename :: string
  part_content_type :: string
  part_chunks :: "string list"
  part_error :: go_error
  part_eager :: bool

datatype form_event = Part form_part | PartError

definition part_stream :: "form_part \<Rightarrow> reader" where
  "part_stream part = Source (part_chunks part) (part_error part) (part_eager part)"

text \<open>\<open>Part.FileName\<close> of the standard library.\<close>

definition part_FileName :: "form_part \<Rightarrow> string" where
  "part_FileName part = (if raw_filename part = '''' then '''' else Base (raw_filename part))"

subsection \<open>The priority field\<close>

definition readPriority :: "(nat \<Rightarrow> nat) \<Rightarrow> form_part \<Rightarrow> int result" where
  "readPriority buf part =
     (case ReadAll buf [] (LimitReader (part_stream part) 32) of
        (body, Some e) \<Rightarrow> Inl e
      | (body, None) \<Rightarrow> Atoi (trim_space body))"

subsection \<open>The file field\<close>

definition removeStoredObject :: "string \<Rightarrow> (world, unit) call" where
  "removeStoredObject key = (if key = '''' then ok () else log_err (remove_object key))"

text \<open>
  The storage client's \<open>PutObject\<close> of a body of unknown size: it reads the body to its end and
  stores it, or returns the error of the body and stores nothing.
\<close>

definition put_stream :: "(nat \<Rightarrow> nat) \<Rightarrow> string \<Rightarrow> reader \<Rightarrow> string \<Rightarrow> (world, unit) call" where
  "put_stream buf key body contentType w =
     (case ReadAll buf [] body of
        (bs, None) \<Rightarrow> put_object key \<lparr>content = bs, content_type = contentType, cache_control = ''''\<rparr> w
      | (bs, Some e) \<Rightarrow>
          (case next_reply w of (Reply, w') \<Rightarrow> (Inl e, w') | (_, w') \<Rightarrow> (Inl ErrDriver, w')))"

definition video_type :: "(string \<Rightarrow> string) \<Rightarrow> string \<Rightarrow> string \<Rightarrow> string option" where
  "video_type detect contentType header =
     (let detectedType = detect header in
      if has_prefix detectedType ''video/'' then Some detectedType
      else if has_prefix contentType ''video/'' \<and> detectedType = ''application/octet-stream'' then Some contentType
      else None)"

definition upload_filename :: "form_part \<Rightarrow> string" where
  "upload_filename part =
     (let filename = Base (part_FileName part) in
      if filename = ''.'' \<or> filename = ''/'' \<or> filename = '''' then ''input'' else filename)"

definition upload_key :: "api_config \<Rightarrow> uuid \<Rightarrow> string \<Rightarrow> string" where
  "upload_key cfg jobID filename = UploadPrefix cfg @ ''/'' @ jobID @ ''/'' @ filename"

definition storeUpload :: "api_config \<Rightarrow> (string \<Rightarrow> string) \<Rightarrow> (nat \<Rightarrow> nat) \<Rightarrow> uuid \<Rightarrow> form_part \<Rightarrow> (world, string) call" where
  "storeUpload cfg detect buf jobID part =
     (case ReadFull 512 [] (part_stream part) of
        ((header, err), rest) \<Rightarrow>
          if (case err of None \<Rightarrow> False | Some e \<Rightarrow> \<not> errors_is e ErrUnexpectedEOF \<and> \<not> errors_is e ErrEOF)
          then fail_with (the err)
          else case video_type detect (part_content_type part) header of
            None \<Rightarrow> fail_with ErrInvalidVideoType
          | Some contentType \<Rightarrow>
              (let key = upload_key cfg jobID (upload_filename part);
                   body = sizeLimitedReader (MultiReader [bytes_reader header, rest]) (UploadSizeLimit cfg) 0
               in (\<lambda>w. case put_stream buf key body contentType w of
                    (Inr _, w') \<Rightarrow> (Inr key, w')
                  | (Inl e, w') \<Rightarrow>
                      (case removeStoredObject key w' of
                         (_, w'') \<Rightarrow> (Inl (if errors_is e ErrUploadTooLarge then ErrUploadTooLarge else e), w'')))))"

subsection \<open>The handler\<close>

type_synonym upload_response = "(uuid \<times> string) response"

definition store_error :: "(go_error \<Rightarrow> string) \<Rightarrow> go_error \<Rightarrow> upload_response" where
  "store_error text_of e =
     (if errors_is e ErrUploadTooLarge then ErrorJSON 400 ''file exceeds upload size limit''
      else if \<not> errors_is e ErrInvalidVideoType then ErrorJSON 500 ''store upload failed''
      else ErrorJSON 400 (text_of e))"

text \<open>The variables of the loop over the parts.\<close>

record upload_state =
  priority :: int
  fileUploaded :: bool
  inputFile :: string

fun upload_parts :: "api_config \<Rightarrow> (go_error \<Rightarrow> string) \<Rightarrow> (string \<Rightarrow> string) \<Rightarrow> (nat \<Rightarrow> nat) \<Rightarrow> uuid \<Rightarrow> form_event list \<Rightarrow> upload_state \<Rightarrow>
    world \<Rightarrow> (upload_response + upload_state) \<times> world" where
  "upload_parts cfg text_of detect buf jobID [] st w = (Inr st, w)"
| "upload_parts cfg text_of detect buf jobID (PartError # evs) st w = (Inl (ErrorJSON 400 ''invalid multipart form''), w)"
| "upload_parts cfg text_of detect buf jobID (Part part # evs) st w =
     (if FormName part = ''priority'' then
        (case readPriority buf part of
           Inl e \<Rightarrow> (Inl (ErrorJSON 400 ''priority must be an integer''),
                     if fileUploaded st then snd (removeStoredObject (inputFile st) w) else w)
         | Inr parsed \<Rightarrow>
             (case ValidatePriority parsed of
                Inl e \<Rightarrow> (Inl (ErrorJSON 400 (text_of e)),
                          if fileUploaded st then snd (removeStoredObject (inputFile st) w) else w)
              | Inr _ \<Rightarrow> upload_parts cfg text_of detect buf jobID evs (st\<lparr>priority := parsed\<rparr>) w))
      else if FormName part = ''file'' then
        (if fileUploaded st then (Inl (ErrorJSON 400 ''only one file is supported''), w)
         else (case storeUpload cfg detect buf jobID part w of
                 (Inl e, w') \<Rightarrow> (Inl (store_error text_of e), w')
               | (Inr key, w') \<Rightarrow> upload_parts cfg text_of detect buf jobID evs (st\<lparr>inputFile := key, fileUploaded := True\<rparr>) w'))
      else upload_parts cfg text_of detect buf jobID evs st w)"

definition upload :: "api_config \<Rightarrow> (go_error \<Rightarrow> string) \<Rightarrow> (string \<Rightarrow> string) \<Rightarrow> (nat \<Rightarrow> nat) \<Rightarrow> uuid \<Rightarrow> form_event list option \<Rightarrow> world \<Rightarrow> upload_response \<times> world" where
  "upload cfg text_of detect buf jobID form w =
     (case form of
        None \<Rightarrow> (ErrorJSON 400 ''multipart form required'', w)
      | Some evs \<Rightarrow>
          (case upload_parts cfg text_of detect buf jobID evs \<lparr>priority = 0, fileUploaded = False, inputFile = ''''\<rparr> w of
             (Inl resp, w1) \<Rightarrow> (resp, w1)
           | (Inr st, w1) \<Rightarrow>
               if \<not> fileUploaded st then (ErrorJSON 400 ''file is required'', w1)
               else (case createQueuedJob cfg jobID (inputFile st) (priority st) w1 of
                       (Inl e, w2) \<Rightarrow> (ErrorJSON 500 ''create job failed'', snd (removeStoredObject (inputFile st) w2))
                     | (Inr _, w2) \<Rightarrow> (JSON 202 (jobID, ''queued''), w2))))"

end
