(* ===== verification/Upload_Store.thy ===== *)
theory Upload_Store
  imports Api_Upload Samples
begin

text \<open>
  What \<open>storeUpload\<close> does with a file part: its outcome depends on the bytes of the part and on how
  the part ends, not on the chunks in which they arrive or the buffers they are read with.
\<close>

definition part_data :: "form_part \<Rightarrow> string" where
  "part_data part = concat (part_chunks part)"

definition fits :: "api_config \<Rightarrow> form_part \<Rightarrow> bool" where
  "fits cfg part \<longleftrightarrow> int (length (part_data part)) \<le> max 0 (UploadSizeLimit cfg)"

text \<open>The reference: the content type under which the part is stored, or the error.\<close>

definition store_outcome :: "api_config \<Rightarrow> (string \<Rightarrow> string) \<Rightarrow> form_part \<Rightarrow> string result" where
  "store_outcome cfg detect part =
     (let e = part_error part in
      if length (part_data part) < 512 \<and> \<not> errors_is e ErrUnexpectedEOF \<and> \<not> errors_is e ErrEOF then Inl e
      else case video_type detect (part_content_type part) (take 512 (part_data part)) of
        None \<Rightarrow> Inl ErrInvalidVideoType
      | Some ct \<Rightarrow>
          if \<not> fits cfg part then Inl ErrUploadTooLarge
          else if e \<noteq> ErrEOF then Inl (if errors_is e ErrUploadTooLarge then ErrUploadTooLarge else e)
          else Inr ct)"

abbreviation part_key :: "api_config \<Rightarrow> uuid \<Rightarrow> form_part \<Rightarrow> string" where
  "part_key cfg jobID part \<equiv> upload_key cfg jobID (upload_filename part)"

definition stored_object :: "string \<Rightarrow> form_part \<Rightarrow> object" where
  "stored_object ct part = \<lparr>content = part_data part, content_type = ct, cache_control = ''''\<rparr>"

lemma errors_is_plain [simp]: "errors_is ErrEOF e \<longleftrightarrow> ErrEOF = e" "errors_is ErrUnexpectedEOF e \<longleftrightarrow> ErrUnexpectedEOF = e"
  "errors_is ErrUploadTooLarge e \<longleftrightarrow> ErrUploadTooLarge = e" "errors_is ErrDriver e \<longleftrightarrow> ErrDriver = e"
  by auto

lemma part_key_nonempty [simp]: "upload_key cfg J f \<noteq> ''''"
  by (simp add: upload_key_def)

text \<open>The call to the storage client once the header is accepted.\<close>

definition put_result :: "api_config \<Rightarrow> uuid \<Rightarrow> form_part \<Rightarrow> string \<Rightarrow> (world, unit) call" where
  "put_result cfg jobID part ct w =
     (if fits cfg part \<and> part_error part = ErrEOF
      then put_object (part_key cfg jobID part) (stored_object ct part) w
      else case next_reply w of
        (Reply, w') \<Rightarrow> (Inl (if \<not> fits cfg part then ErrUploadTooLarge else part_error part), w')
      | (_, w') \<Rightarrow> (Inl ErrDriver, w'))"

lemma storeUpload_eq:
  "storeUpload cfg detect buf jobID part w =
     (if length (part_data part) < 512 \<and> \<not> errors_is (part_error part) ErrUnexpectedEOF \<and> \<not> errors_is (part_error part) ErrEOF
      then (Inl (part_error part), w)
      else case video_type detect (part_content_type part) (take 512 (part_data part)) of
        None \<Rightarrow> (Inl ErrInvalidVideoType, w)
      | Some ct \<Rightarrow>
          (case put_result cfg jobID part ct w of
             (Inr _, w') \<Rightarrow> (Inr (part_key cfg jobID part), w')
           | (Inl e, w') \<Rightarrow> (Inl (if errors_is e ErrUploadTooLarge then ErrUploadTooLarge else e),
                             snd (remove_object (part_key cfg jobID part) w'))))"
proof -
  obtain cs' where full: "ReadFull 512 [] (part_stream part) =
      ((take 512 (part_data part),
        if 512 \<le> length (part_data part) then None
        else if part_data part \<noteq> [] \<and> part_error part = ErrEOF then Some ErrUnexpectedEOF else Some (part_error part)),
       Source cs' (part_error part) (part_eager part))"
    and rest: "concat cs' = drop 512 (part_data part)"
    using ReadFull_Source [of "[]" 512 "part_chunks part" "part_error part" "part_eager part"]
    by (auto simp: part_stream_def part_data_def)
  let ?r = "MultiReader [bytes_reader (take 512 (part_data part)), Source cs' (part_error part) (part_eager part)]"
  have "ReadAll buf [] (sizeLimitedReader ?r (UploadSizeLimit cfg) 0) =
     (if fits cfg part
      then (part_data part, if part_error part = ErrEOF then None else Some (part_error part))
      else (take (nat (UploadSizeLimit cfg)) (part_data part), Some ErrUploadTooLarge))"
    unfolding fits_def by (rule ReadAll_sized) (simp add: reader_simps rest)
  then have put: "put_stream buf (part_key cfg jobID part) (sizeLimitedReader ?r (UploadSizeLimit cfg) 0) ct w = put_result cfg jobID part ct w" for ct w
    by (auto simp: put_stream_def put_result_def stored_object_def)
  let ?err = "if 512 \<le> length (part_data part) then None
        else if part_data part \<noteq> [] \<and> part_error part = ErrEOF then Some ErrUnexpectedEOF else Some (part_error part)"
  have fails: "(case ?err of None \<Rightarrow> False | Some e \<Rightarrow> \<not> errors_is e ErrUnexpectedEOF \<and> \<not> errors_is e ErrEOF) \<longleftrightarrow>
      length (part_data part) < 512 \<and> \<not> errors_is (part_error part) ErrUnexpectedEOF \<and> \<not> errors_is (part_error part) ErrEOF"
    by auto
  have err: "the ?err = part_error part" if "length (part_data part) < 512" "\<not> errors_is (part_error part) ErrEOF"
    using that by auto
  show ?thesis
    unfolding storeUpload_def full prod.case fails
    by (cases "video_type detect (part_content_type part) (take 512 (part_data part))";
        cases "put_result cfg jobID part (the (video_type detect (part_content_type part) (take 512 (part_data part)))) w")
      (auto simp: Let_def put fail_with_def removeStoredObject_def log_err_def err simp del: errors_is.simps split: sum.splits)
qed

lemma put_object_Inr: "put_object k ob w = (Inr x, w') \<Longrightarrow> objs w' k = Some ob"
  by (auto simp: put_object_def split: prod.splits reply.splits)

lemma storage_frame [simp]:
  "db (snd (put_object k ob w)) = db w" "rds (snd (put_object k ob w)) = rds w" "clock w \<le> clock (snd (put_object k ob w))"
  "db (snd (remove_object k w)) = db w" "rds (snd (remove_object k w)) = rds w" "clock w \<le> clock (snd (remove_object k w))"
  by (auto simp: put_object_def remove_object_def next_reply_def split: prod.splits reply.splits list.splits)

lemma put_result_frame:
  "db (snd (put_result cfg J part ct w)) = db w \<and> rds (snd (put_result cfg J part ct w)) = rds w \<and> clock w \<le> clock (snd (put_result cfg J part ct w))"
  by (auto simp: put_result_def next_reply_def split: prod.splits reply.splits list.splits)

lemma storeUpload_frame:
  "db (snd (storeUpload cfg detect buf J part w)) = db w" "rds (snd (storeUpload cfg detect buf J part w)) = rds w"
  "clock w \<le> clock (snd (storeUpload cfg detect buf J part w))"
proof -
  note f = put_result_frame [of cfg J part _ w]
  have c: "clock w \<le> clock (snd (remove_object k u))" if "clock w \<le> clock u" for k u
    using that storage_frame(6) [of u k] by linarith
  show "db (snd (storeUpload cfg detect buf J part w)) = db w" "rds (snd (storeUpload cfg detect buf J part w)) = rds w"
    "clock w \<le> clock (snd (storeUpload cfg detect buf J part w))"
    unfolding storeUpload_eq using f by (auto split: option.splits prod.splits sum.splits intro!: c) (metis snd_conv)+
qed

text \<open>A key is returned only for a part that was stored, whatever happens to the calls.\<close>

lemma storeUpload_Inr:
  assumes "storeUpload cfg detect buf J part w = (Inr key, w')"
  shows "\<exists>ct. store_outcome cfg detect part = Inr ct \<and> key = part_key cfg J part \<and> objs w' key = Some (stored_object ct part)"
proof -
  from assms obtain ct where ct: "video_type detect (part_content_type part) (take 512 (part_data part)) = Some ct"
    and p: "put_result cfg J part ct w = (Inr (), w')" and key: "key = part_key cfg J part"
    and h: "\<not> (length (part_data part) < 512 \<and> \<not> errors_is (part_error part) ErrUnexpectedEOF \<and> \<not> errors_is (part_error part) ErrEOF)"
    unfolding storeUpload_eq by (auto split: if_splits option.splits prod.splits sum.splits)
  from p have size: "fits cfg part" "part_error part = ErrEOF"
    and "put_object (part_key cfg J part) (stored_object ct part) w = (Inr (), w')"
    by (auto simp: put_result_def split: if_splits prod.splits reply.splits)
  with ct key h show ?thesis by (auto simp: store_outcome_def Let_def dest: put_object_Inr)
qed

lemma storeUpload_answered:
  assumes "net w = []" and "objs w (part_key cfg jobID part) = None"
  shows "storeUpload cfg detect buf jobID part w =
    (case store_outcome cfg detect part of
       Inl e \<Rightarrow> (Inl e, w)
     | Inr ct \<Rightarrow> (Inr (part_key cfg jobID part),
                 w\<lparr>objs := (objs w)(part_key cfg jobID part \<mapsto> stored_object ct part)\<rparr>))"
proof -
  have "snd (remove_object (part_key cfg jobID part) w) = w"
    using assms by (simp add: remove_object_def fun_upd_idem)
  then show ?thesis
    using assms unfolding storeUpload_eq store_outcome_def
    by (auto simp: Let_def put_result_def put_object_def split: option.splits)
qed


lemma empty_world_sel [simp]: "net empty_world = []" "objs empty_world k = None"
  by (simp_all add: empty_world_def)

definition sample_part :: form_part where
  "sample_part = \<lparr>FormName = ''file'', raw_filename = ''clips/a.mp4'', part_content_type = ''video/mp4'',
     part_chunks = [''fty'', '''', ''p123''], part_error = ErrEOF, part_eager = True\<rparr>"

definition octets :: "string \<Rightarrow> string" where
  "octets header = ''application/octet-stream''"

lemma sample_part_accepted:
  "store_outcome (api0\<lparr>UploadSizeLimit := 7\<rparr>) octets sample_part = Inr ''video/mp4''"
  "store_outcome (api0\<lparr>UploadSizeLimit := 6\<rparr>) octets sample_part = Inl ErrUploadTooLarge"
  by (simp_all add: store_outcome_def fits_def sample_part_def part_data_def video_type_def octets_def has_prefix_def)


lemma readPriority_complete:
  assumes "part_error part = ErrEOF"
  shows "readPriority buf part = Atoi (trim_space (take 32 (part_data part)))"
proof -
  obtain bs err where r: "ReadAll buf [] (LimitReader (part_stream part) 32) = (bs, err)" by fastforce
  from ReadAll_yields [OF r] have "err = None" 
    using assms by (auto simp: part_stream_def reader_simps elim!: yields_LimitE)
  with r ReadAll_limited [of buf "part_chunks part" "part_error part" "part_eager part" 32 bs] show ?thesis
    by (simp add: readPriority_def part_stream_def part_data_def)
qed

text \<open>
  C30. A priority field round-trips: the decimal text of any 64-bit integer, with or without white
  space around it, in at most 32 bytes and however the bytes arrive, is read back as that integer.
\<close>

theorem readPriority_roundtrip:
  assumes "part_error part = ErrEOF" and "concat (part_chunks part) = sp @ dec i @ sp'"
    and "list_all blank sp" and "list_all blank sp'" and "length (sp @ dec i @ sp') \<le> 32"
    and "min_int64 \<le> i" and "i \<le> max_int64"
  shows "readPriority buf part = Inr i"
proof -
  have "trim_space (sp @ dec i @ sp') = dec i"
    using assms(3,4) dec_visible by (intro trim_space_padded)
  with assms show ?thesis by (simp add: readPriority_complete part_data_def Atoi_dec)
qed

definition sample_priority :: form_part where
  "sample_priority = \<lparr>FormName = ''priority'', raw_filename = '''', part_content_type = '''',
     part_chunks = ['' 4'', ''2 ''], part_error = ErrEOF, part_eager = False\<rparr>"

lemma sample_text: "dec 42 = ''42''" "blank CHR '' ''"
proof -
  have c: "char_of (52 :: nat) = CHR ''4''" "char_of (50 :: nat) = CHR ''2''" "char_of (32 :: nat) = CHR '' ''"
    by (simp_all add: char_of_eq_iff take_bit_eq_mod)
  then show "dec 42 = ''42''" by (simp add: dec_def dec_nat.simps digit_char_def)
  show "blank CHR '' ''" unfolding blank_def space_runes_def list.map c(3) by simp
qed

theorem readPriority_roundtrip_witness: "readPriority (\<lambda>_. 3) sample_priority = Inr 42"
  by (rule readPriority_roundtrip [of sample_priority "'' ''" 42 "'' ''"])
    (simp_all add: sample_priority_def sample_text min_int64_def max_int64_def)

end
