(* ===== verification/Upload_Behaviour.thy ===== *)
theory Upload_Behaviour
  imports Upload_Store
begin

text \<open>
  The upload endpoint as a whole: what an accepted request leaves behind, what a rejected one
  leaves behind, and that every request is a run of the system.
\<close>

text \<open>The priority a form asks for: the last priority field, or 0.\<close>

definition field_priority :: "(nat \<Rightarrow> nat) \<Rightarrow> form_event \<Rightarrow> int list" where
  "field_priority buf ev =
     (case ev of
        PartError \<Rightarrow> []
      | Part part \<Rightarrow> (if FormName part = ''priority'' then case readPriority buf part of Inl _ \<Rightarrow> [] | Inr p \<Rightarrow> [p] else []))"

definition requested_priority :: "(nat \<Rightarrow> nat) \<Rightarrow> int \<Rightarrow> form_event list \<Rightarrow> int" where
  "requested_priority buf p evs = last (p # concat (map (field_priority buf) evs))"

lemma requested_priority_simps [simp]:
  "requested_priority buf p [] = p"
  "requested_priority buf p (ev # evs) =
     requested_priority buf (case field_priority buf ev of [] \<Rightarrow> p | q # _ \<Rightarrow> q) evs"
  by (auto simp: requested_priority_def field_priority_def split: form_event.splits sum.splits list.splits)

subsection \<open>The loop over the parts\<close>

lemma upload_parts_after_file:
  "upload_parts cfg text_of detect buf J evs st w = (Inr st', w') \<Longrightarrow> fileUploaded st \<Longrightarrow>
     w' = w \<and> inputFile st' = inputFile st \<and> fileUploaded st'"
proof (induction evs arbitrary: st)
  case (Cons ev evs)
  then show ?case by (cases ev) (auto split: if_splits sum.splits)
qed simp

lemma upload_parts_priority:
  "upload_parts cfg text_of detect buf J evs st w = (Inr st', w') \<Longrightarrow> valid_priority (priority st) \<Longrightarrow>
     valid_priority (priority st') \<and> priority st' = requested_priority buf (priority st) evs"
proof (induction evs arbitrary: st w)
  case (Cons ev evs)
  then show ?case
    by (cases ev) (fastforce simp: field_priority_def split: if_splits sum.splits prod.splits dest: ValidatePriority_Inr)+
qed simp

lemma removeStored_frame [simp]:
  "db (snd (removeStoredObject k w)) = db w" "rds (snd (removeStoredObject k w)) = rds w" "clock w \<le> clock (snd (removeStoredObject k w))"
  by (simp_all add: removeStoredObject_def ok_def log_err_def)

lemma upload_parts_frame:
  "upload_parts cfg text_of detect buf J evs st w = (r, w') \<Longrightarrow> db w' = db w \<and> rds w' = rds w \<and> clock w \<le> clock w'"
proof (induction evs arbitrary: st w)
  case (Cons ev evs)
  show ?case
  proof (cases ev)
    case (Part part)
    have fr: "db u = db w \<and> rds u = rds w \<and> clock w \<le> clock u" if "storeUpload cfg detect buf J part w = (q, u)" for q u
      using storeUpload_frame [where cfg = cfg and detect = detect and buf = buf and J = J and part = part and w = w] that by simp
    show ?thesis
      using Cons.prems Part
      by (auto split: if_splits sum.splits prod.splits dest!: Cons.IH fr)
  qed (use Cons.prems in auto)
qed simp

lemma upload_parts_stores:
  "upload_parts cfg text_of detect buf J evs st w = (Inr st', w') \<Longrightarrow> \<not> fileUploaded st \<Longrightarrow> fileUploaded st' \<Longrightarrow>
     \<exists>part ct. Part part \<in> set evs \<and> FormName part = ''file'' \<and> store_outcome cfg detect part = Inr ct \<and>
       inputFile st' = part_key cfg J part \<and> objs w' (part_key cfg J part) = Some (stored_object ct part)"
proof (induction evs arbitrary: st w)
  case (Cons ev evs)
  show ?case
  proof (cases ev)
    case (Part part)
    show ?thesis
    proof (cases "FormName part = ''file''")
      case True
      with Cons.prems Part obtain key u where s: "storeUpload cfg detect buf J part w = (Inr key, u)"
        and rest: "upload_parts cfg text_of detect buf J evs (st\<lparr>inputFile := key, fileUploaded := True\<rparr>) u = (Inr st', w')"
        by (auto split: prod.splits sum.splits)
      from upload_parts_after_file [OF rest] storeUpload_Inr [OF s] True Part show ?thesis by auto
    next
      case False
      with Cons.prems Part Cons.IH show ?thesis by (fastforce split: if_splits sum.splits)
    qed
  qed (use Cons.prems in auto)
qed simp

lemma createQueuedJob_objs: "objs (snd (createQueuedJob cfg J f p w)) = objs w"
proof -
  have "objs (snd (pg stmt w)) = objs w" for stmt :: "unit stmt" and w
    by (auto simp: pg_def next_reply_def split: list.splits prod.splits reply.splits sum.splits)
  moreover have "objs (snd (Enqueue J p w)) = objs w" for w
    by (cases "Enqueue J p w") (auto elim!: Enqueue_cases)
  ultimately show ?thesis
    by (auto simp: createQueuedJob_def and_then_def log_err_def split: prod.splits sum.splits) (metis snd_conv)+
qed

lemma createQueuedJob_Inr:
  assumes "createQueuedJob cfg J f p w = (Inr x, w')"
  shows "\<exists>t. job_at (db w') J = Some (new_job_row t J (WorkerMaxRetries cfg) p f) \<and> job_at (db w) J = None"
proof -
  from assms obtain u where m: "pg (create_job_tx cfg J f p) w = (Inr (), u)" and w': "w' = snd (Enqueue J p u)"
    by (auto simp: createQueuedJob_def and_then_def log_err_def split: prod.splits sum.splits)
  from pg_Inr [OF m] obtain t where "create_job_tx cfg J f p t (db w) = Inr ((), db u)" by blast
  with w' Enqueue_db create_effect(1,3) show ?thesis by fastforce
qed

subsection \<open>The request\<close>

abbreviation upload_start :: upload_state where
  "upload_start \<equiv> \<lparr>priority = 0, fileUploaded = False, inputFile = ''''\<rparr>"

lemma valid_priority_0 [simp]: "valid_priority 0"
  by (simp add: valid_priority_def MinPriority_def MaxPriority_def)

lemma upload_JSON:
  assumes "upload cfg text_of detect buf J form w = (JSON code body, w')"
  obtains evs st w1 where "form = Some evs" and "upload_parts cfg text_of detect buf J evs upload_start w = (Inr st, w1)"
    and "fileUploaded st" and "createQueuedJob cfg J (inputFile st) (priority st) w1 = (Inr (), w')"
    and "code = 202" and "body = (J, ''queued'')"
proof -
  have no_json: "upload_parts cfg text_of detect buf J evs st w \<noteq> (Inl (JSON code body), w1)" for evs st w w1
    by (induction cfg text_of detect buf J evs st w rule: upload_parts.induct)
      (auto simp: store_error_def split: sum.splits prod.splits)
  show ?thesis
    using assms that no_json by (fastforce simp: upload_def split: option.splits prod.splits sum.splits if_splits)
qed


abbreviation "api_small \<equiv> api0\<lparr>UploadSizeLimit := 7\<rparr>"

lemma sample_priority_value: "readPriority buf sample_priority = Inr 42"
proof -
  have "trim_space ('' '' @ dec 42 @ '' '') = dec 42"
    by (rule trim_space_padded) (simp_all only: dec_visible sample_text(2) list.pred_inject simp_thms)
  then show ?thesis
    by (simp add: readPriority_complete sample_priority_def part_data_def sample_text Atoi_dec [of 42, unfolded sample_text] min_int64_def max_int64_def)
qed

lemma sample_form_names: "FormName sample_part = ''file''" "FormName sample_priority = ''priority''"
  by (simp_all add: sample_part_def sample_priority_def)

lemma sample_upload:
  assumes "net w = []" and "objs w = Map.empty" and "jobs (db w) = []"
  shows "fst (upload api_small text_of octets (\<lambda>_. 4) ''j1'' (Some [Part sample_part, Part sample_priority]) w) = JSON 202 (''j1'', ''queued'')"
proof -
  have s: "storeUpload api_small octets (\<lambda>_. 4) ''j1'' sample_part w =
      (Inr (part_key api_small ''j1'' sample_part),
       w\<lparr>objs := (objs w)(part_key api_small ''j1'' sample_part \<mapsto> stored_object ''video/mp4'' sample_part)\<rparr>)"
    using storeUpload_answered [of w api_small "''j1''" sample_part octets "\<lambda>_. 4"] assms
    by (simp add: sample_part_accepted)
  have v: "ValidatePriority 42 = Inr ()" by (simp add: ValidatePriority_ok valid_priority_def MinPriority_def MaxPriority_def)
  show ?thesis
    by (simp add: upload_def sample_form_names s sample_priority_value v)
      (use assms in \<open>simp add: createQueuedJob_def and_then_def pg_answered create_job_tx_def
        insert_job_def new_job_row_def int4_def log_err_def job_at_def row_at_None_iff\<close>)
qed


text \<open>
  An upload is a run of the system: whatever the request and whatever happens to the calls, it takes
  the shared state through permitted steps only. In particular the priority reaching the database has
  been validated.
\<close>

lemma upload_runs:
  assumes "jobID \<noteq> ''''"
  shows "steps w (snd (upload cfg text_of detect buf jobID form w))"
proof (cases form)
  case None
  then show ?thesis by (simp add: upload_def)
next
  case (Some evs)
  obtain r w1 where loop: "upload_parts cfg text_of detect buf jobID evs upload_start w = (r, w1)" by fastforce
  have first: "steps w w1" using upload_parts_frame [OF loop] by (intro environment_steps) auto
  show ?thesis
  proof (cases r)
    case (Inl resp)
    with first loop Some show ?thesis by (simp add: upload_def)
  next
    case (Inr st)
    with upload_parts_priority [OF loop [unfolded Inr]] have "valid_priority (priority st)" by force
    with create_runs assms have second: "steps w1 (snd (createQueuedJob cfg jobID (inputFile st) (priority st) w1))"
      by (simp add: runs_in_def)
    have third: "steps u (snd (removeStoredObject k u))" for k u by (intro environment_steps) simp_all
    show ?thesis
      using first second third loop Inr Some
      by (auto simp: upload_def split: prod.splits sum.splits) (metis rtranclp_trans snd_conv)+
  qed
qed

subsection \<open>Rejected requests\<close>

text \<open>
  The two error returns that do not remove an object stored earlier in the same request.
\<close>

definition leaky :: "upload_response \<Rightarrow> bool" where
  "leaky r \<longleftrightarrow> (\<exists>c m. r = ErrorJSON c m \<and> m \<in> {''invalid multipart form'', ''only one file is supported''})"

lemma remove_after_put:
  assumes "net w0 = []" and "objs w0 k = None" and "k \<noteq> ''''"
  shows "snd (removeStoredObject k (w0\<lparr>objs := (objs w0)(k \<mapsto> ob)\<rparr>)) = w0"
  using assms by (simp add: removeStoredObject_def log_err_def remove_object_def fun_upd_idem)

lemma rejected_after_file:
  assumes "snd (removeStoredObject k w1) = w0"
  shows "upload_parts cfg text_of detect buf J evs st w1 = (Inl r, w') \<Longrightarrow>
     fileUploaded st \<Longrightarrow> inputFile st = k \<Longrightarrow> w' = w0 \<or> leaky r"
proof (induction evs arbitrary: st)
  case (Cons ev evs)
  then show ?case
    by (cases ev) (auto simp: assms leaky_def split: if_splits sum.splits)
qed simp

text \<open>How far the loop has come: nothing stored, or one object the state names.\<close>

definition loop_state :: "world \<Rightarrow> upload_state \<Rightarrow> world \<Rightarrow> bool" where
  "loop_state w st w1 \<longleftrightarrow>
     (if fileUploaded st
      then \<exists>ob. inputFile st \<noteq> '''' \<and> objs w (inputFile st) = None \<and> w1 = w\<lparr>objs := (objs w)(inputFile st \<mapsto> ob)\<rparr>
      else w1 = w)"

lemma loop_state_remove: "net w = [] \<Longrightarrow> loop_state w st w1 \<Longrightarrow> fileUploaded st \<Longrightarrow> snd (removeStoredObject (inputFile st) w1) = w"
  by (auto simp: loop_state_def remove_after_put)

lemma upload_parts_answered:
  assumes "net w = []" and "\<And>f. objs w (upload_key cfg J f) = None"
  shows "upload_parts cfg text_of detect buf J evs st w = (r, w1) \<Longrightarrow> \<not> fileUploaded st \<Longrightarrow>
    (case r of Inl resp \<Rightarrow> w1 = w \<or> leaky resp | Inr st' \<Rightarrow> loop_state w st' w1)"
proof (induction evs arbitrary: st)
  case Nil
  then show ?case by (auto simp: loop_state_def)
next
  case (Cons ev evs)
  show ?case
  proof (cases ev)
    case PartError
    with Cons.prems show ?thesis by (auto simp: leaky_def)
  next
    case (Part part)
    show ?thesis
    proof (cases "FormName part = ''file''")
      case False
      with Cons Part show ?thesis by (auto split: if_splits sum.splits)
    next
      case True
      show ?thesis
      proof (cases "store_outcome cfg detect part")
        case (Inl e)
        with True Cons.prems Part storeUpload_answered [OF assms(1) assms(2), where part = part and detect = detect and buf = buf] show ?thesis by auto
      next
        case (Inr ct)
        let ?k = "part_key cfg J part" and ?u = "w\<lparr>objs := (objs w)(part_key cfg J part \<mapsto> stored_object ct part)\<rparr>"
        let ?st = "st\<lparr>inputFile := ?k, fileUploaded := True\<rparr>"
        have rest: "upload_parts cfg text_of detect buf J evs ?st ?u = (r, w1)"
          using True Cons.prems Part storeUpload_answered [OF assms(1) assms(2), where part = part and detect = detect and buf = buf] Inr by simp
        show ?thesis
        proof (cases r)
          case (Inl resp)
          with rejected_after_file [OF remove_after_put [OF assms(1) assms(2) part_key_nonempty] rest [unfolded Inl]] show ?thesis by simp
        next
          case (Inr st')
          with upload_parts_after_file [OF rest [unfolded Inr]] assms(2) show ?thesis by (auto simp: loop_state_def)
        qed
      qed
    qed
  qed
qed

text \<open>
  C28. A rejected upload, its calls answered, leaves the shared state exactly as it was, a stored
  file included, except for the two error returns \<open>leaky\<close> names; the database and the queue are
  unchanged in every case.
\<close>

theorem rejected_upload_leaves_no_trace:
  assumes "net w = []" and "\<And>f. objs w (upload_key cfg jobID f) = None"
    and "upload cfg text_of detect buf jobID form w = (ErrorJSON code msg, w')"
  shows "db w' = db w \<and> rds w' = rds w \<and> (w' = w \<or> leaky (ErrorJSON code msg))"
proof (cases form)
  case None
  with assms(3) show ?thesis by (simp add: upload_def)
next
  case (Some evs)
  obtain r w1 where loop: "upload_parts cfg text_of detect buf jobID evs upload_start w = (r, w1)" by fastforce
  note l = upload_parts_answered [OF assms(1,2) loop]
  show ?thesis
  proof (cases r)
    case (Inl resp)
    with l upload_parts_frame [OF loop] loop Some assms(3) show ?thesis by (auto simp: upload_def)
  next
    case (Inr st)
    with l have ls: "loop_state w st w1" by simp
    then have "net w1 = []" using assms(1) by (auto simp: loop_state_def split: if_splits)
    then have "w2 = w1" if "createQueuedJob cfg jobID (inputFile st) (priority st) w1 = (Inl e, w2)" for e w2
      using that by (auto simp: createQueuedJob_def and_then_def pg_answered log_err_def split: prod.splits sum.splits)
    with loop_state_remove [OF assms(1) ls] ls loop Inr Some assms(3) show ?thesis
      by (auto simp: upload_def loop_state_def split: if_splits prod.splits sum.splits)
  qed
qed

theorem rejected_upload_leaves_no_trace_witness:
  "snd (upload (api0\<lparr>UploadSizeLimit := 6\<rparr>) (\<lambda>_. '''') octets (\<lambda>_. 4) ''j1'' (Some [Part sample_part]) empty_world) = empty_world"
proof -
  have o: "fst (upload (api0\<lparr>UploadSizeLimit := 6\<rparr>) (\<lambda>_. '''') octets (\<lambda>_. 4) ''j1'' (Some [Part sample_part]) empty_world) =
      ErrorJSON 400 ''file exceeds upload size limit''"
    using storeUpload_answered [of empty_world "api0\<lparr>UploadSizeLimit := 6\<rparr>" "''j1''" sample_part octets "\<lambda>_. 4"]
    by (simp add: upload_def sample_part_accepted store_error_def sample_form_names)
  obtain w' where u: "upload (api0\<lparr>UploadSizeLimit := 6\<rparr>) (\<lambda>_. '''') octets (\<lambda>_. 4) ''j1'' (Some [Part sample_part]) empty_world =
      (ErrorJSON 400 ''file exceeds upload size limit'', w')"
    using o by (metis prod.collapse)
  show ?thesis
    using rejected_upload_leaves_no_trace [OF _ _ u] unfolding u by (simp add: leaky_def)
qed

subsection \<open>Two gaps\<close>

text \<open>A second file part is refused, and the first file stays in the object store with no job that names it.\<close>

lemma second_file_leaks:
  assumes "net w = []" and "\<And>f. objs w (upload_key cfg J f) = None"
    and "FormName p = ''file''" and "FormName q = ''file''" and "store_outcome cfg detect p = Inr ct"
  shows "upload cfg text_of detect buf J (Some [Part p, Part q]) w =
    (ErrorJSON 400 ''only one file is supported'', w\<lparr>objs := (objs w)(part_key cfg J p \<mapsto> stored_object ct p)\<rparr>)"
  using assms(3-5) storeUpload_answered [OF assms(1) assms(2), where part = p and detect = detect and buf = buf]
  by (simp add: upload_def)

text \<open>
  A commit that succeeds while its acknowledgement is lost is reported as a failure, and the
  stored file is removed: the job row stays, queued, with an input file that no longer exists.
\<close>

lemma lost_commit_orphans_job:
  assumes "net w = [(Reply, 0), (Lost, 0)]" and "FormName p = ''file''" and "store_outcome cfg detect p = Inr ct"
    and "job_at (db w) J = None" and "0 \<le> WorkerMaxRetries cfg" and "WorkerMaxRetries cfg < 2 ^ 31"
    and "upload cfg text_of detect buf J (Some [Part p]) w = (resp, w')"
  shows "resp = ErrorJSON 500 ''create job failed'' \<and> objs w' (part_key cfg J p) = None \<and>
    job_at (db w') J = Some (new_job_row (clock w) J (WorkerMaxRetries cfg) 0 (part_key cfg J p))"
proof -
  let ?k = "part_key cfg J p" and ?row = "new_job_row (clock w) J (WorkerMaxRetries cfg) 0 (part_key cfg J p)"
  let ?w1 = "w\<lparr>net := [(Lost, 0)], objs := (objs w)(?k \<mapsto> stored_object ct p)\<rparr>"
  from assms(3) have "put_result cfg J p ct w = put_object ?k (stored_object ct p) w"
    and "video_type detect (part_content_type p) (take 512 (part_data p)) = Some ct" "part_error p = ErrEOF"
    by (auto simp: store_outcome_def put_result_def Let_def split: if_splits option.splits)
  then have s: "storeUpload cfg detect buf J p w = (Inr ?k, ?w1)"
    using assms(1) by (simp add: storeUpload_eq put_object_def next_reply_def)
  have "insert_job ?row (db w) = Inr ((db w)\<lparr>jobs := jobs (db w) @ [?row]\<rparr>)"
    using assms by (simp add: insert_job_def new_job_row_def int4_def)
  then have c: "createQueuedJob cfg J ?k 0 ?w1 = (Inl ErrDriver, ?w1\<lparr>net := [], db := (db w)\<lparr>jobs := jobs (db w) @ [?row]\<rparr>\<rparr>)"
    by (simp add: createQueuedJob_def and_then_def pg_def next_reply_def create_job_tx_def)
  show ?thesis
    using assms(2,4,7) s c job_at_snoc [of "db w" ?row]
    by (auto simp: upload_def removeStoredObject_def log_err_def remove_object_def new_job_row_def)
qed

end
