(* ===== verification/Api_Read.thy ===== *)
theory Api_Read
  imports Api_Upload
begin

text \<open>
  The read endpoints of the API server (\<open>getJob\<close>, \<open>getJobOutputs\<close>, \<open>getStats\<close>, \<open>getWorkers\<close>,
  \<open>getInternalJobs\<close>, \<open>writeStatsEvent\<close> and their queries in \<open>handlers.go\<close>, the structures of
  \<open>models.go\<close>). A query of several rows is two calls, \<open>Query\<close> and the iteration that ends in
  \<open>rows.Err\<close>; either may fail.

  Left open by PostgreSQL and hence parameters: the order in which a query without a total
  \<open>ORDER BY\<close> meets its rows (\<open>arrange\<close>), the aggregate \<open>percentile_cont\<close> (given the
  percentage and the values in nanoseconds, cast to whole milliseconds), and whether a path parameter is a well-formed UUID
  (\<open>uuid_ok\<close>). Ages are durations; their conversion to floating-point seconds is not modelled.
\<close>

subsection \<open>Structures\<close>

record job_timings =
  QueueWaitMS :: "int option"
  DownloadMS :: "int option"
  ProcessingMS :: "int option"
  UploadMS :: "int option"
  TotalMS :: "int option"
  AttemptCount :: int

record api_job =
  JobIdent :: uuid
  JobStatus :: string
  JobRetryCount :: int
  JobMaxRetries :: int
  JobPriority :: int
  JobInputFile :: string
  JobCreatedAt :: time
  JobUpdatedAt :: time
  JobTimings :: "job_timings option"

record job_output =
  OutID :: uuid
  OutJobID :: uuid
  OutType :: string
  OutCDNURL :: string
  OutFileSize :: int
  OutCreatedAt :: time

record api_worker =
  WorkerIdent :: uuid
  WorkerStatus :: string
  WorkerCurrentJob :: "uuid option"
  LastHeartbeat :: time

subsection \<open>Queries\<close>

definition scan_rows :: "'a list \<Rightarrow> (world, 'a list) call" where
  "scan_rows rows w = (case next_reply w of (Reply, w') \<Rightarrow> (Inr rows, w') | (_, w') \<Rightarrow> (Inl ErrDriver, w'))"

definition by_id :: "(string \<Rightarrow> bool) \<Rightarrow> string \<Rightarrow> (world, 'a) call \<Rightarrow> (world, 'a) call" where
  "by_id uuid_ok ident m = (if uuid_ok ident then m else fail_with (ErrConstraint ''invalid input syntax for type uuid''))"

text \<open>\<open>ORDER BY key ASC\<close> over rows met in some order.\<close>

definition order_by :: "('a \<Rightarrow> int) \<Rightarrow> ('a list \<Rightarrow> 'a list) \<Rightarrow> 'a list \<Rightarrow> 'a list" where
  "order_by key arrange rows = sort_key key (arrange rows)"

definition scanned_job :: "job_row \<Rightarrow> api_job" where
  "scanned_job j = \<lparr>JobIdent = j_id j, JobStatus = job_status_text (j_status j), JobRetryCount = j_retry_count j,
     JobMaxRetries = j_max_retries j, JobPriority = j_priority j, JobInputFile = j_input_file j,
     JobCreatedAt = j_created_at j, JobUpdatedAt = j_updated_at j, JobTimings = None\<rparr>"

definition scanned_output :: "output_row \<Rightarrow> job_output" where
  "scanned_output r = \<lparr>OutID = o_id r, OutJobID = o_job r, OutType = output_type_text (o_type r),
     OutCDNURL = o_cdn_url r, OutFileSize = o_file_size r, OutCreatedAt = o_created_at r\<rparr>"

definition api_fetchJob :: "(string \<Rightarrow> bool) \<Rightarrow> string \<Rightarrow> (world, api_job) call" where
  "api_fetchJob uuid_ok ident =
     by_id uuid_ok ident (query (\<lambda>t d. case job_at d ident of None \<Rightarrow> Inl ErrNoRows | Some j \<Rightarrow> Inr (scanned_job j)))"

definition fetchOutputs :: "(string \<Rightarrow> bool) \<Rightarrow> (output_row list \<Rightarrow> output_row list) \<Rightarrow> string \<Rightarrow> (world, job_output list) call" where
  "fetchOutputs uuid_ok arrange jobID =
     and_then (by_id uuid_ok jobID (query (\<lambda>t d. Inr (order_by o_created_at arrange (filter (\<lambda>r. o_job r = jobID) (job_outputs d))))))
       (\<lambda>rows. and_then (scan_rows rows) (\<lambda>rows. ok (map scanned_output rows)))"

text \<open>
  The join of \<open>fetchJobWithOutputs\<close>: every output of the job beside the job, or the job alone. A
  job without outputs is one row, so the order by \<open>created_at\<close> only concerns outputs.
\<close>

definition joined_rows :: "(output_row list \<Rightarrow> output_row list) \<Rightarrow> string \<Rightarrow> database \<Rightarrow> (job_row \<times> output_row option) list" where
  "joined_rows arrange ident d =
     (case job_at d ident of
        None \<Rightarrow> []
      | Some j \<Rightarrow>
          (case order_by o_created_at arrange (filter (\<lambda>r. o_job r = ident) (job_outputs d)) of
             [] \<Rightarrow> [(j, None)]
           | outs \<Rightarrow> map (\<lambda>r. (j, Some r)) outs))"

text \<open>The loop over the rows: the last job scanned, the outputs so far, whether a row was found.\<close>

fun scan_joined :: "(job_row \<times> output_row option) list \<Rightarrow> api_job option \<Rightarrow> job_output list \<Rightarrow> api_job option \<times> job_output list" where
  "scan_joined [] job outs = (job, outs)"
| "scan_joined ((j, r) # rows) job outs =
     scan_joined rows (Some (scanned_job j)) (case r of None \<Rightarrow> outs | Some r \<Rightarrow> outs @ [scanned_output r])"

text \<open>\<open>(EXTRACT(EPOCH FROM d) * 1000)::bigint\<close> of an interval: milliseconds, rounded half away from zero.\<close>

definition to_ms :: "duration \<Rightarrow> int" where
  "to_ms dur = sgn dur * ((\<bar>dur\<bar> + 500000) div 1000000)"

definition select_timings :: "string \<Rightarrow> time \<Rightarrow> database \<Rightarrow> job_timings result" where
  "select_timings ident t d =
     (case job_at d ident of
        None \<Rightarrow> Inl ErrNoRows
      | Some j \<Rightarrow>
          (let a = (case j_completed_attempt j of None \<Rightarrow> None | Some aid \<Rightarrow> attempt_at d aid)
           in Inr \<lparr>QueueWaitMS = map_option (\<lambda>a. to_ms (a_started_at a - a_queue_entered_at a)) a,
                   DownloadMS = Option.bind a a_download_ms, ProcessingMS = Option.bind a a_processing_ms,
                   UploadMS = Option.bind a a_upload_ms,
                   TotalMS = map_option (\<lambda>c. to_ms (c - j_created_at j)) (j_completed_at j),
                   AttemptCount = int (length (filter (\<lambda>a. a_job a = ident) (job_attempts d)))\<rparr>))"

definition fetchJobWithOutputs ::
    "(string \<Rightarrow> bool) \<Rightarrow> (output_row list \<Rightarrow> output_row list) \<Rightarrow> string \<Rightarrow> (world, api_job \<times> job_output list) call" where
  "fetchJobWithOutputs uuid_ok arrange ident =
     and_then (by_id uuid_ok ident (query (\<lambda>t d. Inr (joined_rows arrange ident d)))) (\<lambda>rows.
     and_then (scan_rows rows) (\<lambda>rows.
       case scan_joined rows None [] of
         (None, _) \<Rightarrow> fail_with ErrNoRows
       | (Some job, outputs) \<Rightarrow>
           and_then (query (select_timings ident)) (\<lambda>timings.
             ok (job\<lparr>JobTimings := Some timings\<rparr>, outputs))))"

subsection \<open>Job endpoints\<close>

definition getJob ::
    "(string \<Rightarrow> bool) \<Rightarrow> (output_row list \<Rightarrow> output_row list) \<Rightarrow> string \<Rightarrow> world \<Rightarrow> (api_job \<times> job_output list) response \<times> world" where
  "getJob uuid_ok arrange ident w =
     (case fetchJobWithOutputs uuid_ok arrange ident w of
        (Inl e, w') \<Rightarrow> (if errors_is e ErrNoRows then ErrorJSON 404 ''job not found'' else ErrorJSON 500 ''fetch job failed'', w')
      | (Inr res, w') \<Rightarrow> (JSON 200 res, w'))"

definition getJobOutputs ::
    "(string \<Rightarrow> bool) \<Rightarrow> (output_row list \<Rightarrow> output_row list) \<Rightarrow> string \<Rightarrow> world \<Rightarrow> job_output list response \<times> world" where
  "getJobOutputs uuid_ok arrange ident w =
     (case api_fetchJob uuid_ok ident w of
        (Inl e, w1) \<Rightarrow> (if errors_is e ErrNoRows then ErrorJSON 404 ''job not found'' else ErrorJSON 500 ''fetch job failed'', w1)
      | (Inr job, w1) \<Rightarrow>
          if JobStatus job \<noteq> job_status_text Completed then (ErrorJSON 409 ''job not yet completed'', w1)
          else (case fetchOutputs uuid_ok arrange (JobIdent job) w1 of
                  (Inl e, w2) \<Rightarrow> (ErrorJSON 500 ''fetch outputs failed'', w2)
                | (Inr outputs, w2) \<Rightarrow> (JSON 200 outputs, w2)))"

subsection \<open>Listings\<close>

definition scanned_worker :: "worker_row \<Rightarrow> api_worker" where
  "scanned_worker r = \<lparr>WorkerIdent = w_id r, WorkerStatus = worker_status_text (w_status r),
     WorkerCurrentJob = w_current_job r, LastHeartbeat = w_last_heartbeat r\<rparr>"

definition getWorkers :: "(worker_row list \<Rightarrow> worker_row list) \<Rightarrow> world \<Rightarrow> api_worker list response \<times> world" where
  "getWorkers arrange w =
     (case query (\<lambda>t d. Inr (order_by (\<lambda>r. - w_last_heartbeat r) arrange (workers d))) w of
        (Inl e, w1) \<Rightarrow> (ErrorJSON 500 ''fetch workers failed'', w1)
      | (Inr rows, w1) \<Rightarrow>
          (case scan_rows rows w1 of
             (Inl e, w2) \<Rightarrow> (ErrorJSON 500 ''scan workers failed'', w2)
           | (Inr rows, w2) \<Rightarrow> (JSON 200 (map scanned_worker rows), w2)))"

definition parseLimit :: "string \<Rightarrow> int \<Rightarrow> int \<Rightarrow> int" where
  "parseLimit raw fallback maximum =
     (if raw = '''' then fallback
      else case Atoi raw of
        Inl _ \<Rightarrow> fallback
      | Inr value \<Rightarrow> if value \<le> 0 then fallback else if value > maximum then maximum else value)"

definition isValidJobStatus :: "string \<Rightarrow> bool" where
  "isValidJobStatus status \<longleftrightarrow> status \<in> set (map job_status_text [Queued, Processing, Completed, Dead])"

text \<open>The listing does not select \<open>max_retries\<close>, which stays zero.\<close>

definition listed_job :: "job_row \<Rightarrow> api_job" where
  "listed_job j = (scanned_job j)\<lparr>JobMaxRetries := 0\<rparr>"

definition select_jobs :: "(job_row list \<Rightarrow> job_row list) \<Rightarrow> string \<Rightarrow> int \<Rightarrow> database \<Rightarrow> job_row list" where
  "select_jobs arrange status limit d =
     take (nat limit) (order_by (\<lambda>j. - j_updated_at j) arrange
       (if status = '''' then jobs d else filter (\<lambda>j. job_status_text (j_status j) = status) (jobs d)))"

definition getInternalJobs ::
    "(job_row list \<Rightarrow> job_row list) \<Rightarrow> string \<Rightarrow> string \<Rightarrow> world \<Rightarrow> api_job list response \<times> world" where
  "getInternalJobs arrange rawLimit status w =
     (let limit = parseLimit rawLimit 50 200 in
      if status \<noteq> '''' \<and> \<not> isValidJobStatus status then (ErrorJSON 400 ''invalid status'', w)
      else (case query (\<lambda>t d. Inr (select_jobs arrange status limit d)) w of
              (Inl e, w1) \<Rightarrow> (ErrorJSON 500 ''fetch jobs failed'', w1)
            | (Inr rows, w1) \<Rightarrow>
                (case scan_rows rows w1 of
                   (Inl e, w2) \<Rightarrow> (ErrorJSON 500 ''scan jobs failed'', w2)
                 | (Inr rows, w2) \<Rightarrow> (JSON 200 (map listed_job rows), w2))))"

subsection \<open>Statistics\<close>

record latency_stats =
  QueueWaitP50MS :: "int option"
  QueueWaitP95MS :: "int option"
  ProcessingP50MS :: "int option"
  ProcessingP95MS :: "int option"
  TotalP50MS :: "int option"
  TotalP95MS :: "int option"

record stats =
  QueueDepth :: int
  OldestQueuedAge :: "duration option"
  ActiveLeaseAge :: "duration option"
  ThroughputPerMin :: int
  StatsWorkers :: "string \<rightharpoonup> int"
  StatsJobs :: "string \<rightharpoonup> int"
  StatsAttempts :: "string \<rightharpoonup> int"
  Latency :: latency_stats

definition zero_counts :: "string list \<Rightarrow> string \<rightharpoonup> int" where
  "zero_counts ks = map_of (map (\<lambda>k. (k, 0)) ks)"

definition empty_stats :: stats where
  "empty_stats =
    \<lparr>QueueDepth = 0, OldestQueuedAge = None, ActiveLeaseAge = None, ThroughputPerMin = 0,
     StatsWorkers = zero_counts [''total'', ''idle'', ''busy'', ''dead''],
     StatsJobs = zero_counts (map job_status_text [Queued, Processing, Completed, Dead]),
     StatsAttempts = zero_counts [''running'', ''completed'', ''failed'', ''expired''],
     Latency = \<lparr>QueueWaitP50MS = None, QueueWaitP95MS = None, ProcessingP50MS = None, ProcessingP95MS = None,
                TotalP50MS = None, TotalP95MS = None\<rparr>\<rparr>"

text \<open>\<open>SELECT status::text, count(*) .. GROUP BY status\<close>: the statuses that occur.\<close>

definition group_count :: "('a \<Rightarrow> string) \<Rightarrow> 'a list \<Rightarrow> (string \<times> int) list" where
  "group_count f rows = map (\<lambda>s. (s, int (length (filter (\<lambda>r. f r = s) rows)))) (remdups (map f rows))"

fun set_counts :: "(string \<times> int) list \<Rightarrow> (string \<rightharpoonup> int) \<Rightarrow> string \<rightharpoonup> int" where
  "set_counts [] m = m"
| "set_counts ((s, c) # rows) m = set_counts rows (m(s \<mapsto> c))"

definition query_rows :: "(database \<Rightarrow> 'a list) \<Rightarrow> (world, 'a list) call" where
  "query_rows q = and_then (query (\<lambda>t d. Inr (q d))) scan_rows"

text \<open>\<open>now() - min(..)\<close> over the rows, NULL when there is none.\<close>

definition oldest_age :: "time \<Rightarrow> time list \<Rightarrow> duration option" where
  "oldest_age t ts = (if ts = [] then None else Some (t - Min (set ts)))"

definition aggregate :: "(nat \<Rightarrow> int list \<Rightarrow> int) \<Rightarrow> nat \<Rightarrow> int list \<Rightarrow> int option" where
  "aggregate percentile_cont pct vals = (if vals = [] then None else Some (percentile_cont pct vals))"

definition latency_rows :: "time \<Rightarrow> database \<Rightarrow> (attempt_row \<times> job_row) list" where
  "latency_rows t d =
     [(a, j). a \<leftarrow> job_attempts d, j \<leftarrow> jobs d,
        j_completed_attempt j = Some (a_id a) \<and> a_status a = AttemptCompleted \<and>
        (case a_finished_at a of None \<Rightarrow> False | Some f \<Rightarrow> f \<ge> t - 60 * Minute)]"

definition select_latency :: "(nat \<Rightarrow> int list \<Rightarrow> int) \<Rightarrow> time \<Rightarrow> database \<Rightarrow> latency_stats" where
  "select_latency percentile_cont t d =
     (let rows = latency_rows t d;
          waits = map (\<lambda>(a, j). a_started_at a - a_queue_entered_at a) rows;
          procs = List.map_filter (\<lambda>(a, j). map_option (\<lambda>ms. ms * 1000000) (a_processing_ms a)) rows;
          totals = List.map_filter (\<lambda>(a, j). map_option (\<lambda>c. c - j_created_at j) (j_completed_at j)) rows;
          agg = aggregate percentile_cont
      in \<lparr>QueueWaitP50MS = agg 50 waits, QueueWaitP95MS = agg 95 waits, ProcessingP50MS = agg 50 procs,
          ProcessingP95MS = agg 95 procs, TotalP50MS = agg 50 totals, TotalP95MS = agg 95 totals\<rparr>)"

text \<open>The eight goroutines of \<open>collectStats\<close>; each sets its own fields.\<close>

definition stats_queries :: "(nat \<Rightarrow> int list \<Rightarrow> int) \<Rightarrow> (world, stats \<Rightarrow> stats) call list" where
  "stats_queries percentile_cont =
    [and_then (rd (\<lambda>_ r. (int (SCARD QueuedJobsSet r), r))) (\<lambda>depth. ok (\<lambda>s. s\<lparr>QueueDepth := depth\<rparr>)),
     and_then (query_rows (\<lambda>d. group_count (\<lambda>j. job_status_text (j_status j)) (jobs d)))
       (\<lambda>rows. ok (\<lambda>s. s\<lparr>StatsJobs := set_counts rows (StatsJobs s)\<rparr>)),
     and_then (query_rows (\<lambda>d. group_count (\<lambda>r. worker_status_text (w_status r)) (workers d)))
       (\<lambda>rows. ok (\<lambda>s. s\<lparr>StatsWorkers := (set_counts rows (StatsWorkers s))(''total'' \<mapsto> sum_list (map snd rows))\<rparr>)),
     and_then (query (\<lambda>t d. Inr (int (length (filter (\<lambda>j. j_status j = Completed \<and> j_updated_at j \<ge> t - Minute) (jobs d))))))
       (\<lambda>n. ok (\<lambda>s. s\<lparr>ThroughputPerMin := n\<rparr>)),
     and_then (query (\<lambda>t d. Inr (select_latency percentile_cont t d))) (\<lambda>l. ok (\<lambda>s. s\<lparr>Latency := l\<rparr>)),
     and_then (query_rows (\<lambda>d. group_count (\<lambda>a. attempt_status_text (a_status a)) (job_attempts d)))
       (\<lambda>rows. ok (\<lambda>s. s\<lparr>StatsAttempts := set_counts rows (StatsAttempts s)\<rparr>)),
     and_then (query (\<lambda>t d. Inr (oldest_age t (map j_queue_entered_at (filter (\<lambda>j. j_status j = Queued) (jobs d))))))
       (\<lambda>age. ok (\<lambda>s. s\<lparr>OldestQueuedAge := age\<rparr>)),
     and_then (query (\<lambda>t d. Inr (oldest_age t (map a_started_at (filter (\<lambda>a. a_status a = Running) (job_attempts d))))))
       (\<lambda>age. ok (\<lambda>s. s\<lparr>ActiveLeaseAge := age\<rparr>))]"

text \<open>The group: the goroutines in some order, up to the first error.\<close>

fun run_group :: "('w, 's \<Rightarrow> 's) call list \<Rightarrow> 's \<Rightarrow> ('w, 's) call" where
  "run_group [] s w = (Inr s, w)"
| "run_group (g # gs) s w = (case g w of (Inl e, w') \<Rightarrow> (Inl e, w') | (Inr f, w') \<Rightarrow> run_group gs (f s) w')"

definition collectStats :: "(nat \<Rightarrow> int list \<Rightarrow> int) \<Rightarrow> nat list \<Rightarrow> (world, stats) call" where
  "collectStats percentile_cont order = run_group (map (\<lambda>i. stats_queries percentile_cont ! i) order) empty_stats"

definition getStats :: "(nat \<Rightarrow> int list \<Rightarrow> int) \<Rightarrow> nat list \<Rightarrow> world \<Rightarrow> stats response \<times> world" where
  "getStats percentile_cont order w =
     (case collectStats percentile_cont order w of
        (Inl e, w') \<Rightarrow> (ErrorJSON 500 ''fetch stats failed'', w')
      | (Inr s, w') \<Rightarrow> (JSON 200 s, w'))"

text \<open>One event of the stream: \<open>data: \<close>, the JSON text and an empty line; \<open>marshal\<close> is \<open>json.Marshal\<close>.\<close>

definition writeStatsEvent :: "(nat \<Rightarrow> int list \<Rightarrow> int) \<Rightarrow> nat list \<Rightarrow> (stats \<Rightarrow> string result) \<Rightarrow> (string \<Rightarrow> unit result) \<Rightarrow> (world, string) call" where
  "writeStatsEvent percentile_cont order marshal write =
     and_then (collectStats percentile_cont order) (\<lambda>s.
       case marshal s of
         Inl e \<Rightarrow> fail_with e
       | Inr payload \<Rightarrow>
           (let text = ''data: '' @ payload @ [CHR 0x0A, CHR 0x0A] in
            case write text of Inl e \<Rightarrow> fail_with e | Inr _ \<Rightarrow> ok text))"

text \<open>
  The stream: an event, then the client's departure (\<open>True\<close>) or the next tick, until an event fails.
  \<open>selects\<close> lists what the \<open>select\<close> statements see; the events written are returned. Without a
  flusher the request is refused.
\<close>

fun stream_events :: "(nat \<Rightarrow> int list \<Rightarrow> int) \<Rightarrow> nat list \<Rightarrow> (stats \<Rightarrow> string result) \<Rightarrow> (string \<Rightarrow> unit result) \<Rightarrow> bool list \<Rightarrow> world \<Rightarrow> string list \<times> world" where
  "stream_events percentile_cont order marshal write selects w =
     (case writeStatsEvent percentile_cont order marshal write w of
        (Inl e, w') \<Rightarrow> ([], w')
      | (Inr ev, w') \<Rightarrow>
          (case selects of
             [] \<Rightarrow> ([ev], w')
           | gone # rest \<Rightarrow>
               if gone then ([ev], w')
               else (case stream_events percentile_cont order marshal write rest w' of (evs, w'') \<Rightarrow> (ev # evs, w''))))"

text \<open>What a handler can do besides returning: \<open>time.NewTicker\<close> panics for a period that is not positive.\<close>

datatype 'a outcome = Returned 'a | Panicked

definition streamStats :: "api_config \<Rightarrow> (nat \<Rightarrow> int list \<Rightarrow> int) \<Rightarrow> nat list \<Rightarrow> (stats \<Rightarrow> string result) \<Rightarrow> (string \<Rightarrow> unit result) \<Rightarrow> bool \<Rightarrow> bool list \<Rightarrow>
    world \<Rightarrow> (string list) response outcome \<times> world" where
  "streamStats cfg percentile_cont order marshal write flusher selects w =
     (if \<not> flusher then (Returned (ErrorJSON 500 ''streaming unsupported''), w)
      else if StatsStreamPeriod cfg \<le> 0 then (Panicked, w)
      else case stream_events percentile_cont order marshal write selects w of (evs, w') \<Rightarrow> (Returned (JSON 200 evs), w'))"

end
