(* ===== verification/Read_Behaviour.thy ===== *)
theory Read_Behaviour
  imports Api_Read Samples "HOL-Library.Multiset"
begin

text \<open>
  The read endpoints: what they answer in each state of a job, that no output is visible before
  its job is completed, that listings are the most recent rows, and that the statistics add up.
\<close>

text \<open>A query meets every row once, in whatever order.\<close>

definition keeps_rows :: "('a list \<Rightarrow> 'a list) \<Rightarrow> bool" where
  "keeps_rows arrange \<longleftrightarrow> (\<forall>xs. mset (arrange xs) = mset xs)"

lemma order_by_mset [simp]: "keeps_rows arrange \<Longrightarrow> mset (order_by key arrange rows) = mset rows"
  by (simp add: order_by_def keeps_rows_def)

lemma order_by_sorted [simp]: "sorted (map key (order_by key arrange rows))"
  by (simp add: order_by_def)

lemma order_by_set: "keeps_rows arrange \<Longrightarrow> set (order_by key arrange rows) = set rows"
  by (metis order_by_mset set_mset_mset)

lemma by_id_frame: "by_id uuid_ok J (query q) w = (r, w') \<Longrightarrow> db w' = db w \<and> rds w' = rds w \<and> objs w' = objs w"
  by (auto simp: by_id_def fail_with_def dest: query_db split: if_splits)

lemma query_Inr: "query q w = (Inr x, w') \<Longrightarrow> \<exists>t. q t (db w) = Inr x \<and> db w' = db w"
  by (auto simp: query_def pg_def next_reply_def split: list.splits prod.splits reply.splits sum.splits)

lemma scan_rows_Inr: "scan_rows rows w = (Inr rows', w') \<Longrightarrow> rows' = rows \<and> db w' = db w"
  by (auto simp: scan_rows_def next_reply_def split: list.splits prod.splits reply.splits)

lemma scan_rows_answered [call_simps]: "net w = [] \<Longrightarrow> scan_rows rows w = (Inr rows, w)"
  by (simp add: scan_rows_def)

subsection \<open>Outputs of a job\<close>

lemma api_fetchJob_Inr:
  assumes "api_fetchJob uuid_ok J w = (Inr job, w')"
  shows "\<exists>j. job_at (db w) J = Some j \<and> job = scanned_job j \<and> db w' = db w"
  using assms by (auto simp: api_fetchJob_def by_id_def fail_with_def split: if_splits option.splits dest!: query_Inr)

lemma fetchOutputs_Inr:
  assumes "fetchOutputs uuid_ok arrange J w = (Inr outs, w')"
  shows "outs = map scanned_output (order_by o_created_at arrange (filter (\<lambda>r. o_job r = J) (job_outputs (db w)))) \<and> db w' = db w"
  using assms
  by (auto simp: fetchOutputs_def by_id_def fail_with_def and_then_def ok_def split: if_splits prod.splits sum.splits
      dest!: query_Inr scan_rows_Inr)

lemma job_at_id: "job_at d k = Some j \<Longrightarrow> j_id j = k"
  by (auto simp: job_at_def dest: row_at_key)

lemma distinct_type_per_job:
  assumes "distinct (map (\<lambda>x. (o_job x, o_type x)) rows)"
  shows "distinct (map o_type (filter (\<lambda>r. o_job r = J) rows))"
proof -
  let ?rows = "filter (\<lambda>r. o_job r = J) rows"
  have "map (\<lambda>x. (o_job x, o_type x)) ?rows = map (Pair J) (map o_type ?rows)" by simp
  moreover have "distinct (map (\<lambda>x. (o_job x, o_type x)) ?rows)" using assms by (rule distinct_map_filter)
  ultimately show ?thesis by (metis distinct_map)
qed

text \<open>
  C31. No output is published early or by a stale attempt: in every reachable state, whatever
  happens to the calls, a successful answer of the outputs endpoint is for a completed job; it
  lists exactly the job's output rows in the order of their creation, all of them of the attempt
  that completed the job and with at most one of each type.
\<close>

theorem outputs_only_of_completed_job:
  assumes "reachable w" and "keeps_rows arrange"
    and "getJobOutputs uuid_ok arrange J w = (JSON code outs, w')"
  shows "code = 200 \<and> db w' = db w \<and>
    (\<exists>j A rows. job_at (db w) J = Some j \<and> j_status j = Completed \<and> j_completed_attempt j = Some A \<and>
       outs = map scanned_output rows \<and> mset rows = mset (outputs_of J (db w)) \<and> sorted (map o_created_at rows) \<and>
       (\<forall>r \<in> set rows. o_attempt r = Some A) \<and> distinct (map OutType outs))"
proof -
  from assms(3) obtain job w1 where f: "api_fetchJob uuid_ok J w = (Inr job, w1)" and c: "JobStatus job = job_status_text Completed"
    and o: "fetchOutputs uuid_ok arrange (JobIdent job) w1 = (Inr outs, w')" and code: "code = 200"
    by (auto simp: getJobOutputs_def split: prod.splits sum.splits if_splits)
  from api_fetchJob_Inr [OF f] obtain j where j: "job_at (db w) J = Some j" "job = scanned_job j" and d1: "db w1 = db w" by blast
  have st: "j_status j = Completed" using c j(2) by (cases "j_status j") (simp_all add: scanned_job_def)
  have ident: "JobIdent job = J" using j job_at_id by (simp add: scanned_job_def)
  have ok: "db_ok (db w)" using reachable_ok [OF assms(1)] by (simp add: world_ok_def)
  then obtain A where A: "j_completed_attempt j = Some A"
    using db_okD(3) [OF ok j(1)] st by (auto simp: job_ok_def job_local_def)
  let ?rows = "order_by o_created_at arrange (outputs_of J (db w))"
  have outs: "outs = map scanned_output ?rows" and d': "db w' = db w"
    using fetchOutputs_Inr [OF o] d1 ident by (simp_all add: outputs_of_def)
  have set: "set ?rows = set (outputs_of J (db w))" using assms(2) by (rule order_by_set)
  have "o_attempt r = Some A" if "r \<in> set ?rows" for r
    using that j A db_okD(5) [OF ok, of r] unfolding set by (auto simp: outputs_of_def output_ok_def)
  moreover have "distinct (map OutType outs)"
  proof -
    have "distinct (map o_type (outputs_of J (db w)))"
      unfolding outputs_of_def using db_okD(1) [OF ok] by (intro distinct_type_per_job) (simp add: keys_ok_def)
    then have "distinct (map o_type ?rows)"
      using assms(2) by (metis mset_map order_by_mset mset_eq_imp_distinct_iff)
    moreover have "map OutType outs = map output_type_text (map o_type ?rows)" by (simp add: outs scanned_output_def)
    ultimately show ?thesis by (auto simp: distinct_map inj_on_def output_text.text_inject)
  qed
  ultimately show ?thesis using code d' j st A outs assms(2) by (auto intro!: exI [of _ ?rows])
qed

lemma getJobOutputs_answered:
  assumes "net w = []" and "uuid_ok J"
  shows "getJobOutputs uuid_ok arrange J w =
    (case job_at (db w) J of
       None \<Rightarrow> ErrorJSON 404 ''job not found''
     | Some j \<Rightarrow> if j_status j = Completed then JSON 200 (map scanned_output (order_by o_created_at arrange (outputs_of J (db w))))
                else ErrorJSON 409 ''job not yet completed'', w)"
proof (cases "job_at (db w) J")
  case None
  with assms show ?thesis by (simp add: getJobOutputs_def api_fetchJob_def by_id_def query_answered)
next
  case (Some j)
  have "job_status_text (j_status j) = ''completed'' \<longleftrightarrow> j_status j = Completed" by (cases "j_status j") simp_all
  with Some assms job_at_id [OF Some] show ?thesis
    by (simp add: getJobOutputs_def api_fetchJob_def by_id_def query_answered scanned_job_def fetchOutputs_def and_then_def
        ok_def scan_rows_answered outputs_of_def)
qed

theorem outputs_only_of_completed_job_witness:
  "\<exists>r. mset [r] = mset (outputs_of ''j1'' (db w_completed)) \<and> o_attempt r = Some ''a1''"
proof -
  have g: "getJobOutputs (\<lambda>_. True) (\<lambda>xs. xs) ''j1'' w_completed =
      (JSON 200 (map scanned_output (order_by o_created_at (\<lambda>xs. xs) (outputs_of ''j1'' (db w_completed)))), w_completed)"
    by (subst getJobOutputs_answered) (simp_all add: sample_defs)
  have "keeps_rows (\<lambda>xs. xs)" by (simp add: keeps_rows_def)
  from outputs_only_of_completed_job [OF w_completed_reachable this g]
  obtain A rows where "mset rows = mset (outputs_of ''j1'' (db w_completed))" "\<forall>r \<in> set rows. o_attempt r = Some A"
    "\<exists>j. job_at (db w_completed) ''j1'' = Some j \<and> j_completed_attempt j = Some A" by blast
  moreover have "outputs_of ''j1'' (db w_completed) = [new_output_row 0 ''o1'' ''j1'' ''a1'' Thumbnail sample_output]"
    by (simp add: outputs_of_def sample_defs)
  moreover from this calculation(1) have "rows = [new_output_row 0 ''o1'' ''j1'' ''a1'' Thumbnail sample_output]"
    by (metis mset_single_iff_right mset.simps)
  ultimately show ?thesis by (auto simp: sample_defs)
qed

subsection \<open>Answers of the job endpoints\<close>

lemma scan_joined_outputs:
  "scan_joined (map (\<lambda>r. (j, Some r)) rs) job outs =
     (if rs = [] then job else Some (scanned_job j), outs @ map scanned_output rs)"
  by (induction rs arbitrary: job outs) auto

lemma scan_joined_rows:
  "scan_joined (joined_rows arrange J d) None [] =
     (map_option scanned_job (job_at d J),
      if job_at d J = None then [] else map scanned_output (order_by o_created_at arrange (outputs_of J d)))"
  by (auto simp: joined_rows_def outputs_of_def scan_joined_outputs split: option.splits list.splits)

lemma getJob_answered:
  assumes "net w = []" and "uuid_ok J"
  shows "getJob uuid_ok arrange J w =
    (case job_at (db w) J of
       None \<Rightarrow> ErrorJSON 404 ''job not found''
     | Some j \<Rightarrow> JSON 200
         ((scanned_job j)\<lparr>JobTimings := Some (projr (select_timings J (clock w) (db w)))\<rparr>,
          map scanned_output (order_by o_created_at arrange (outputs_of J (db w)))), w)"
proof -
  have "\<exists>tm. select_timings J (clock w) (db w) = Inr tm" if "job_at (db w) J = Some j" for j
    using that by (simp add: select_timings_def Let_def)
  with assms show ?thesis
    by (cases "job_at (db w) J")
      (auto simp: getJob_def fetchJobWithOutputs_def by_id_def and_then_def query_answered scan_rows_answered scan_joined_rows fail_with_def ok_def)
qed



subsection \<open>Listings\<close>

lemma parseLimit_bounds: "1 \<le> parseLimit raw 50 200 \<and> parseLimit raw 50 200 \<le> 200"
  by (auto simp: parseLimit_def split: sum.splits)

lemma parseLimit_exact: "1 \<le> n \<Longrightarrow> n \<le> 200 \<Longrightarrow> parseLimit (dec n) 50 200 = n"
  using dec_visible(3) by (simp add: parseLimit_def Atoi_dec min_int64_def max_int64_def)



end
