(* ===== verification/End_To_End.thy ===== *)
theory End_To_End
  imports Job_Success Upload_Behaviour Read_Behaviour
begin

text \<open>
  The three services in one story: a client uploads a video to the API server, a worker takes the
  job from the queue and runs it, and the client fetches the outputs.
\<close>

subsection \<open>Calls that are answered leave nothing pending\<close>

definition stays_answered :: "world \<Rightarrow> world \<Rightarrow> bool" where
  "stays_answered w w' \<longleftrightarrow> (net w = [] \<longrightarrow> net w' = [])"

interpretation quiet: run_relation stays_answered
  by unfold_locales (simp_all add: stays_answered_def)

lemma storeUpload_quiet: "stays_answered w (snd (storeUpload cfg detect buf J part w))"
  by (auto simp: stays_answered_def storeUpload_def put_stream_def put_object_def removeStoredObject_def remove_object_def
      log_err_def fail_with_def ok_def Let_def split: prod.splits option.splits sum.splits reply.splits)

lemma removeStored_quiet: "stays_answered w (snd (removeStoredObject k w))"
  by (simp add: stays_answered_def removeStoredObject_def log_err_def remove_object_def ok_def)

lemma upload_parts_quiet: "stays_answered w (snd (upload_parts cfg text_of detect buf J evs st w))"
proof (induction evs arbitrary: st w)
  case (Cons ev evs)
  show ?case
  proof (cases ev)
    case (Part part)
    have s: "stays_answered w u" if "storeUpload cfg detect buf J part w = (q, u)" for q u
      using storeUpload_quiet [of w cfg detect buf J part] that by simp
    show ?thesis
      using Cons.IH removeStored_quiet quiet.stay Part
      by (auto split: sum.splits prod.splits intro: s quiet.join)
  qed (simp add: quiet.stay)
qed (simp add: quiet.stay)

lemma create_queues:
  assumes "net w = []" and "valid_priority p" and "createQueuedJob cfg J f p w = (Inr x, w')"
  shows "\<exists>d. create_job_tx cfg J f p (clock w) (db w) = Inr ((), d) \<and> w' = w\<lparr>db := d, rds := snd (run_enqueue J p (rds w))\<rparr>"
  using assms
  by (auto simp: createQueuedJob_def and_then_def log_err_def pg_answered Enqueue_answered split: sum.splits)

text \<open>What an accepted upload with answered calls leaves behind.\<close>

lemma accepted_upload:
  assumes "net w = []" and "upload cfg text_of detect buf J form w = (JSON code body, w1)"
  obtains evs part ct p where "form = Some evs" and "Part part \<in> set evs" and "FormName part = ''file''"
    and "store_outcome cfg detect part = Inr ct" and "objs w1 (part_key cfg J part) = Some (stored_object ct part)"
    and "valid_priority p" and "rds w1 = snd (run_enqueue J p (rds w))" and "net w1 = []" and "job_at (db w) J = None"
    and "create_job_tx cfg J (part_key cfg J part) p (clock w1) (db w) = Inr ((), db w1)"
proof -
  from assms(2) obtain evs st u where form: "form = Some evs"
    and loop: "upload_parts cfg text_of detect buf J evs upload_start w = (Inr st, u)"
    and up: "fileUploaded st" and c: "createQueuedJob cfg J (inputFile st) (priority st) u = (Inr (), w1)"
    by (rule upload_JSON)
  from upload_parts_stores [OF loop] up obtain part ct where part: "Part part \<in> set evs" "FormName part = ''file''"
    "store_outcome cfg detect part = Inr ct" "inputFile st = part_key cfg J part"
    "objs u (part_key cfg J part) = Some (stored_object ct part)" by auto
  have p: "valid_priority (priority st)" by (rule conjunct1 [OF upload_parts_priority [OF loop]]) simp
  have u: "db u = db w" "rds u = rds w" using upload_parts_frame [OF loop] by simp_all
  have net: "net u = []" using upload_parts_quiet [of w cfg text_of detect buf J evs upload_start] loop assms(1)
    by (simp add: stays_answered_def)
  from create_queues [OF net p c] obtain d where d: "create_job_tx cfg J (inputFile st) (priority st) (clock u) (db u) = Inr ((), d)"
    and w1: "w1 = u\<lparr>db := d, rds := snd (run_enqueue J (priority st) (rds u))\<rparr>" by blast
  then show ?thesis using that [OF form part(1,2,3) _ p] part(4,5) u net create_effect(1) [OF d] by simp
qed

lemma worker_turn_message:
  "on_world poll s = (Inr (Some msg), s1) \<Longrightarrow> processJob cfg wid txt e A msg s1 = (r, s2) \<Longrightarrow> worker_turn cfg wid txt e A s = s2"
  by (simp add: worker_turn_def)

text \<open>A job that is alone in the queue is what the next turn of a worker completes.\<close>

lemma turn_completes:
  assumes "reachable w" and "net w = []" and "contents (rds w) = [(p, J)]" and "job_at (db w) J = Some j" and "j_status j = Queued"
    and "j_retry_count j < 2 ^ 31 - 1" and "worker_at (db w) wid \<noteq> None" and "attempt_at (db w) A = None" and "A \<noteq> ''''"
    and "objs w (j_input_file j) = Some ob" and "plain_name J" and "transcodes (ffmpeg e) enc"
    and "ProcessingMode cfg = processingModeSequential \<or> any_order (ffmpeg_order e)" and "any_order (upload_order e)"
    and "fresh_ids (output_ids e) (db w)"
  shows "\<exists>w' f'. worker_turn cfg wid txt e A (w, f) = (w', f') \<and> reachable w' \<and> net w' = [] \<and>
    (\<exists>j'. job_at (db w') J = Some j' \<and> j_status j' = Completed) \<and>
    map o_type (outputs_of J (db w')) = output_types \<and>
    map o_cdn_url (outputs_of J (db w')) = map (\<lambda>ty. cdnURL cfg (object_key cfg J A (output_type_text ty))) output_types \<and>
    (\<forall>ty \<in> set output_types. \<exists>o'. objs w' (object_key cfg J A (output_type_text ty)) = Some o' \<and>
        content o' = enc (output_type_text ty) (content ob))"
proof -
  let ?w = "w\<lparr>rds := snd (run_pop (rds w))\<rparr>"
  let ?msg = "\<lparr>JobID = J, MsgInputFile = j_input_file j, MsgPriority = p, EnqueuedAt = zero_time\<rparr>"
  have ok: "world_ok w" using reachable_ok [OF assms(1)] .
  from poll_front [OF ok assms(2,3)] assms(4) have poll: "poll w = (Inr (Some ?msg), ?w)" by force
  have "steps w ?w" using runs_inD [OF poll_runs poll] .
  then have r: "reachable ?w" by (rule reachable_steps [OF assms(1)])
  have "\<exists>w' f'. processJob cfg wid txt e A ?msg (?w, f) = (Inr (), (w', f')) \<and>
    (\<exists>j'. job_at (db w') J = Some j' \<and> j_status j' = Completed \<and> j_completed_attempt j' = Some A) \<and>
    net w' = [] \<and> map o_type (outputs_of J (db w')) = output_types \<and>
    map o_cdn_url (outputs_of J (db w')) = map (\<lambda>ty. cdnURL cfg (object_key cfg J A (output_type_text ty))) output_types \<and>
    (\<forall>ty \<in> set output_types. \<exists>o'. objs w' (object_key cfg J A (output_type_text ty)) = Some o' \<and>
        content o' = enc (output_type_text ty) (content ob)) \<and>
    (\<exists>x. worker_at (db w') wid = Some x \<and> w_status x = Idle \<and> w_current_job x = None) \<and>
    f' = (\<lambda>q. if under (work_dir cfg e J) q then None else f q)"
    by (rule processJob_completes [OF r]) (use assms in simp_all)
  then obtain w' f' where run: "processJob cfg wid txt e A ?msg (?w, f) = (Inr (), (w', f'))"
    and fin: "net w' = []" "\<exists>j'. job_at (db w') J = Some j' \<and> j_status j' = Completed"
      "map o_type (outputs_of J (db w')) = output_types"
      "map o_cdn_url (outputs_of J (db w')) = map (\<lambda>ty. cdnURL cfg (object_key cfg J A (output_type_text ty))) output_types"
      "\<forall>ty \<in> set output_types. \<exists>o'. objs w' (object_key cfg J A (output_type_text ty)) = Some o' \<and>
        content o' = enc (output_type_text ty) (content ob)"
    by blast
  have turn: "worker_turn cfg wid txt e A (w, f) = (w', f')"
    by (rule worker_turn_message [OF _ run]) (simp add: on_world_def poll)
  have "steps ?w w'" using runs_inD [OF processJob_runs [OF assms(9)] run] by (simp add: msteps_def)
  then have "reachable w'" by (rule reachable_steps [OF r])
  with turn fin show ?thesis by blast
qed

text \<open>The outputs endpoint on a completed job whose four outputs are stored.\<close>

lemma outputs_listed:
  assumes "net w = []" and "uuid_ok J" and "keeps_rows arrange" and "job_at (db w) J = Some j" and "j_status j = Completed"
    and types: "map o_type (outputs_of J (db w)) = output_types"
    and urls: "map o_cdn_url (outputs_of J (db w)) = map (\<lambda>ty. cdnURL cfg (object_key cfg J A (output_type_text ty))) output_types"
    and stored: "\<forall>ty \<in> set output_types. \<exists>o'. objs w (object_key cfg J A (output_type_text ty)) = Some o' \<and>
        content o' = enc (output_type_text ty) data"
  shows "\<exists>outs. getJobOutputs uuid_ok arrange J w = (JSON 200 outs, w) \<and>
    mset (map OutType outs) = {#''video_360p'', ''video_720p'', ''video_1080p'', ''thumbnail''#} \<and>
    (\<forall>out \<in> set outs. \<exists>key ob. OutCDNURL out = cdnURL cfg key \<and> objs w key = Some ob \<and> content ob = enc (OutType out) data)"
proof (intro exI conjI)
  let ?rows = "order_by o_created_at arrange (outputs_of J (db w))"
  show "getJobOutputs uuid_ok arrange J w = (JSON 200 (map scanned_output ?rows), w)"
    using getJobOutputs_answered [OF assms(1), of uuid_ok J arrange] assms(2,4,5) by simp
  have rows: "set ?rows = set (outputs_of J (db w))" "mset ?rows = mset (outputs_of J (db w))"
    using order_by_set [OF assms(3)] order_by_mset [OF assms(3)] by auto
  have url: "o_cdn_url r = cdnURL cfg (object_key cfg J A (output_type_text (o_type r))) \<and> o_type r \<in> set output_types"
    if "r \<in> set ?rows" for r using that urls unfolding rows types [symmetric] by auto
  have "mset (map OutType (map scanned_output ?rows)) = image_mset output_type_text (mset (map o_type (outputs_of J (db w))))"
    using rows(2) by (simp add: scanned_output_def image_mset.compositionality o_def)
  then show "mset (map OutType (map scanned_output ?rows)) = {#''video_360p'', ''video_720p'', ''video_1080p'', ''thumbnail''#}"
    unfolding types by (simp add: output_types_def)
  show "\<forall>out \<in> set (map scanned_output ?rows). \<exists>key ob. OutCDNURL out = cdnURL cfg key \<and> objs w key = Some ob \<and>
      content ob = enc (OutType out) data"
    using url stored by (fastforce simp: scanned_output_def)
qed


text \<open>A world with a registered worker and nothing else.\<close>

definition w_ready :: world where
  "w_ready = snd (pg (register ''w1'') empty_world)"

lemma w_ready_reachable: "reachable w_ready"
  unfolding w_ready_def by (intro reachable_run register_runs empty_world_reachable)

lemma w_ready_eq:
  "w_ready = empty_world\<lparr>db := empty_db\<lparr>workers := [\<lparr>w_id = ''w1'', w_status = Idle, w_current_job = None, w_last_heartbeat = 0\<rparr>]\<rparr>\<rparr>"
  by (simp add: w_ready_def pg_answered register_def worker_at_def empty_world_def empty_db_def)


end
