(* ===== verification/Reaper_Leader.thy ===== *)
theory Reaper_Leader
  imports Reaper_Sweep
begin

text \<open>
  Leadership among reapers (\<open>reaper/internal/reaper/reaper.go\<close>): a lock in Redis with an expiry,
  taken with \<open>SETNX\<close>, refreshed and released by scripts that first compare the owner. A reaper
  sweeps only while it holds the lock. The refresh runs beside the sweep, so its ticks are
  operations of their own.
\<close>

definition reaperLockKey :: string where
  "reaperLockKey = ''reaper_lock''"

text \<open>Redis rejects an expiry that is not positive.\<close>

definition acquireLeadership :: "reaper_config \<Rightarrow> uuid \<Rightarrow> (world, bool) call" where
  "acquireLeadership cfg rid =
     (if LeadershipLockTTL cfg \<le> 0 then fail_with (ErrText ''ERR invalid expire time'')
      else rd (\<lambda>t r. SETNX t reaperLockKey rid (LeadershipLockTTL cfg) r))"

text \<open>The scripts; \<open>EXPIRE\<close> takes whole seconds.\<close>

definition refresh_script :: "time \<Rightarrow> string \<Rightarrow> uuid \<Rightarrow> int \<Rightarrow> redis \<Rightarrow> int \<times> redis" where
  "refresh_script t key owner seconds r =
     (if GET t key r = Some owner then (1, EXPIRE t key (seconds * Second) r) else (0, r))"

definition release_script :: "time \<Rightarrow> string \<Rightarrow> uuid \<Rightarrow> redis \<Rightarrow> int \<times> redis" where
  "release_script t key owner r =
     (if GET t key r = Some owner then (1, DEL key r) else (0, r))"

definition refreshLeadership :: "reaper_config \<Rightarrow> uuid \<Rightarrow> (world, unit) call" where
  "refreshLeadership cfg rid =
     and_then (rd (\<lambda>t r. refresh_script t reaperLockKey rid (quot (LeadershipLockTTL cfg) Second) r)) (\<lambda>_. ok ())"

text \<open>A tick of \<open>refreshLeadershipUntilDone\<close>, every \<open>refresh_period (LeadershipLockTTL cfg)\<close>; an error is logged.\<close>

definition refreshLeadership_tick :: "reaper_config \<Rightarrow> uuid \<Rightarrow> (world, unit) call" where
  "refreshLeadership_tick cfg rid = log_err (refreshLeadership cfg rid)"

definition releaseLeadership :: "uuid \<Rightarrow> (world, unit) call" where
  "releaseLeadership rid = log_err (rd (\<lambda>t r. release_script t reaperLockKey rid r))"

definition sweepWithLeadership :: "reaper_config \<Rightarrow> uuid \<Rightarrow> (world, unit) call" where
  "sweepWithLeadership cfg rid w =
     (case acquireLeadership cfg rid w of
        (Inl _, w1) \<Rightarrow> (Inr (), w1)
      | (Inr locked, w1) \<Rightarrow>
          if \<not> locked then (Inr (), w1)
          else (case Sweep cfg w1 of (_, w2) \<Rightarrow> releaseLeadership rid w2))"

text \<open>One turn of \<open>Run\<close>: a sweep if this reaper leads, then the pause.\<close>

definition Run_turn :: "reaper_config \<Rightarrow> uuid \<Rightarrow> world \<Rightarrow> world" where
  "Run_turn cfg rid w =
     (let w1 = snd (sweepWithLeadership cfg rid w)
      in w1\<lparr>clock := clock w1 + max 0 (SweepInterval cfg)\<rparr>)"

subsection \<open>The lock by itself\<close>

text \<open>
  What any number of reapers do to the lock over time: \<open>Acquire\<close>, \<open>Refresh\<close>, \<open>Release\<close> by an
  owner, and the passing of time.
\<close>

datatype lock_op = Acquire uuid | Refresh uuid | Release uuid | Pass nat

fun lock_step :: "int \<Rightarrow> lock_op \<Rightarrow> time \<times> redis \<Rightarrow> time \<times> redis" where
  "lock_step ttl (Acquire o') (t, r) = (t, snd (SETNX t reaperLockKey o' ttl r))"
| "lock_step ttl (Refresh o') (t, r) = (t, snd (refresh_script t reaperLockKey o' (quot ttl Second) r))"
| "lock_step ttl (Release o') (t, r) = (t, snd (release_script t reaperLockKey o' r))"
| "lock_step ttl (Pass dt) (t, r) = (t + int dt, r)"

definition lock_run :: "int \<Rightarrow> lock_op list \<Rightarrow> time \<times> redis \<Rightarrow> time \<times> redis" where
  "lock_run ttl ops s = fold (lock_step ttl) ops s"

text \<open>The owner at a time, and the expiry of its lock.\<close>

definition leads :: "uuid \<Rightarrow> time \<Rightarrow> redis \<Rightarrow> bool" where
  "leads rid t r \<longleftrightarrow> GET t reaperLockKey r = Some rid"

definition holds_until :: "uuid \<Rightarrow> time \<Rightarrow> redis \<Rightarrow> bool" where
  "holds_until rid e r \<longleftrightarrow> (\<exists>e'. r_strs r reaperLockKey = Some (rid, e') \<and> e \<le> e')"

text \<open>
  The contract between the reapers and the store: a lock that is taken when it is free, extended
  and given back by its owner only, and free again when its time has passed. A refresh with the
  argument \<open>n\<close> buys the time \<open>span n\<close>. The client lemmas say how long an owner can rely on it.
\<close>

locale expiring_lock =
  fixes lease :: "'s \<Rightarrow> ('o \<times> time) option"
    and owner :: "time \<Rightarrow> 's \<Rightarrow> 'o option"
    and acquire :: "time \<Rightarrow> 'o \<Rightarrow> int \<Rightarrow> 's \<Rightarrow> bool \<times> 's"
    and refresh :: "time \<Rightarrow> 'o \<Rightarrow> int \<Rightarrow> 's \<Rightarrow> 's"
    and span :: "int \<Rightarrow> int"
    and release :: "time \<Rightarrow> 'o \<Rightarrow> 's \<Rightarrow> 's"
  assumes owner_lease: "owner t s = Some x \<longleftrightarrow> (\<exists>e. lease s = Some (x, e) \<and> t < e)"
    and acquire_free: "owner t s = None \<Longrightarrow> fst (acquire t x n s) \<and> lease (snd (acquire t x n s)) = Some (x, t + n)"
    and acquire_taken: "owner t s = Some y \<Longrightarrow> acquire t x n s = (False, s)"
    and refresh_own: "owner t s = Some x \<Longrightarrow> 0 < span n \<Longrightarrow> lease (refresh t x n s) = Some (x, t + span n)"
    and refresh_other: "owner t s \<noteq> Some x \<Longrightarrow> refresh t x n s = s"
    and release_other: "owner t s \<noteq> Some x \<Longrightarrow> release t x s = s"
begin

lemma held_owner: "\<exists>e'. lease s = Some (x, e') \<and> e \<le> e' \<Longrightarrow> t < e \<Longrightarrow> owner t s = Some x"
  by (auto simp: owner_lease)

lemma acquired_held: "fst (acquire t x n s) \<Longrightarrow> \<exists>e'. lease (snd (acquire t x n s)) = Some (x, e') \<and> t + n \<le> e'"
  using acquire_free [of t s x n] acquire_taken [of t s _ x n] by (cases "owner t s") auto

lemma refreshed_held: "owner t s = Some x \<Longrightarrow> 0 < span n \<Longrightarrow> \<exists>e'. lease (refresh t x n s) = Some (x, e') \<and> t + span n \<le> e'"
  by (simp add: refresh_own)

text \<open>No acquisition, no refresh and no release by another owner shortens a lock that is held.\<close>

lemma held_acquire:
  assumes "\<exists>e'. lease s = Some (x, e') \<and> e \<le> e'" and "t < e"
  shows "acquire t y n s = (False, s)"
  using held_owner [OF assms] by (rule acquire_taken)

lemma held_refresh:
  assumes "\<exists>e'. lease s = Some (x, e') \<and> e \<le> e'" and "t < e" and "e \<le> t + span n"
  shows "\<exists>e'. lease (refresh t y n s) = Some (x, e') \<and> e \<le> e'"
  using assms held_owner [OF assms(1,2)] by (cases "y = x") (auto simp: refresh_own refresh_other)

lemma held_release:
  assumes "\<exists>e'. lease s = Some (x, e') \<and> e \<le> e'" and "t < e" and "y \<noteq> x"
  shows "release t y s = s"
  using held_owner [OF assms(1,2)] assms(3) by (intro release_other) simp

end

interpretation lk: expiring_lock "\<lambda>r. r_strs r reaperLockKey" "\<lambda>t. GET t reaperLockKey"
  "\<lambda>t. SETNX t reaperLockKey" "\<lambda>t x n r. snd (refresh_script t reaperLockKey x n r)" "\<lambda>n. n * Second"
  "\<lambda>t x r. snd (release_script t reaperLockKey x r)"
  by unfold_locales
     (auto simp: GET_def SETNX_def refresh_script_def release_script_def EXPIRE_def split: option.splits if_splits)

lemmas held_lock = lk.held_acquire [folded holds_until_def] lk.held_refresh [folded holds_until_def]
  lk.held_release [folded holds_until_def]

lemma holds_until_leads: "holds_until rid e r \<Longrightarrow> t < e \<Longrightarrow> leads rid t r"
  unfolding leads_def by (rule lk.held_owner [folded holds_until_def])

lemma lock_step_time: "fst s \<le> fst (lock_step ttl op s)"
  by (cases s; cases op) simp_all

lemma lock_run_time: "fst s \<le> fst (lock_run ttl ops s)"
  unfolding lock_run_def
proof (induction ops arbitrary: s)
  case (Cons op ops)
  from lock_step_time [of s ttl op] Cons.IH [of "lock_step ttl op s"] show ?case by simp
qed simp

text \<open>A step of another reaper, or a refresh by the holder, does not shorten the holder's lock.\<close>

lemma lock_step_holds:
  assumes "holds_until rid e r" and "t < e" and "op \<noteq> Release rid" and "lock_step ttl op (t, r) = (t', r')"
    and "e \<le> t + quot ttl Second * Second"
  shows "holds_until rid e r'"
  using assms(1,3,4) held_lock [OF assms(1,2)] assms(5) by (cases op) auto

end
