(* ===== verification/Go_Url.thy ===== *)
theory Go_Url
  imports Go_Text
begin

text \<open>
  The part of \<open>net/url.Parse\<close> the storage client uses: the scheme and the host of a URL, and the
  errors. Percent-decoding and its validity checks are the parameters \<open>parse_host\<close>,
  \<open>valid_userinfo\<close> and \<open>valid_escapes\<close>.
\<close>

record url_escapes =
  parse_host :: "string \<Rightarrow> string result"
  valid_userinfo :: "string \<Rightarrow> bool"
  valid_escapes :: "string \<Rightarrow> bool"

definition is_letter :: "char \<Rightarrow> bool" where
  "is_letter c \<longleftrightarrow> (let n = (of_char c :: nat) in 65 \<le> n \<and> n \<le> 90 \<or> 97 \<le> n \<and> n \<le> 122)"

definition to_lower :: "char \<Rightarrow> char" where
  "to_lower c = (let n = (of_char c :: nat) in if 65 \<le> n \<and> n \<le> 90 then char_of (n + 32) else c)"

definition scheme_char :: "char \<Rightarrow> bool" where
  "scheme_char c \<longleftrightarrow> is_letter c \<or> is_digit c \<or> c \<in> set ''+-.''"

definition control_char :: "char \<Rightarrow> bool" where
  "control_char c \<longleftrightarrow> (let n = (of_char c :: nat) in n < 32 \<or> n = 127)"

definition before :: "char \<Rightarrow> string \<Rightarrow> string" where
  "before c s = takeWhile (\<lambda>x. x \<noteq> c) s"

definition getScheme :: "string \<Rightarrow> (string \<times> string) result" where
  "getScheme s =
     (case s of
        [] \<Rightarrow> Inr ('''', s)
      | c # _ \<Rightarrow>
          if c = CHR '':'' then Inl (ErrText ''missing protocol scheme'')
          else if \<not> is_letter c then Inr ('''', s)
          else (case dropWhile scheme_char s of
                  [] \<Rightarrow> Inr ('''', s)
                | d # rest \<Rightarrow> if d = CHR '':'' then Inr (takeWhile scheme_char s, rest) else Inr ('''', s)))"

definition parseAuthority :: "url_escapes \<Rightarrow> string \<Rightarrow> string result" where
  "parseAuthority u authority =
     (let host = rev (before CHR ''@'' (rev authority)) in
      if CHR ''@'' \<notin> set authority then parse_host u authority
      else case parse_host u host of
        Inl e \<Rightarrow> Inl e
      | Inr h \<Rightarrow> if valid_userinfo u (take (length authority - length host - 1) authority) then Inr h
                 else Inl (ErrText ''net/url: invalid userinfo''))"

text \<open>The scheme in lower case and the host, which is empty when the URL has none.\<close>

definition url_Parse :: "url_escapes \<Rightarrow> string \<Rightarrow> (string \<times> string) result" where
  "url_Parse u rawURL =
     (let s = before CHR ''#'' rawURL;
          frag = drop (length s + 1) rawURL
      in if list_ex control_char s then Inl (ErrText ''net/url: invalid control character in URL'')
         else case getScheme s of
           Inl e \<Rightarrow> Inl e
         | Inr (sch, rest0) \<Rightarrow>
             (let scheme = map to_lower sch; rest = before CHR ''?'' rest0 in
              if \<not> has_prefix rest ''/'' \<and> scheme \<noteq> '''' then (if valid_escapes u frag then Inr (scheme, '''') else Inl (ErrText ''invalid URL escape''))
              else if \<not> has_prefix rest ''/'' \<and> CHR '':'' \<in> set (before CHR ''/'' rest)
              then Inl (ErrText ''first path segment in URL cannot contain colon'')
              else if has_prefix rest ''//'' \<and> (scheme \<noteq> '''' \<or> \<not> has_prefix rest ''///'')
              then (let authority = before CHR ''/'' (drop 2 rest) in
                    case parseAuthority u authority of
                      Inl e \<Rightarrow> Inl e
                    | Inr host \<Rightarrow> if valid_escapes u (drop (length authority + 2) rest) \<and> valid_escapes u frag
                                  then Inr (scheme, host) else Inl (ErrText ''invalid URL escape''))
              else if valid_escapes u rest \<and> valid_escapes u frag then Inr (scheme, '''')
              else Inl (ErrText ''invalid URL escape'')))"

lemma before_all: "c \<notin> set s \<Longrightarrow> before c s = s"
  by (auto simp: before_def takeWhile_eq_all_conv)

end
