(* ===== verification/Clients.thy ===== *)
theory Clients
  imports World Go_Url
begin

text \<open>
  The clients of the services: \<open>pkg/postgres/postgres.go\<close>, \<open>pkg/redis/redis.go\<close> and
  \<open>pkg/storage/storage.go\<close>. A process is the shared world with the connections it has open. The
  drivers' own checks are parameters: parsing of connection strings, creation of a pool and of the
  storage client, and whether the bucket exists.
\<close>

datatype conn = PgPool | RedisConn

type_synonym process = "world \<times> conn list"

record drivers =
  pgx_ParseConfig :: "string \<Rightarrow> unit result"
  pgx_NewWithConfig :: "string \<Rightarrow> unit result"
  redis_ParseURL :: "string \<Rightarrow> unit result"
  minio_New :: "string \<Rightarrow> bool \<Rightarrow> unit result"
  bucket_exists :: "string \<Rightarrow> bool"
  url_lib :: url_escapes

definition open_conn :: "conn \<Rightarrow> process \<Rightarrow> process" where
  "open_conn c s = (fst s, c # snd s)"

definition close_conn :: "conn \<Rightarrow> process \<Rightarrow> process" where
  "close_conn c s = (fst s, remove1 c (snd s))"

text \<open>A round trip to a server: a ping, or the bucket lookup.\<close>

definition ping :: "(process, unit) call" where
  "ping s = (case next_reply (fst s) of (Reply, w') \<Rightarrow> (Inr (), (w', snd s)) | (_, w') \<Rightarrow> (Inl ErrDriver, (w', snd s)))"

definition from_result :: "'a result \<Rightarrow> ('w, 'a) call" where
  "from_result r s = (r, s)"

subsection \<open>PostgreSQL and Redis\<close>

definition NewPool :: "drivers \<Rightarrow> string \<Rightarrow> (process, conn) call" where
  "NewPool drv databaseURL =
     (if databaseURL = '''' then fail_with (ErrText ''DATABASE_URL is required'')
      else and_then (wrap_err ''parse database url'' (from_result (pgx_ParseConfig drv databaseURL))) (\<lambda>_.
           and_then (wrap_err ''create postgres pool'' (from_result (pgx_NewWithConfig drv databaseURL))) (\<lambda>_ s.
             case ping (open_conn PgPool s) of
               (Inl e, s') \<Rightarrow> (Inl (Wrapped ''ping postgres'' e), close_conn PgPool s')
             | (Inr _, s') \<Rightarrow> (Inr PgPool, s'))))"

definition redis_NewClient :: "drivers \<Rightarrow> string \<Rightarrow> (process, conn) call" where
  "redis_NewClient drv redisURL =
     (if redisURL = '''' then fail_with (ErrText ''REDIS_URL is required'')
      else and_then (wrap_err ''parse redis url'' (from_result (redis_ParseURL drv redisURL))) (\<lambda>_ s.
             case ping (open_conn RedisConn s) of
               (Inl e, s') \<Rightarrow> (Inl (Wrapped ''ping redis'' e), close_conn RedisConn s')
             | (Inr _, s') \<Rightarrow> (Inr RedisConn, s')))"

subsection \<open>The object store\<close>

record storage_config =
  Endpoint :: string
  AccessKey :: string
  SecretKey :: string
  Bucket :: string
  UseSSL :: bool

definition normalizeEndpoint :: "url_escapes \<Rightarrow> string \<Rightarrow> bool \<Rightarrow> (string \<times> bool) result" where
  "normalizeEndpoint u rawEndpoint fallbackSSL =
     (let endpoint = trim_space rawEndpoint in
      case url_Parse u endpoint of
        Inl e \<Rightarrow> Inl (Wrapped ''parse storage endpoint'' e)
      | Inr (scheme, host) \<Rightarrow>
          if scheme = '''' then Inr (endpoint, fallbackSSL)
          else if host = '''' then Inl (ErrText ''storage endpoint is missing host'')
          else if scheme = ''http'' then Inr (host, False)
          else if scheme = ''https'' then Inr (host, True)
          else Inl (ErrText (''unsupported storage endpoint scheme '' @ Quote scheme)))"

text \<open>The credentials are checked only for being both present or both absent.\<close>

definition check_keys :: "storage_config \<Rightarrow> unit result" where
  "check_keys config =
     (if AccessKey config \<noteq> '''' \<or> SecretKey config \<noteq> '''' then
        if AccessKey config = '''' then Inl (ErrText ''STORAGE_ACCESS_KEY is required when STORAGE_SECRET_KEY is set'')
        else if SecretKey config = '''' then Inl (ErrText ''STORAGE_SECRET_KEY is required when STORAGE_ACCESS_KEY is set'')
        else Inr ()
      else Inr ())"

definition storage_NewClient :: "drivers \<Rightarrow> storage_config \<Rightarrow> (process, string) call" where
  "storage_NewClient drv config =
     (if Endpoint config = '''' then fail_with (ErrText ''STORAGE_ENDPOINT is required'')
      else if Bucket config = '''' then fail_with (ErrText ''STORAGE_BUCKET is required'')
      else and_then (from_result (normalizeEndpoint (url_lib drv) (Endpoint config) (UseSSL config))) (\<lambda>(endpoint, useSSL).
           and_then (from_result (check_keys config)) (\<lambda>_.
           and_then (wrap_err ''create storage client'' (from_result (minio_New drv endpoint useSSL))) (\<lambda>_.
           and_then (wrap_err ''check storage bucket'' ping) (\<lambda>_.
             if bucket_exists drv (Bucket config) then ok (Bucket config)
             else fail_with (ErrText (''storage bucket '' @ Quote (Bucket config) @ '' does not exist'')))))))"

end
