(* ===== verification/Services.thy ===== *)
theory Services
  imports Worker_Run Reaper_Leader Api_Upload Clients
begin

text \<open>
  The life of a service process: \<open>New\<close> and \<open>Close\<close> of the API server (\<open>server.go\<close>), the worker
  (\<open>worker.go\<close>) and the reaper (\<open>reaper.go\<close>), the heartbeat loop of a worker, and the loops of a
  worker and of a reaper. \<open>uuid.NewString()\<close> returns the argument \<open>newID\<close>.
\<close>

record service =
  svc_id :: uuid
  svc_db :: "conn option"
  svc_redis :: "conn option"

definition close_opt :: "conn option \<Rightarrow> process \<Rightarrow> process" where
  "close_opt c s = (case c of None \<Rightarrow> s | Some c \<Rightarrow> close_conn c s)"

text \<open>\<open>Close\<close>, the same for the three services.\<close>

definition Close :: "service \<Rightarrow> process \<Rightarrow> process" where
  "Close app s = close_opt (svc_db app) (close_opt (svc_redis app) s)"

definition on_process :: "(world, 'a) call \<Rightarrow> (process, 'a) call" where
  "on_process m s = (case m (fst s) of (r, w') \<Rightarrow> (r, (w', snd s)))"

subsection \<open>Start\<close>

definition server_New :: "drivers \<Rightarrow> api_config \<Rightarrow> (process, service) call" where
  "server_New drv config =
     and_then (NewPool drv (DatabaseURL config)) (\<lambda>db s.
       case redis_NewClient drv (RedisURL config) s of
         (Inl e, s1) \<Rightarrow> (Inl e, close_conn db s1)
       | (Inr rconn, s1) \<Rightarrow>
           (case storage_NewClient drv \<lparr>Endpoint = StorageEndpoint config, AccessKey = StorageAccessKey config,
                   SecretKey = StorageSecretKey config, Bucket = StorageBucket config, UseSSL = False\<rparr> s1 of
              (Inl e, s2) \<Rightarrow> (Inl e, close_conn db (close_conn rconn s2))
            | (Inr _, s2) \<Rightarrow> (Inr \<lparr>svc_id = '''', svc_db = Some db, svc_redis = Some rconn\<rparr>, s2)))"

definition worker_New :: "drivers \<Rightarrow> worker_config \<Rightarrow> uuid \<Rightarrow> (process, service) call" where
  "worker_New drv config newID =
     and_then (NewPool drv (wDatabaseURL config)) (\<lambda>db s.
       case redis_NewClient drv (wRedisURL config) s of
         (Inl e, s1) \<Rightarrow> (Inl e, close_conn db s1)
       | (Inr rconn, s1) \<Rightarrow>
           (case storage_NewClient drv \<lparr>Endpoint = wStorageEndpoint config, AccessKey = wStorageAccessKey config,
                   SecretKey = wStorageSecretKey config, Bucket = wStorageBucket config, UseSSL = False\<rparr> s1 of
              (Inl e, s2) \<Rightarrow> (Inl e, close_conn db (close_conn rconn s2))
            | (Inr _, s2) \<Rightarrow>
                (let app = \<lparr>svc_id = newID, svc_db = Some db, svc_redis = Some rconn\<rparr> in
                 case on_process (pg (register newID)) s2 of
                   (Inl e, s3) \<Rightarrow> (Inl e, Close app s3)
                 | (Inr _, s3) \<Rightarrow> (Inr app, s3))))"

definition reaper_New :: "drivers \<Rightarrow> reaper_config \<Rightarrow> uuid \<Rightarrow> (process, service) call" where
  "reaper_New drv config newID =
     (if rDatabaseURL config = '''' then fail_with (ErrText ''DATABASE_URL is required'')
      else if rRedisURL config = '''' then fail_with (ErrText ''REDIS_URL is required'')
      else and_then (NewPool drv (rDatabaseURL config)) (\<lambda>db s.
        case redis_NewClient drv (rRedisURL config) s of
          (Inl e, s1) \<Rightarrow> (Inl e, close_conn db s1)
        | (Inr rconn, s1) \<Rightarrow> (Inr \<lparr>svc_id = newID, svc_db = Some db, svc_redis = Some rconn\<rparr>, s1)))"

subsection \<open>Loops\<close>

text \<open>
  \<open>runHeartbeat\<close>: a beat at once, then one per tick until the context is cancelled; \<open>ticks\<close> lists
  the time to each tick that comes before. The error of a beat is logged.
\<close>

fun heartbeat_ticks :: "uuid \<Rightarrow> nat list \<Rightarrow> world \<Rightarrow> world" where
  "heartbeat_ticks wid [] w = w"
| "heartbeat_ticks wid (dt # ticks) w = heartbeat_ticks wid ticks (snd (log_err (pg (heartbeat wid)) (w\<lparr>clock := clock w + int dt\<rparr>)))"

definition runHeartbeat :: "uuid \<Rightarrow> nat list \<Rightarrow> world \<Rightarrow> world" where
  "runHeartbeat wid ticks w = heartbeat_ticks wid ticks (snd (log_err (pg (heartbeat wid)) w))"

text \<open>
  \<open>Run\<close> of a worker: turns until polling is stopped; each turn comes with what its job needs from
  outside. \<open>Run\<close> of a reaper: sweeps until the context is cancelled, found before a sweep or while
  waiting.
\<close>

fun worker_Run :: "worker_config \<Rightarrow> uuid \<Rightarrow> (go_error \<Rightarrow> string) \<Rightarrow> (job_env \<times> uuid) list \<Rightarrow> machine \<Rightarrow> machine" where
  "worker_Run cfg wid text_of [] s = s"
| "worker_Run cfg wid text_of ((e, attemptID) # turns) s =
     worker_Run cfg wid text_of turns (worker_turn cfg wid text_of e attemptID s)"

fun reaper_Run :: "reaper_config \<Rightarrow> uuid \<Rightarrow> nat list \<Rightarrow> world \<Rightarrow> world" where
  "reaper_Run cfg rid [] w = w"
| "reaper_Run cfg rid (pause # pauses) w =
     (let w1 = snd (sweepWithLeadership cfg rid w)
      in reaper_Run cfg rid pauses (w1\<lparr>clock := clock w1 + int pause\<rparr>))"

end
