(* ===== verification/Leadership.thy ===== *)
theory Leadership
  imports Reaper_Leader Samples
begin

text \<open>
  What the leadership lock gives: one leader at a time, kept by its refreshes, and a sweep that
  runs only under the lock and gives it back.
\<close>

lemma lock_run_holds:
  assumes "holds_until rid e r" and "Release rid \<notin> set ops" and "lock_run ttl ops (t, r) = (t', r')"
    and "t' < e" and "e \<le> t + quot ttl Second * Second"
  shows "holds_until rid e r'"
  using assms
proof (induction ops arbitrary: t r)
  case Nil
  then show ?case by (simp add: lock_run_def)
next
  case (Cons op ops)
  obtain u s where us: "lock_step ttl op (t, r) = (u, s)" by fastforce
  have run: "lock_run ttl ops (u, s) = (t', r')" using Cons.prems(3) us by (simp add: lock_run_def)
  have tu: "t \<le> u" using lock_step_time [of "(t, r)" ttl op] us by simp
  have "u \<le> t'" using lock_run_time [of "(u, s)" ttl ops] run by simp
  with tu Cons.prems have "holds_until rid e s" using lock_step_holds [OF Cons.prems(1) _ _ us] by auto
  with Cons.IH [OF _ _ run] Cons.prems tu show ?case by auto
qed

text \<open>
  C19. Leadership is exclusive: after a reaper took the lock, and whatever any reapers then do to
  it (attempts to take, refresh or release it, by anyone, except the leader's own release), it is
  the leader until the lock's expiry, and no other reaper can take the lock.
\<close>

theorem leadership_is_exclusive:
  assumes "fst (SETNX t reaperLockKey rid (n * Second) r)" and "0 < n" and "Release rid \<notin> set ops"
    and "lock_run (n * Second) ops (t, snd (SETNX t reaperLockKey rid (n * Second) r)) = (t', r')" and "t' < t + n * Second"
  shows "leads rid t' r' \<and> (\<forall>other ttl. \<not> fst (SETNX t' reaperLockKey other ttl r'))"
proof -
  have whole: "quot (n * Second) Second * Second = n * Second" using assms(2) by (simp add: quot_pos Second_def)
  have "holds_until rid (t + n * Second) (snd (SETNX t reaperLockKey rid (n * Second) r))"
    unfolding holds_until_def by (rule lk.acquired_held [OF assms(1)])
  from lock_run_holds [OF this assms(3,4,5)] whole have "holds_until rid (t + n * Second) r'" by simp
  from holds_until_leads [OF this assms(5)] have "leads rid t' r'" .
  then show ?thesis by (simp add: leads_def lk.acquire_taken)
qed

theorem leadership_is_exclusive_witness:
  "leads ''r1'' 40 (snd (lock_run (60 * Second) [Acquire ''r2'', Release ''r2'', Pass 40]
     (0, snd (SETNX 0 reaperLockKey ''r1'' (60 * Second) empty_redis))))"
proof -
  let ?ops = "[Acquire ''r2'', Release ''r2'', Pass 40]"
  let ?run = "lock_run (60 * Second) ?ops (0, snd (SETNX 0 reaperLockKey ''r1'' (60 * Second) empty_redis))"
  have "fst (SETNX 0 reaperLockKey ''r1'' (60 * Second) empty_redis)" by (simp add: SETNX_def GET_def empty_redis_def)
  moreover have "fst ?run = 40" by (simp add: lock_run_def)
  then have "?run = (40, snd ?run)" by (metis prod.collapse)
  ultimately show ?thesis using leadership_is_exclusive [of 0 "''r1''" 60 empty_redis ?ops 40 "snd ?run"] by (simp add: Second_def)
qed

subsection \<open>Refreshes\<close>

definition elapsed :: "lock_op list \<Rightarrow> int" where
  "elapsed ops = (\<Sum>op \<leftarrow> ops. case op of Pass dt \<Rightarrow> int dt | _ \<Rightarrow> 0)"

lemma lock_run_elapsed: "fst (lock_run ttl ops (t, r)) = t + elapsed ops"
proof (induction ops arbitrary: t r)
  case (Cons op ops)
  obtain u s where us: "lock_step ttl op (t, r) = (u, s)" by fastforce
  then have "u = t + (case op of Pass dt \<Rightarrow> int dt | _ \<Rightarrow> 0)" by (cases op) auto
  with Cons.IH [of u s] us show ?case by (simp add: lock_run_def elapsed_def)
qed (simp add: lock_run_def elapsed_def)

lemma refresh_holds: "leads rid t r \<Longrightarrow> 0 < n \<Longrightarrow> holds_until rid (t + n * Second) (snd (refresh_script t reaperLockKey rid n r))"
  unfolding leads_def holds_until_def by (rule lk.refreshed_held) (simp_all add: Second_def)

lemma lock_run_append: "lock_run ttl (xs @ ys) s = lock_run ttl ys (lock_run ttl xs s)"
  by (simp add: lock_run_def)

text \<open>
  C20. A leader that refreshes in time leads for ever: when at most \<open>refresh_period\<close> passes between
  its refreshes, and whatever other reapers do in between, it still leads after any number of
  rounds.
\<close>

theorem refresh_keeps_leadership:
  assumes "0 < n" and "holds_until rid (t + n * Second) r"
    and "list_all (\<lambda>ops. Release rid \<notin> set ops \<and> elapsed ops \<le> refresh_period (n * Second)) rounds"
  shows "case lock_run (n * Second) (concat (map (\<lambda>ops. ops @ [Refresh rid]) rounds)) (t, r) of
    (t', r') \<Rightarrow> leads rid t' r' \<and> holds_until rid (t' + n * Second) r'"
  using assms(2,3)
proof (induction rounds arbitrary: t r)
  case Nil
  with assms(1) show ?case by (auto simp: lock_run_def Second_def intro: holds_until_leads)
next
  case (Cons ops rounds)
  let ?ttl = "n * Second"
  obtain u s where us: "lock_run ?ttl ops (t, r) = (u, s)" by fastforce
  have whole: "quot ?ttl Second = n" using assms(1) by (simp add: quot_pos Second_def)
  have "refresh_period ?ttl < ?ttl"
    using assms(1) by (simp add: refresh_period_def Let_def quot_pos Second_def) linarith
  moreover have "u = t + elapsed ops" using lock_run_elapsed [of ?ttl ops t r] us by simp
  ultimately have u: "u < t + ?ttl" using Cons.prems(2) by simp
  have "holds_until rid (t + ?ttl) s"
    using lock_run_holds [OF Cons.prems(1) _ us u] Cons.prems(2) whole by simp
  then have "leads rid u s" using u by (rule holds_until_leads)
  from refresh_holds [OF this assms(1)] whole
  have "holds_until rid (u + ?ttl) (snd (lock_step ?ttl (Refresh rid) (u, s)))" by simp
  with Cons.IH [of u "snd (lock_step ?ttl (Refresh rid) (u, s))"] Cons.prems(2) us show ?case
    by (simp add: lock_run_append) (simp add: lock_run_def)
qed

theorem refresh_keeps_leadership_witness:
  "leads ''r1'' 40000000000 (snd (lock_run (60 * Second)
     [Pass 20000000000, Refresh ''r1'', Acquire ''r2'', Pass 20000000000, Refresh ''r1'']
     (0, empty_redis\<lparr>r_strs := [reaperLockKey \<mapsto> (''r1'', 60000000000)]\<rparr>)))"
proof -
  let ?r = "empty_redis\<lparr>r_strs := [reaperLockKey \<mapsto> (''r1'', 60000000000)]\<rparr>"
  let ?rounds = "[[Pass 20000000000], [Acquire ''r2'', Pass 20000000000]]"
  have "holds_until ''r1'' (0 + 60 * Second) ?r" by (simp add: holds_until_def Second_def)
  moreover have "list_all (\<lambda>ops. Release ''r1'' \<notin> set ops \<and> elapsed ops \<le> refresh_period (60 * Second)) ?rounds"
    by (simp add: elapsed_def refresh_period_def quot_pos Second_def Let_def)
  ultimately show ?thesis
    using refresh_keeps_leadership [of 60 "''r1''" 0 ?r ?rounds]
      lock_run_elapsed [of "60 * Second" "concat (map (\<lambda>ops. ops @ [Refresh ''r1'']) ?rounds)" 0 ?r]
    by (auto simp: elapsed_def split: prod.splits)
qed

subsection \<open>Sweeping under the lock\<close>

definition same_strs :: "world \<Rightarrow> world \<Rightarrow> bool" where
  "same_strs w w' \<longleftrightarrow> r_strs (rds w') = r_strs (rds w)"

interpretation strs: run_relation same_strs
  by unfold_locales (simp_all add: same_strs_def)

lemma pg_strs: "runs_in same_strs (pg stmt)"
  by (auto simp: runs_in_def same_strs_def pg_def next_reply_def split: list.splits prod.splits reply.splits sum.splits)

lemma query_strs: "runs_in same_strs (query q)"
  unfolding query_def by (rule pg_strs)

lemma run_enqueue_strs: "r_strs (snd (run_enqueue j p r)) = r_strs r"
  by (cases "queue_member j r") (simp_all add: run_enqueue_member run_enqueue_new ZADD_def pushed_def)

lemma Enqueue_strs: "runs_in same_strs (Enqueue j p)"
proof (rule runs_inI)
  fix w
  obtain r w' where e: "Enqueue j p w = (r, w')" by fastforce
  then show "same_strs w (snd (Enqueue j p w))"
    by (rule Enqueue_cases) (simp_all add: e same_strs_def run_enqueue_strs)
qed

lemma requeueJob_strs: "runs_in same_strs (requeueJob J B reason)"
  unfolding requeueJob_def
  by (rule strs.run_and_then [OF pg_strs])
     (auto split: option.splits intro: strs.run_ok Enqueue_strs)

lemma recover_worker_strs: "runs_in same_strs (recover_worker x)"
  unfolding recover_worker_def
  by (rule strs.run_and_then [OF pg_strs])
     (auto split: option.splits intro: strs.run_ok requeueJob_strs)

lemma recover_attempt_strs: "runs_in same_strs (recover_attempt x)"
  by (cases x) (simp add: recover_attempt_def requeueJob_strs)

lemma enqueueJob_strs: "runs_in same_strs (enqueueJob J)"
proof (rule runs_inI)
  fix w
  obtain r u where f: "fetchJob J w = (r, u)" by fastforce
  have "same_strs w u" using runs_inD [OF query_strs f [unfolded fetchJob_def]] .
  moreover have "same_strs u (snd (Enqueue j p u))" for j p using Enqueue_strs by (simp add: runs_in_def)
  ultimately show "same_strs w (snd (enqueueJob J w))"
    by (auto simp: enqueueJob_def f same_strs_def split: sum.splits)
qed

lemma recover_missing_strs: "runs_in same_strs (recover_missing J)"
proof -
  have "runs_in same_strs (queueContainsJob J)"
    by (auto simp: runs_in_def same_strs_def queueContainsJob_def rd_def next_reply_def
        split: list.splits prod.splits reply.splits)
  then show ?thesis
    unfolding recover_missing_def
    by (rule strs.run_and_then) (auto intro: strs.run_ok enqueueJob_strs)
qed

lemma Sweep_strs: "runs_in same_strs (Sweep cfg)"
  unfolding Sweep_def recoverDeadWorkers_def recoverOrphanedJobs_def recoverMissingQueueMessages_def
  by (intro strs.run_and_then runs_in_wrap strs.run_for_each strs.run_ok query_strs recover_worker_strs
      recover_attempt_strs recover_missing_strs)

lemma acquire_runs: "runs_in steps (acquireLeadership cfg rid)"
proof (rule runs_inI)
  fix w
  have "snd (SETNX t k v ttl r) = r\<lparr>r_strs := r_strs (snd (SETNX t k v ttl r))\<rparr>" for t k v ttl r
    by (simp add: SETNX_def split: option.splits)
  then have "step u (u\<lparr>rds := snd (SETNX t reaperLockKey rid (LeadershipLockTTL cfg) (rds u))\<rparr>)" for t u
    using step.lock [of u "r_strs (snd (SETNX t reaperLockKey rid (LeadershipLockTTL cfg) (rds u)))"] by metis
  then have "steps w (snd (rd (\<lambda>t r. SETNX t reaperLockKey rid (LeadershipLockTTL cfg) r) w))"
    by (intro rd_steps)
  then show "steps w (snd (acquireLeadership cfg rid w))" by (simp add: acquireLeadership_def fail_with_def)
qed

lemma release_runs: "runs_in steps (releaseLeadership rid)"
  unfolding releaseLeadership_def
proof (intro runs_in_log runs_inI rd_steps)
  fix t u
  have "snd (release_script t reaperLockKey rid r) = r\<lparr>r_strs := r_strs (snd (release_script t reaperLockKey rid r))\<rparr>" for r
    by (simp add: release_script_def DEL_def)
  then show "step u (u\<lparr>rds := snd (release_script t reaperLockKey rid (rds u))\<rparr>)"
    using step.lock [of u "r_strs (snd (release_script t reaperLockKey rid (rds u)))"] by metis
qed

lemma sweepWithLeadership_runs: "runs_in steps (sweepWithLeadership cfg rid)"
proof (rule runs_inI)
  fix w
  obtain r u where a: "acquireLeadership cfg rid w = (r, u)" by fastforce
  have "steps w u" using runs_inD [OF acquire_runs a] .
  moreover have "steps u (snd (Sweep cfg u))" using Sweep_runs by (simp add: runs_in_def)
  moreover have "steps (snd (Sweep cfg u)) (snd (releaseLeadership rid (snd (Sweep cfg u))))"
    using release_runs by (simp add: runs_in_def)
  ultimately show "steps w (snd (sweepWithLeadership cfg rid w))"
    by (auto simp: sweepWithLeadership_def a split: sum.splits prod.splits)
qed

text \<open>
  C21. A reaper sweeps only as the leader: while another reaper holds the lock its turn changes
  nothing; when the lock is free, its turn takes the lock, performs the sweep and leaves the lock
  free again. Either way the invariant is kept, whatever calls fail.
\<close>

theorem sweep_needs_leadership:
  assumes "reachable w" and "0 < LeadershipLockTTL cfg"
  shows "(net w = [] \<and> leads other (clock w) (rds w) \<longrightarrow> sweepWithLeadership cfg rid w = (Inr (), w)) \<and>
    (net w = [] \<and> GET (clock w) reaperLockKey (rds w) = None \<longrightarrow>
      (let locked = w\<lparr>rds := (rds w)\<lparr>r_strs := (r_strs (rds w))(reaperLockKey \<mapsto> (rid, clock w + LeadershipLockTTL cfg))\<rparr>\<rparr>;
           w' = snd (sweepWithLeadership cfg rid w)
       in db w' = db (snd (Sweep cfg locked)) \<and> contents (rds w') = contents (rds (snd (Sweep cfg locked))) \<and>
          GET (clock w') reaperLockKey (rds w') = None)) \<and>
    world_ok (snd (sweepWithLeadership cfg rid w))"
proof (intro conjI impI)
  assume a: "net w = [] \<and> leads other (clock w) (rds w)"
  with assms(2) have "acquireLeadership cfg rid w = (Inr False, w)"
    by (simp add: acquireLeadership_def rd_answered SETNX_def leads_def)
  then show "sweepWithLeadership cfg rid w = (Inr (), w)" by (simp add: sweepWithLeadership_def)
next
  assume a: "net w = [] \<and> GET (clock w) reaperLockKey (rds w) = None"
  let ?l = "w\<lparr>rds := (rds w)\<lparr>r_strs := (r_strs (rds w))(reaperLockKey \<mapsto> (rid, clock w + LeadershipLockTTL cfg))\<rparr>\<rparr>"
  have acq: "acquireLeadership cfg rid w = (Inr True, ?l)"
    using a assms(2) by (simp add: acquireLeadership_def rd_answered SETNX_def)
  have calm: "calm ?l" using runs_calm [OF acquire_runs _ acq] a reachable_ok [OF assms(1)] by (simp add: calm_def)
  obtain u v w2 where s: "Sweep cfg ?l = (Inr (), w2)" "swept ?l u" "swept u v" "same_db v w2" "calm w2"
    by (rule Sweep_answered [OF calm, of cfg])
  have t: "clock w2 = clock w" using s(2-4) by (simp add: swept_def same_db_def)
  have strs: "r_strs (rds w2) = r_strs (rds ?l)" using runs_inD [OF Sweep_strs s(1)] by (simp add: same_strs_def)
  have "release_script (clock w2) reaperLockKey rid (rds w2) = (1, DEL reaperLockKey (rds w2))"
    using t strs assms(2) by (simp add: release_script_def GET_def)
  then have rel: "releaseLeadership rid w2 = (Inr (), w2\<lparr>rds := DEL reaperLockKey (rds w2)\<rparr>)"
    using s(5) by (simp add: releaseLeadership_def log_err_def rd_answered calm_def)
  have "sweepWithLeadership cfg rid w = (Inr (), w2\<lparr>rds := DEL reaperLockKey (rds w2)\<rparr>)"
    by (simp add: sweepWithLeadership_def acq s(1) rel)
  then show "let locked = ?l; w' = snd (sweepWithLeadership cfg rid w)
       in db w' = db (snd (Sweep cfg locked)) \<and> contents (rds w') = contents (rds (snd (Sweep cfg locked))) \<and>
          GET (clock w') reaperLockKey (rds w') = None"
    by (simp add: Let_def s(1)) (simp add: GET_def DEL_def contents_other)
next
  show "world_ok (snd (sweepWithLeadership cfg rid w))"
    by (rule runs_keep [OF sweepWithLeadership_runs reachable_ok [OF assms(1)]])
qed

theorem sweep_needs_leadership_witness:
  "GET (clock (snd (sweepWithLeadership reaper0 ''r1'' w_late))) reaperLockKey (rds (snd (sweepWithLeadership reaper0 ''r1'' w_late))) = None"
proof -
  have "net w_late = []" by (simp add: w_late_def sample_defs)
  moreover have "r_strs (rds w_late) = (\<lambda>_. None)"
    using run_enqueue_strs [of "''j1''" 5 empty_redis] by (simp add: w_late_def w_claimed_eq w_queued_eq empty_redis_def)
  then have "GET (clock w_late) reaperLockKey (rds w_late) = None" by (simp add: GET_def)
  ultimately show ?thesis using sweep_needs_leadership [OF w_late_reachable, of reaper0 "''r2''" "''r1''"] by (simp add: Let_def)
qed

end
