(* ===== verification/Startup_Behaviour.thy ===== *)
theory Startup_Behaviour
  imports Services Job_Runs Leadership
begin

text \<open>
  Starting, beating and stopping: connections are released on every failed start and by \<open>Close\<close>,
  the endpoint of the object store is understood as documented, a worker that beats is not taken
  for dead, and the loops are runs of the system.
\<close>

subsection \<open>Connections\<close>

text \<open>A constructor that opens the connection \<open>c\<close>, or returns an error with nothing left open.\<close>

definition opens :: "conn \<Rightarrow> (process, conn) call \<Rightarrow> bool" where
  "opens c m \<longleftrightarrow> (\<forall>s. case m s of (Inl e, s') \<Rightarrow> snd s' = snd s \<and> db (fst s') = db (fst s)
      | (Inr x, s') \<Rightarrow> x = c \<and> snd s' = c # snd s \<and> db (fst s') = db (fst s))"

lemma ping_frame: "snd (snd (ping s)) = snd s \<and> db (fst (snd (ping s))) = db (fst s)"
  by (auto simp: ping_def next_reply_def split: prod.splits reply.splits list.splits)

lemma ping_cases:
  obtains e s' where "ping s = (Inl e, s')" "snd s' = snd s" "db (fst s') = db (fst s)"
  | s' where "ping s = (Inr (), s')" "snd s' = snd s" "db (fst s') = db (fst s)"
proof -
  obtain r s' where "ping s = (r, s')" by (rule prod.exhaust)
  then show ?thesis using ping_frame [of s] that by (cases r) auto
qed

lemma NewPool_opens: "opens PgPool (NewPool drv url)"
  unfolding opens_def
proof
  fix s
  show "case NewPool drv url s of (Inl e, s') \<Rightarrow> snd s' = snd s \<and> db (fst s') = db (fst s)
      | (Inr x, s') \<Rightarrow> x = PgPool \<and> snd s' = PgPool # snd s \<and> db (fst s') = db (fst s)"
    by (cases "open_conn PgPool s" rule: ping_cases)
      (auto simp: NewPool_def fail_with_def and_then_def wrap_err_def from_result_def open_conn_def close_conn_def split: sum.splits)
qed

lemma redis_opens: "opens RedisConn (redis_NewClient drv url)"
  unfolding opens_def
proof
  fix s
  show "case redis_NewClient drv url s of (Inl e, s') \<Rightarrow> snd s' = snd s \<and> db (fst s') = db (fst s)
      | (Inr x, s') \<Rightarrow> x = RedisConn \<and> snd s' = RedisConn # snd s \<and> db (fst s') = db (fst s)"
    by (cases "open_conn RedisConn s" rule: ping_cases)
      (auto simp: redis_NewClient_def fail_with_def and_then_def wrap_err_def from_result_def open_conn_def close_conn_def split: sum.splits)
qed

lemma opensD:
  assumes "opens c m" and "m s = (r, s')"
  shows "db (fst s') = db (fst s)" "r = Inl e \<Longrightarrow> snd s' = snd s" "r = Inr x \<Longrightarrow> x = c \<and> snd s' = c # snd s"
proof -
  have "case m s of (Inl e, s') \<Rightarrow> snd s' = snd s \<and> db (fst s') = db (fst s)
      | (Inr x, s') \<Rightarrow> x = c \<and> snd s' = c # snd s \<and> db (fst s') = db (fst s)"
    using assms(1) unfolding opens_def by (rule spec)
  then show "db (fst s') = db (fst s)" "r = Inl e \<Longrightarrow> snd s' = snd s" "r = Inr x \<Longrightarrow> x = c \<and> snd s' = c # snd s"
    unfolding assms(2) by (auto split: sum.splits)
qed

lemma storage_client_frame:
  assumes "storage_NewClient drv config s = (r, s')"
  shows "snd s' = snd s \<and> db (fst s') = db (fst s)"
  using assms ping_frame [of s]
  by (auto simp: storage_NewClient_def and_then_def wrap_err_def from_result_def fail_with_def ok_def split: if_splits sum.splits prod.splits)

definition start_clean :: "(process, service) call \<Rightarrow> process \<Rightarrow> bool" where
  "start_clean m s \<longleftrightarrow>
     (case m s of
        (Inl e, s') \<Rightarrow> snd s' = snd s
      | (Inr app, s') \<Rightarrow> snd s' = RedisConn # PgPool # snd s \<and> snd (Close app s') = snd s)"

text \<open>The two connections every service opens first.\<close>

lemma connections_cases:
  obtains (no_db) e s1 where "NewPool drv dburl s = (Inl e, s1)" "snd s1 = snd s"
  | (no_redis) s1 e s2 where "NewPool drv dburl s = (Inr PgPool, s1)" "redis_NewClient drv rurl s1 = (Inl e, s2)" "snd s2 = PgPool # snd s"
  | (both) s1 s2 where "NewPool drv dburl s = (Inr PgPool, s1)" "redis_NewClient drv rurl s1 = (Inr RedisConn, s2)"
      "snd s2 = RedisConn # PgPool # snd s"
proof -
  obtain r1 s1 where 1: "NewPool drv dburl s = (r1, s1)" by (rule prod.exhaust)
  obtain r2 s2 where 2: "redis_NewClient drv rurl s1 = (r2, s2)" by (rule prod.exhaust)
  note p = opensD [OF NewPool_opens 1] and r = opensD [OF redis_opens 2]
  show ?thesis
  proof (cases r1)
    case (Inl e)
    with 1 p(2) no_db show ?thesis by blast
  next
    case p1: (Inr x)
    with p(3) have x: "x = PgPool" "snd s1 = PgPool # snd s" by auto
    show ?thesis
    proof (cases r2)
      case (Inl e)
      with 1 2 p1 x r(2) no_redis show ?thesis by metis
    next
      case (Inr y)
      with 1 2 p1 x r(3) both show ?thesis by metis
    qed
  qed
qed

lemma server_start_clean: "start_clean (server_New drv cfg) s"
proof (cases rule: connections_cases [where drv = drv and dburl = "DatabaseURL cfg" and s = s and rurl = "RedisURL cfg"])
  case (both s1 s2)
  obtain r s3 where st: "storage_NewClient drv \<lparr>Endpoint = StorageEndpoint cfg, AccessKey = StorageAccessKey cfg,
      SecretKey = StorageSecretKey cfg, Bucket = StorageBucket cfg, UseSSL = False\<rparr> s2 = (r, s3)" by (rule prod.exhaust)
  with both storage_client_frame [OF st] show ?thesis
    by (cases r) (simp_all add: start_clean_def server_New_def and_then_def close_conn_def Close_def close_opt_def)
qed (simp_all add: start_clean_def server_New_def and_then_def close_conn_def)

lemma worker_start_clean: "start_clean (worker_New drv cfg newID) s"
proof (cases rule: connections_cases [where drv = drv and dburl = "wDatabaseURL cfg" and s = s and rurl = "wRedisURL cfg"])
  case (both s1 s2)
  obtain r s3 where st: "storage_NewClient drv \<lparr>Endpoint = wStorageEndpoint cfg, AccessKey = wStorageAccessKey cfg,
      SecretKey = wStorageSecretKey cfg, Bucket = wStorageBucket cfg, UseSSL = False\<rparr> s2 = (r, s3)" by (rule prod.exhaust)
  obtain q w4 where reg: "pg (register newID) (fst s3) = (q, w4)" by (rule prod.exhaust)
  from st reg both storage_client_frame [OF st] show ?thesis
    by (cases r; cases q)
      (simp_all add: start_clean_def worker_New_def and_then_def close_conn_def Close_def close_opt_def on_process_def Let_def)
qed (simp_all add: start_clean_def worker_New_def and_then_def close_conn_def)

lemma reaper_start_clean: "start_clean (reaper_New drv cfg newID) s"
proof (cases rule: connections_cases [where drv = drv and dburl = "rDatabaseURL cfg" and s = s and rurl = "rRedisURL cfg"])
qed (simp_all add: start_clean_def reaper_New_def and_then_def close_conn_def Close_def close_opt_def fail_with_def)

lemma worker_New_registers:
  assumes "worker_New drv cfg newID s = (Inr app, s')"
  shows "svc_id app = newID \<and> (\<exists>r. worker_at (db (fst s')) newID = Some r \<and> w_status r = Idle)"
proof -
  from assms obtain w u where reg: "pg (register newID) w = (Inr (), u)" and s': "fst s' = u" and app: "svc_id app = newID"
    by (auto simp: worker_New_def and_then_def on_process_def Let_def split: prod.splits sum.splits)
  from pg_Inr [OF reg] obtain t where "register newID t (db w) = Inr ((), db u)" by blast
  then have d: "db u = (if worker_at (db w) newID = None
      then (db w)\<lparr>workers := workers (db w) @ [\<lparr>w_id = newID, w_status = Idle, w_current_job = None, w_last_heartbeat = t\<rparr>]\<rparr>
      else update_workers (\<lambda>r. w_id r = newID) (\<lambda>r. r\<lparr>w_status := Idle, w_current_job := None, w_last_heartbeat := t\<rparr>) (db w))"
    by (simp add: register_def)
  show ?thesis
  proof (cases "worker_at (db w) newID")
    case None
    with d s' app show ?thesis by (simp add: worker_at_def row_at_append)
  next
    case (Some r)
    with d s' app worker_at_key [OF Some] show ?thesis
      by (simp add: worker_at_def update_workers_def worker_upd.lookup set_row_def)
  qed
qed

text \<open>
  C35. Starting a service never leaks a connection, whatever fails: when \<open>New\<close> of the API server,
  the worker or the reaper returns an error, exactly the connections from before are open; when it
  succeeds, one PostgreSQL pool and one Redis client are open in addition and \<open>Close\<close> closes both.
  A started worker is registered as idle.
\<close>

theorem startup_leaks_nothing:
  "start_clean (server_New drv acfg) s \<and> start_clean (worker_New drv wcfg newID) s \<and> start_clean (reaper_New drv rcfg newID) s \<and>
   (case worker_New drv wcfg newID s of
      (Inl _, _) \<Rightarrow> True
    | (Inr app, s') \<Rightarrow> svc_id app = newID \<and> (\<exists>r. worker_at (db (fst s')) newID = Some r \<and> w_status r = Idle))"
  using server_start_clean worker_start_clean reaper_start_clean
  by (auto split: prod.splits sum.splits dest: worker_New_registers)

subsection \<open>The storage endpoint\<close>

text \<open>A host name or address, with or without a port.\<close>

definition host_char :: "char \<Rightarrow> bool" where
  "host_char c \<longleftrightarrow> is_letter c \<or> is_digit c \<or> c \<in> set ''-.:''"

definition plain_host :: "url_escapes \<Rightarrow> string \<Rightarrow> bool" where
  "plain_host u h \<longleftrightarrow> h \<noteq> '''' \<and> list_all host_char h \<and> parse_host u h = Inr h \<and> valid_escapes u '''' \<and> valid_escapes u h"

lemma host_char_plain: "host_char c \<Longrightarrow> c \<notin> set ''#?/@'' \<and> \<not> control_char c \<and> visible c"
  by (auto simp: host_char_def is_letter_def is_digit_def control_char_def visible_def Let_def)

lemma plain_host_chars:
  assumes "plain_host u h"
  shows "CHR ''#'' \<notin> set h" "CHR ''?'' \<notin> set h" "CHR ''/'' \<notin> set h" "CHR ''@'' \<notin> set h" "\<not> list_ex control_char h"
    "visible (hd h)" "visible (last h)" "h \<noteq> []"
  using assms host_char_plain by (auto simp: plain_host_def list_all_iff list_ex_iff)

text \<open>A URL with a scheme and nothing but a host after it.\<close>

lemma url_Parse_scheme:
  assumes h: "plain_host u h" and s: "list_all scheme_char sch" "sch \<noteq> []" "is_letter (hd sch)" "\<not> list_ex control_char sch" "CHR ''#'' \<notin> set sch"
  shows "url_Parse u (sch @ ''://'' @ h) = Inr (map to_lower sch, h)"
proof -
  note c = plain_host_chars [OF h]
  let ?s = "sch @ ''://'' @ h"
  have "\<not> scheme_char CHR '':''" by (simp add: scheme_char_def is_letter_def is_digit_def)
  then have "takeWhile scheme_char ?s = sch" "dropWhile scheme_char ?s = ''://'' @ h"
    using s(1) by (simp_all add: takeWhile_append2 dropWhile_append2 list_all_iff)
  moreover have "hd sch \<noteq> CHR '':''" using s(3) by (auto simp: is_letter_def)
  ultimately have g: "getScheme ?s = Inr (sch, ''//'' @ h)"
    using s(2,3) by (cases sch) (simp_all add: getScheme_def)
  have b: "before CHR ''#'' ?s = ?s" "before CHR ''?'' (''//'' @ h) = ''//'' @ h" "before CHR ''/'' h = h"
    using c s(5) by (simp_all add: before_all)
  have ctl: "\<not> list_ex control_char ?s" using c(5) s(4) by (auto simp: control_char_def)
  have pre: "has_prefix (''//'' @ h) ''/''" "has_prefix (''//'' @ h) ''//''" by (simp_all add: has_prefix_def)
  have "map to_lower sch \<noteq> ''''" using s(2) by simp
  moreover have "parseAuthority u h = Inr h" "valid_escapes u ''''" using h c(4) by (simp_all add: parseAuthority_def plain_host_def)
  ultimately show ?thesis
    unfolding url_Parse_def Let_def b(1) g sum.case prod.case b(2) using ctl pre b(3) by simp
qed

lemma normalize_trims:
  assumes "list_all blank sp" and "list_all blank sp'" and "s \<noteq> []" and "visible (hd s)" and "visible (last s)"
  shows "normalizeEndpoint u (sp @ s @ sp') f = normalizeEndpoint u s f"
  using trim_space_padded [OF assms] trim_space_padded [of "[]" "[]" s] assms by (simp add: normalizeEndpoint_def)

lemma url_Parse_bare:
  assumes h: "plain_host u h" and "CHR '':'' \<notin> set h"
  shows "url_Parse u h = Inr ('''', '''')"
proof -
  note c = plain_host_chars [OF h]
  have "dropWhile scheme_char h \<noteq> CHR '':'' # x" for x
    using assms(2) by (metis list.set_intros(1) set_dropWhileD)
  then have "getScheme h = Inr ('''', h)"
    using c(8) assms(2) by (auto simp: getScheme_def simp del: dropWhile.simps split: list.splits)
  moreover have "\<not> has_prefix h ''/''" using c(3,8) by (cases h) (auto simp: has_prefix_def)
  moreover have "\<not> has_prefix h ''//''" using c(3,8) by (cases h) (auto simp: has_prefix_def)
  moreover have "valid_escapes u h" "valid_escapes u ''''" using h by (simp_all add: plain_host_def)
  ultimately show ?thesis using c assms(2) by (simp add: url_Parse_def Let_def before_all)
qed

lemma url_Parse_port:
  assumes h: "plain_host u (a @ '':'' @ b)" and "list_all scheme_char a" "a \<noteq> []" "is_letter (hd a)"
  shows "url_Parse u (a @ '':'' @ b) = Inr (map to_lower a, '''')"
proof -
  let ?s = "a @ '':'' @ b"
  note c = plain_host_chars [OF h]
  have "\<not> scheme_char CHR '':''" by (simp add: scheme_char_def is_letter_def is_digit_def)
  then have "takeWhile scheme_char ?s = a" "dropWhile scheme_char ?s = '':'' @ b"
    using assms(2) by (simp_all add: takeWhile_append2 dropWhile_append2 list_all_iff)
  moreover have "hd a \<noteq> CHR '':''" using assms(4) by (auto simp: is_letter_def)
  ultimately have g: "getScheme ?s = Inr (a, b)"
    using assms(3,4) by (cases a) (simp_all add: getScheme_def)
  have "CHR ''?'' \<notin> set b" using c(2) by simp
  moreover have "\<not> has_prefix b ''/''" using c(3) by (cases b) (auto simp: has_prefix_def)
  moreover have "map to_lower a \<noteq> ''''" using assms(3) by simp
  moreover have "valid_escapes u ''''" using h by (simp add: plain_host_def)
  moreover have "before CHR ''#'' ?s = ?s" using c(1) by (rule before_all)
  ultimately show ?thesis
    unfolding url_Parse_def Let_def using g c(5) by (simp add: before_all)
qed

lemma scheme_letters [simp]:
  "scheme_char CHR ''h''" "scheme_char CHR ''t''" "scheme_char CHR ''p''" "scheme_char CHR ''s''"
  "\<not> control_char CHR ''h''" "\<not> control_char CHR ''t''" "\<not> control_char CHR ''p''" "\<not> control_char CHR ''s''"
  "to_lower CHR ''h'' = CHR ''h''" "to_lower CHR ''t'' = CHR ''t''" "to_lower CHR ''p'' = CHR ''p''" "to_lower CHR ''s'' = CHR ''s''"
  "is_letter CHR ''h''" "visible CHR ''h''"
  by (simp_all add: scheme_char_def is_letter_def control_char_def to_lower_def visible_def)

text \<open>
  The endpoint of the object store: with \<open>http://\<close> or \<open>https://\<close> before a host, white space
  around it aside, the host is used without or with TLS; a host without scheme and port is used
  as it is with the configured choice; a named host with a port but no scheme, which Go parses as
  a URL with an opaque part, is rejected as having no host.
\<close>

lemma endpoint_is_understood:
  assumes "plain_host u h" and "list_all blank sp" and "list_all blank sp'"
  shows "normalizeEndpoint u (sp @ (''http://'' @ h) @ sp') f = Inr (h, False) \<and>
    normalizeEndpoint u (sp @ (''https://'' @ h) @ sp') f = Inr (h, True) \<and>
    (CHR '':'' \<notin> set h \<longrightarrow> normalizeEndpoint u (sp @ h @ sp') f = Inr (h, f)) \<and>
    (\<forall>a b. h = a @ '':'' @ b \<and> list_all scheme_char a \<and> a \<noteq> [] \<and> is_letter (hd a) \<longrightarrow>
      normalizeEndpoint u (sp @ h @ sp') f = Inl (ErrText ''storage endpoint is missing host''))"
proof -
  note c = plain_host_chars [OF assms(1)]
  have "url_Parse u (''http://'' @ h) = Inr (''http'', h)" "url_Parse u (''https://'' @ h) = Inr (''https'', h)"
    using url_Parse_scheme [OF assms(1), of "''http''"] url_Parse_scheme [OF assms(1), of "''https''"] by simp_all
  moreover have "trim_space (''http://'' @ h) = ''http://'' @ h" "trim_space (''https://'' @ h) = ''https://'' @ h" "trim_space h = h"
    using c trim_space_padded [of "[]" "[]" "''http://'' @ h"] trim_space_padded [of "[]" "[]" "''https://'' @ h"]
      trim_space_padded [of "[]" "[]" h] by simp_all
  ultimately have n: "normalizeEndpoint u (''http://'' @ h) f = Inr (h, False)" "normalizeEndpoint u (''https://'' @ h) f = Inr (h, True)"
    and t: "trim_space h = h" using c(8) by (simp_all add: normalizeEndpoint_def)
  have 1: "normalizeEndpoint u (sp @ (''http://'' @ h) @ sp') f = Inr (h, False)"
    using normalize_trims [OF assms(2,3), of "''http://'' @ h"] c n(1) by simp
  have 2: "normalizeEndpoint u (sp @ (''https://'' @ h) @ sp') f = Inr (h, True)"
    using normalize_trims [OF assms(2,3), of "''https://'' @ h"] c n(2) by simp
  have 3: "normalizeEndpoint u (sp @ h @ sp') f = Inr (h, f)" if "CHR '':'' \<notin> set h"
    using normalize_trims [OF assms(2,3), of h] c t url_Parse_bare [OF assms(1) that] by (simp add: normalizeEndpoint_def)
  have 4: "normalizeEndpoint u (sp @ h @ sp') f = Inl (ErrText ''storage endpoint is missing host'')"
    if "h = a @ '':'' @ b" "list_all scheme_char a" "a \<noteq> []" "is_letter (hd a)" for a b
  proof -
    have "url_Parse u h = Inr (map to_lower a, '''')"
      unfolding that(1) by (rule url_Parse_port [OF assms(1) [unfolded that(1)] that(2-4)])
    with normalize_trims [OF assms(2,3), of h] c t that(3) show ?thesis by (simp add: normalizeEndpoint_def)
  qed
  show ?thesis using 1 2 3 4 by blast
qed

definition plain_url :: url_escapes where
  "plain_url = \<lparr>parse_host = Inr, valid_userinfo = (\<lambda>_. True), valid_escapes = (\<lambda>_. True)\<rparr>"

subsection \<open>Heartbeats\<close>

lemma heartbeat_runs: "runs_in steps (pg (heartbeat W))"
  by (intro runs_inI pg_steps exI [of _ "Heartbeat W"]) (simp add: effect_Inr)

lemma heartbeat_answered:
  assumes "net w = []" and "worker_at (db w) W = Some r"
  shows "net (snd (log_err (pg (heartbeat W)) w)) = []" "clock (snd (log_err (pg (heartbeat W)) w)) = clock w"
    "worker_at (db (snd (log_err (pg (heartbeat W)) w))) W = Some (r\<lparr>w_last_heartbeat := clock w\<rparr>)"
  using assms worker_at_key [OF assms(2)]
  by (simp_all add: log_err_def pg_answered heartbeat_def worker_at_def update_workers_def heartbeat_upd.lookup set_row_def)

lemma ticks_answered:
  "net w = [] \<Longrightarrow> worker_at (db w) W = Some r \<Longrightarrow> w_last_heartbeat r = clock w \<Longrightarrow>
     \<exists>r'. worker_at (db (heartbeat_ticks W ticks w)) W = Some r' \<and> w_last_heartbeat r' = clock (heartbeat_ticks W ticks w) \<and>
       w_status r' = w_status r \<and> clock (heartbeat_ticks W ticks w) = clock w + int (sum_list ticks)"
proof (induction ticks arbitrary: w r)
  case (Cons dt ticks)
  let ?w = "w\<lparr>clock := clock w + int dt\<rparr>"
  have h: "net ?w = []" "worker_at (db ?w) W = Some r" using Cons.prems by simp_all
  note a = heartbeat_answered [OF h]
  from Cons.IH [OF a(1) a(3)] a(2) show ?case by (auto simp: add.assoc)
qed simp



subsection \<open>The loops\<close>

lemma worker_Run_runs: "(\<And>e A. (e, A) \<in> set turns \<Longrightarrow> A \<noteq> '''') \<Longrightarrow> msteps s (worker_Run cfg wid text_of turns s)"
proof (induction turns arbitrary: s)
  case (Cons turn turns)
  obtain e A where t: "turn = (e, A)" by fastforce
  then have "msteps s (worker_turn cfg wid text_of e A s)" using Cons.prems by (intro worker_turn_runs) auto
  moreover have "msteps (worker_turn cfg wid text_of e A s) (worker_Run cfg wid text_of turns (worker_turn cfg wid text_of e A s))"
    using Cons.prems t by (intro Cons.IH) auto
  ultimately show ?case using t by (auto intro: mach.join)
qed simp

lemma reaper_Run_runs: "steps w (reaper_Run cfg rid pauses w)"
proof (induction pauses arbitrary: w)
  case (Cons pause pauses)
  let ?w1 = "snd (sweepWithLeadership cfg rid w)"
  have "steps w ?w1" using sweepWithLeadership_runs by (simp add: runs_in_def)
  also have "steps ?w1 (?w1\<lparr>clock := clock ?w1 + int pause\<rparr>)" by (rule environment_steps) simp_all
  also have "steps \<dots> (reaper_Run cfg rid pauses \<dots>)" by (rule Cons.IH)
  finally show ?case by (simp add: Let_def)
qed simp



end
