(* ===== verification/Stats_Behaviour.thy ===== *)
theory Stats_Behaviour
  imports Read_Behaviour
begin

text \<open>
  \<open>collectStats\<close>: its eight queries write disjoint fields, so the order in which the goroutines run
  does not matter, and the numbers agree with each other in every reachable state.
\<close>

subsection \<open>Counting\<close>

lemma set_counts_lookup:
  "distinct (map fst rows) \<Longrightarrow> set_counts rows m s = (case map_of rows s of None \<Rightarrow> m s | Some c \<Rightarrow> Some c)"
proof (induction rows arbitrary: m)
  case (Cons r rows)
  obtain k c where r: "r = (k, c)" by fastforce
  have "map_of rows k = None" using Cons.prems r by (auto simp: map_of_eq_None_iff)
  with Cons r show ?case by (auto split: option.splits)
qed simp

lemma group_count_lookup:
  "map_of (group_count f rows) s = (if s \<in> f ` set rows then Some (int (length (filter (\<lambda>r. f r = s) rows))) else None)"
  by (auto simp: group_count_def map_of_map_restrict restrict_map_def)

lemma group_count_distinct: "distinct (map fst (group_count f rows))"
  by (simp add: group_count_def o_def)

lemma set_group_counts:
  assumes "m s = Some 0"
  shows "set_counts (group_count f rows) m s = Some (int (length (filter (\<lambda>r. f r = s) rows)))"
proof (cases "s \<in> f ` set rows")
  case False
  then have "filter (\<lambda>r. f r = s) rows = []" by (auto simp: filter_empty_conv)
  with False assms show ?thesis by (simp add: set_counts_lookup group_count_distinct group_count_lookup)
qed (simp add: set_counts_lookup group_count_distinct group_count_lookup)

lemma sum_group_count: "sum_list (map snd (group_count f rows)) = int (length rows)"
proof -
  have c: "length (filter (\<lambda>r. f r = s) rows) = count_list (map f rows) s" for s
    by (induction rows) auto
  have "sum_list (map snd (group_count f rows)) = int (\<Sum>s\<in>set (map f rows). count_list (map f rows) s)"
    by (simp add: group_count_def o_def c sum_list_distinct_conv_sum_set)
  also have "\<dots> = int (length rows)" by (subst sum_count_set) auto
  finally show ?thesis .
qed

text \<open>Rows of two tables that are linked one to one are equally many.\<close>

lemma linked_counts:
  assumes "distinct (map j_id js)" and "distinct (map a_id xs)"
    and to_attempt: "\<And>j. j \<in> set js \<Longrightarrow> P j \<Longrightarrow> \<exists>a \<in> set xs. link j = Some (a_id a) \<and> Q a \<and> a_job a = j_id j"
    and from_attempt: "\<And>a. a \<in> set xs \<Longrightarrow> Q a \<Longrightarrow> \<exists>j \<in> set js. P j \<and> link j = Some (a_id a)"
  shows "length (filter Q xs) = length (filter P js)"
proof -
  let ?l = "\<lambda>j. the (link j)"
  have inj: "j = j'" if "j \<in> set js" "P j" "j' \<in> set js" "P j'" "?l j = ?l j'" for j j'
  proof -
    from to_attempt that obtain a a' where "a \<in> set xs" "link j = Some (a_id a)" "a_job a = j_id j"
      "a' \<in> set xs" "link j' = Some (a_id a')" "a_job a' = j_id j'" by metis
    moreover with that(5) assms(2) have "a = a'" by (auto simp: distinct_map inj_on_def)
    ultimately show ?thesis using that(1,3) assms(1) by (auto simp: distinct_map inj_on_def)
  qed
  have "set (map a_id (filter Q xs)) = set (map ?l (filter P js))"
    using to_attempt from_attempt by (auto simp: image_iff) (metis option.sel)+
  moreover have "distinct (map ?l (filter P js))"
    using assms(1) inj by (auto simp: distinct_map inj_on_def distinct_filter)
  moreover have "distinct (map a_id (filter Q xs))" using assms(2) by (rule distinct_map_filter)
  ultimately show ?thesis by (metis distinct_card length_map)
qed

lemma attempts_match_jobs:
  assumes ok: "db_ok d"
  shows "length (filter (\<lambda>a. a_status a = Running) (job_attempts d)) = length (filter (\<lambda>j. j_status j = Processing) (jobs d))"
    and "length (filter (\<lambda>a. a_status a = AttemptCompleted) (job_attempts d)) = length (filter (\<lambda>j. j_status j = Completed) (jobs d))"
proof -
  have keys: "distinct (map j_id (jobs d))" "distinct (map a_id (job_attempts d))" using db_okD(1) [OF ok] by (simp_all add: keys_ok_def)
  have job: "job_at d (j_id j) = Some j" if "j \<in> set (jobs d)" for j
    using that keys(1) by (simp add: job_at_def row_at_Some_iff)
  have att: "attempt_at d (a_id a) = Some a" if "a \<in> set (job_attempts d)" for a
    using that keys(2) by (simp add: attempt_at_def row_at_Some_iff)
  have jin: "j \<in> set (jobs d) \<and> j_id j = k" if "job_at d k = Some j" for j k
    using that keys(1) by (simp add: job_at_def row_at_Some_iff)
  have ain: "a \<in> set (job_attempts d) \<and> a_id a = k" if "attempt_at d k = Some a" for a k
    using that keys(2) by (simp add: attempt_at_def row_at_Some_iff)
  have jok: "job_ok d (j_id j) j" if "j \<in> set (jobs d)" for j using db_okD(3) [OF ok job [OF that]] .
  have aok: "attempt_ok d (a_id a) a" if "a \<in> set (job_attempts d)" for a using db_okD(4) [OF ok att [OF that]] .
  show "length (filter (\<lambda>a. a_status a = Running) (job_attempts d)) = length (filter (\<lambda>j. j_status j = Processing) (jobs d))"
  proof (rule linked_counts [OF keys, where link = j_current_attempt])
    fix j assume "j \<in> set (jobs d)" "j_status j = Processing"
    with jok [of j] ain show "\<exists>a \<in> set (job_attempts d). j_current_attempt j = Some (a_id a) \<and> a_status a = Running \<and> a_job a = j_id j"
      by (fastforce simp: job_ok_def job_local_def job_links_def attempt_is_def)
  next
    fix a assume "a \<in> set (job_attempts d)" "a_status a = Running"
    with aok [of a] jin jok show "\<exists>j \<in> set (jobs d). j_status j = Processing \<and> j_current_attempt j = Some (a_id a)"
      by (fastforce simp: attempt_ok_def job_ok_def job_local_def)
  qed
  show "length (filter (\<lambda>a. a_status a = AttemptCompleted) (job_attempts d)) = length (filter (\<lambda>j. j_status j = Completed) (jobs d))"
  proof (rule linked_counts [OF keys, where link = j_completed_attempt])
    fix j assume "j \<in> set (jobs d)" "j_status j = Completed"
    with jok [of j] ain show "\<exists>a \<in> set (job_attempts d). j_completed_attempt j = Some (a_id a) \<and> a_status a = AttemptCompleted \<and> a_job a = j_id j"
      by (fastforce simp: job_ok_def job_local_def job_links_def attempt_is_def)
  next
    fix a assume "a \<in> set (job_attempts d)" "a_status a = AttemptCompleted"
    with aok [of a] jin jok show "\<exists>j \<in> set (jobs d). j_status j = Completed \<and> j_completed_attempt j = Some (a_id a)"
      by (fastforce simp: attempt_ok_def job_ok_def job_local_def)
  qed
qed

subsection \<open>The group of queries\<close>

text \<open>What each goroutine writes when its calls are answered.\<close>

definition stats_setter :: "(nat \<Rightarrow> int list \<Rightarrow> int) \<Rightarrow> world \<Rightarrow> nat \<Rightarrow> stats \<Rightarrow> stats" where
  "stats_setter pc w i =
    [\<lambda>s. s\<lparr>QueueDepth := int (SCARD QueuedJobsSet (rds w))\<rparr>,
     \<lambda>s. s\<lparr>StatsJobs := set_counts (group_count (\<lambda>j. job_status_text (j_status j)) (jobs (db w))) (StatsJobs s)\<rparr>,
     \<lambda>s. s\<lparr>StatsWorkers := (set_counts (group_count (\<lambda>r. worker_status_text (w_status r)) (workers (db w))) (StatsWorkers s))
            (''total'' \<mapsto> int (length (workers (db w))))\<rparr>,
     \<lambda>s. s\<lparr>ThroughputPerMin := int (length (filter (\<lambda>j. j_status j = Completed \<and> j_updated_at j \<ge> clock w - Minute) (jobs (db w))))\<rparr>,
     \<lambda>s. s\<lparr>Latency := select_latency pc (clock w) (db w)\<rparr>,
     \<lambda>s. s\<lparr>StatsAttempts := set_counts (group_count (\<lambda>a. attempt_status_text (a_status a)) (job_attempts (db w))) (StatsAttempts s)\<rparr>,
     \<lambda>s. s\<lparr>OldestQueuedAge := oldest_age (clock w) (map j_queue_entered_at (filter (\<lambda>j. j_status j = Queued) (jobs (db w))))\<rparr>,
     \<lambda>s. s\<lparr>ActiveLeaseAge := oldest_age (clock w) (map a_started_at (filter (\<lambda>a. a_status a = Running) (job_attempts (db w))))\<rparr>] ! i"

lemma less_8: "i < 8 \<longleftrightarrow> i \<in> {0, 1, 2, 3, 4, 5, 6, 7 :: nat}"
  by auto

lemma stats_query_answered:
  assumes "net w = []" and "i < 8"
  shows "(stats_queries pc ! i) w = (Inr (stats_setter pc w i), w)"
  using assms
  by (auto simp: less_8 stats_queries_def stats_setter_def and_then_def ok_def rd_answered query_answered query_rows_def
      scan_rows_answered sum_group_count)

lemma stats_setters_commute: "i < 8 \<Longrightarrow> j < 8 \<Longrightarrow> stats_setter pc w i \<circ> stats_setter pc w j = stats_setter pc w j \<circ> stats_setter pc w i"
  by (auto simp: less_8 stats_setter_def fun_eq_iff)

lemma run_group_answered:
  "(\<And>i. i \<in> set order \<Longrightarrow> g i w = (Inr (f i), w)) \<Longrightarrow> run_group (map g order) s w = (Inr (fold f order s), w)"
  by (induction order arbitrary: s) auto

lemma collectStats_answered:
  assumes "net w = []" and "mset order = mset [0..<8]"
  shows "collectStats pc order w = (Inr (fold (stats_setter pc w) [0..<8] empty_stats), w)"
proof -
  have in8: "i < 8" if "i \<in> set order" for i using that assms(2) by (metis atLeastLessThan_iff set_mset_mset set_upt)
  have "fold (stats_setter pc w) order = fold (stats_setter pc w) [0..<8]"
    by (rule fold_multiset_equiv) (use assms(2) in8 stats_setters_commute in auto)
  with run_group_answered [of order "\<lambda>i. stats_queries pc ! i" w "stats_setter pc w" empty_stats] stats_query_answered [OF assms(1)] in8
  show ?thesis by (simp add: collectStats_def)
qed

text \<open>Counting an enumerated column over counters that start at zero for every label.\<close>

lemma zero_counts_key: "zero_counts ks k = (if k \<in> set ks then Some 0 else None)"
  unfolding zero_counts_def by (induction ks) auto

context enum_text
begin

lemma count_column:
  assumes "set labels \<subseteq> set ks"
  shows "set_counts (group_count (\<lambda>r. label (column r)) rows) (zero_counts ks) (label a) =
    Some (int (length (filter (\<lambda>r. column r = a) rows)))"
  using assms text_label [of a] by (subst set_group_counts) (auto simp: zero_counts_key column_filter)

end

lemmas status_counts = job_text.count_column worker_text.count_column attempt_text.count_column

definition the_stats :: "(nat \<Rightarrow> int list \<Rightarrow> int) \<Rightarrow> world \<Rightarrow> stats" where
  "the_stats pc w = fold (stats_setter pc w) [0..<8] empty_stats"

lemma the_stats_eq:
  "the_stats pc w = empty_stats\<lparr>
     QueueDepth := int (SCARD QueuedJobsSet (rds w)),
     StatsJobs := set_counts (group_count (\<lambda>j. job_status_text (j_status j)) (jobs (db w))) (StatsJobs empty_stats),
     StatsWorkers := (set_counts (group_count (\<lambda>r. worker_status_text (w_status r)) (workers (db w))) (StatsWorkers empty_stats))
            (''total'' \<mapsto> int (length (workers (db w)))),
     ThroughputPerMin := int (length (filter (\<lambda>j. j_status j = Completed \<and> j_updated_at j \<ge> clock w - Minute) (jobs (db w)))),
     Latency := select_latency pc (clock w) (db w),
     StatsAttempts := set_counts (group_count (\<lambda>a. attempt_status_text (a_status a)) (job_attempts (db w))) (StatsAttempts empty_stats),
     OldestQueuedAge := oldest_age (clock w) (map j_queue_entered_at (filter (\<lambda>j. j_status j = Queued) (jobs (db w)))),
     ActiveLeaseAge := oldest_age (clock w) (map a_started_at (filter (\<lambda>a. a_status a = Running) (job_attempts (db w))))\<rparr>"
proof -
  have "[0..<8] = [0, 1, 2, 3, 4, 5, 6, 7]" by (simp add: upt_rec)
  then show ?thesis by (simp add: the_stats_def stats_setter_def)
qed

lemma the_stats_counts:
  "StatsJobs (the_stats pc w) (job_status_text st) = Some (int (length (filter (\<lambda>j. j_status j = st) (jobs (db w)))))"
  "StatsWorkers (the_stats pc w) (worker_status_text ws) = Some (int (length (filter (\<lambda>r. w_status r = ws) (workers (db w)))))"
  "StatsAttempts (the_stats pc w) (attempt_status_text ast) = Some (int (length (filter (\<lambda>a. a_status a = ast) (job_attempts (db w)))))"
proof -
  have "worker_status_text ws \<noteq> ''total''" by (cases ws) simp_all
  then show "StatsJobs (the_stats pc w) (job_status_text st) = Some (int (length (filter (\<lambda>j. j_status j = st) (jobs (db w)))))"
    "StatsWorkers (the_stats pc w) (worker_status_text ws) = Some (int (length (filter (\<lambda>r. w_status r = ws) (workers (db w)))))"
    "StatsAttempts (the_stats pc w) (attempt_status_text ast) = Some (int (length (filter (\<lambda>a. a_status a = ast) (job_attempts (db w)))))"
    by (auto simp: the_stats_eq empty_stats_def status_counts)
qed

lemma oldest_age_None: "oldest_age t ts = None \<longleftrightarrow> ts = []"
  by (simp add: oldest_age_def)

text \<open>
  C34. The statistics add up: in every reachable state, with the calls answered and whatever the
  order of the goroutines, each status has its exact number of jobs, workers and attempts; as many
  attempts run as jobs are processing, and as many completed as jobs did; the total of workers is
  right; the queue depth is the length of the queue; an age is reported exactly when there is
  something to measure; the jobs of the last minute are among the completed ones.
\<close>

theorem stats_add_up:
  assumes "reachable w" and "net w = []" and "mset order = mset [0..<8]"
  shows "\<exists>s. collectStats pc order w = (Inr s, w) \<and>
    (\<forall>st. StatsJobs s (job_status_text st) = Some (int (length (filter (\<lambda>j. j_status j = st) (jobs (db w)))))) \<and>
    (\<forall>st. StatsWorkers s (worker_status_text st) = Some (int (length (filter (\<lambda>r. w_status r = st) (workers (db w)))))) \<and>
    (\<forall>st. StatsAttempts s (attempt_status_text st) = Some (int (length (filter (\<lambda>a. a_status a = st) (job_attempts (db w)))))) \<and>
    StatsAttempts s ''running'' = StatsJobs s ''processing'' \<and> StatsAttempts s ''completed'' = StatsJobs s ''completed'' \<and>
    StatsWorkers s ''total'' = Some (int (length (workers (db w)))) \<and> QueueDepth s = int (length (contents (rds w))) \<and>
    (OldestQueuedAge s = None \<longleftrightarrow> StatsJobs s ''queued'' = Some 0) \<and> (ActiveLeaseAge s = None \<longleftrightarrow> StatsJobs s ''processing'' = Some 0) \<and>
    (\<exists>c. StatsJobs s ''completed'' = Some c \<and> ThroughputPerMin s \<le> c)"
proof (rule exI [of _ "the_stats pc w"], intro conjI allI)
  have ok: "db_ok (db w)" and q: "queue_ok (rds w)" using reachable_ok [OF assms(1)] by (simp_all add: world_ok_def)
  note m = attempts_match_jobs [OF ok]
  note running = the_stats_counts(3) [of pc w Running, simplified] and completed = the_stats_counts(3) [of pc w AttemptCompleted, simplified]
  note jobs_of = the_stats_counts(1) [of pc w Processing, simplified] the_stats_counts(1) [of pc w Completed, simplified]
    the_stats_counts(1) [of pc w Queued, simplified]
  show "collectStats pc order w = (Inr (the_stats pc w), w)" unfolding the_stats_def using assms(2,3) by (rule collectStats_answered)
  show "StatsAttempts (the_stats pc w) ''running'' = StatsJobs (the_stats pc w) ''processing''"
    "StatsAttempts (the_stats pc w) ''completed'' = StatsJobs (the_stats pc w) ''completed''"
    by (simp_all add: running completed jobs_of m)
  show "StatsWorkers (the_stats pc w) ''total'' = Some (int (length (workers (db w))))" by (simp add: the_stats_eq)
  show "QueueDepth (the_stats pc w) = int (length (contents (rds w)))"
    using q distinct_card [of "map snd (contents (rds w))"] by (simp add: the_stats_eq SCARD_def queue_ok_def)
  show "OldestQueuedAge (the_stats pc w) = None \<longleftrightarrow> StatsJobs (the_stats pc w) ''queued'' = Some 0"
    unfolding jobs_of by (simp add: the_stats_eq oldest_age_None)
  have "ActiveLeaseAge (the_stats pc w) = None \<longleftrightarrow> length (filter (\<lambda>a. a_status a = Running) (job_attempts (db w))) = 0"
    by (simp add: the_stats_eq oldest_age_None)
  then show "ActiveLeaseAge (the_stats pc w) = None \<longleftrightarrow> StatsJobs (the_stats pc w) ''processing'' = Some 0"
    unfolding jobs_of m by simp
  have "length (filter (\<lambda>j. j_status j = Completed \<and> j_updated_at j \<ge> clock w - Minute) (jobs (db w))) \<le>
      length (filter (\<lambda>j. j_status j = Completed) (jobs (db w)))" by (simp flip: filter_filter)
  then show "\<exists>c. StatsJobs (the_stats pc w) ''completed'' = Some c \<and> ThroughputPerMin (the_stats pc w) \<le> c"
    unfolding jobs_of by (simp add: the_stats_eq)
qed (rule the_stats_counts)+

theorem stats_add_up_witness:
  "\<exists>s. collectStats (\<lambda>_ _. 0) [7, 6, 5, 4, 3, 2, 1, 0] w_claimed = (Inr s, w_claimed) \<and> StatsAttempts s ''running'' = Some 1"
proof -
  have n: "net w_claimed = []" by (simp add: sample_defs)
  have "rev [7, 6, 5, 4, 3, 2, 1, 0 :: nat] = [0..<8]" by (simp add: upt_rec)
  then have o: "mset [7, 6, 5, 4, 3, 2, 1, 0] = mset [0..<8 :: nat]" by (metis mset_rev)
  have "length (filter (\<lambda>a. a_status a = Running) (job_attempts (db w_claimed))) = 1" by (simp add: sample_defs)
  with stats_add_up [OF w_claimed_reachable n o, of "\<lambda>_ _. 0"] show ?thesis
    by (metis attempt_status_text.simps(1) of_nat_1)
qed

end
