(* ===== verification/Api_Metrics.thy ===== *)
theory Api_Metrics
  imports Stats_Behaviour
begin

text \<open>
  The Prometheus endpoints: \<open>metrics\<close> and \<open>optionalFloat\<close> of the API server (\<open>metrics.go\<close>) and the
  \<open>Handler\<close> of \<open>pkg/metrics/metrics.go\<close>. Go ranges over a map in an unspecified order, so \<open>iter\<close>
  and \<open>iter_latency\<close> are parameters; \<open>fmt3\<close> is \<open>%.3f\<close> of a duration in seconds. A response is its
  status and text.
\<close>

definition newline :: string where
  "newline = [CHR 0x0A]"

definition optionalFloat :: "(duration \<Rightarrow> string) \<Rightarrow> duration option \<Rightarrow> string" where
  "optionalFloat fmt3 value = (case value of None \<Rightarrow> ''0'' | Some v \<Rightarrow> fmt3 v)"

definition gauge_lines :: "(duration \<Rightarrow> string) \<Rightarrow> stats \<Rightarrow> string list" where
  "gauge_lines fmt3 s =
    [''# HELP transcodex_queue_depth Number of queued jobs known to Redis.'',
     ''# TYPE transcodex_queue_depth gauge'',
     ''transcodex_queue_depth '' @ dec (QueueDepth s),
     ''# HELP transcodex_throughput_per_minute Completed jobs in the last minute.'',
     ''# TYPE transcodex_throughput_per_minute gauge'',
     ''transcodex_throughput_per_minute '' @ dec (ThroughputPerMin s),
     ''# HELP transcodex_oldest_queued_age_seconds Age of the oldest queued job.'',
     ''# TYPE transcodex_oldest_queued_age_seconds gauge'',
     ''transcodex_oldest_queued_age_seconds '' @ optionalFloat fmt3 (OldestQueuedAge s),
     ''# HELP transcodex_active_lease_age_seconds Age of the oldest running attempt.'',
     ''# TYPE transcodex_active_lease_age_seconds gauge'',
     ''transcodex_active_lease_age_seconds '' @ optionalFloat fmt3 (ActiveLeaseAge s)]"

definition status_line :: "string \<Rightarrow> string \<times> int \<Rightarrow> string" where
  "status_line metric kc = metric @ ''{status='' @ Quote (fst kc) @ ''} '' @ dec (snd kc)"

definition latency_lines :: "(string \<times> int option) list \<Rightarrow> string list" where
  "latency_lines rows =
     List.map_filter (\<lambda>(name, value). map_option (\<lambda>v. ''transcodex_'' @ name @ ''_p95_milliseconds '' @ dec v) value) rows"

definition p95_values :: "stats \<Rightarrow> (string \<times> int option) list" where
  "p95_values s = [(''queue_wait'', QueueWaitP95MS (Latency s)), (''processing'', ProcessingP95MS (Latency s)), (''total'', TotalP95MS (Latency s))]"

definition metrics_lines ::
    "((string \<rightharpoonup> int) \<Rightarrow> (string \<times> int) list) \<Rightarrow> ((string \<times> int option) list \<Rightarrow> (string \<times> int option) list) \<Rightarrow> (duration \<Rightarrow> string) \<Rightarrow> stats \<Rightarrow> string list" where
  "metrics_lines iter iter_latency fmt3 s =
     gauge_lines fmt3 s @ map (status_line ''transcodex_jobs'') (iter (StatsJobs s)) @
     map (status_line ''transcodex_workers'') (iter (StatsWorkers s)) @
     map (status_line ''transcodex_attempts'') (iter (StatsAttempts s)) @ latency_lines (iter_latency (p95_values s))"

definition metrics ::
    "(nat \<Rightarrow> int list \<Rightarrow> int) \<Rightarrow> nat list \<Rightarrow> ((string \<rightharpoonup> int) \<Rightarrow> (string \<times> int) list) \<Rightarrow>
     ((string \<times> int option) list \<Rightarrow> (string \<times> int option) list) \<Rightarrow> (duration \<Rightarrow> string) \<Rightarrow> world \<Rightarrow> (int \<times> string) \<times> world" where
  "metrics percentile_cont order iter iter_latency fmt3 w =
     (case collectStats percentile_cont order w of
        (Inl e, w') \<Rightarrow> ((503, ''# metrics unavailable'' @ newline), w')
      | (Inr s, w') \<Rightarrow> ((200, concat (map (\<lambda>line. line @ newline) (metrics_lines iter iter_latency fmt3 s))), w'))"

text \<open>The process metrics of the worker and the reaper, given the uptime.\<close>

definition Handler :: "(duration \<Rightarrow> string) \<Rightarrow> string \<Rightarrow> duration \<Rightarrow> string" where
  "Handler fmt3 service uptime =
     concat (map (\<lambda>line. line @ newline)
       [''# HELP transcodex_service_info Service process identity.'', ''# TYPE transcodex_service_info gauge'',
        ''transcodex_service_info{service='' @ Quote service @ ''} 1'',
        ''# HELP transcodex_process_uptime_seconds Service process uptime.'', ''# TYPE transcodex_process_uptime_seconds gauge'',
        ''transcodex_process_uptime_seconds{service='' @ Quote service @ ''} '' @ fmt3 uptime])"

subsection \<open>The samples\<close>

definition ranges_over :: "((string \<rightharpoonup> int) \<Rightarrow> (string \<times> int) list) \<Rightarrow> (string \<rightharpoonup> int) \<Rightarrow> bool" where
  "ranges_over iter m \<longleftrightarrow> distinct (map fst (iter m)) \<and> map_of (iter m) = m"

lemma status_line_inject: "status_line m (k, v) = status_line m (k', v') \<longleftrightarrow> k = k' \<and> v = v'"
  using Quote_prefix_free [of k "''} '' @ dec v" k' "''} '' @ dec v'"] by (auto simp: status_line_def)

lemma set_counts_keys: "set_counts (group_count f rows) m k = Some c \<Longrightarrow> m k \<noteq> None \<or> k \<in> f ` set rows"
  by (auto simp: set_counts_lookup group_count_distinct group_count_lookup split: if_splits option.splits)

definition status_keys :: "string list" where
  "status_keys = [''queued'', ''processing'', ''completed'', ''dead'', ''total'', ''idle'', ''busy'', ''running'', ''failed'', ''expired'']"

lemma text_in_status_keys:
  "job_status_text st \<in> set status_keys" "worker_status_text ws \<in> set status_keys" "attempt_status_text ast \<in> set status_keys"
  using job_text.text_label [of st] worker_text.text_label [of ws] attempt_text.text_label [of ast]
  by (auto simp: status_keys_def)

lemma the_stats_dom:
  "dom (StatsJobs (the_stats pc w)) \<subseteq> set status_keys" "dom (StatsWorkers (the_stats pc w)) \<subseteq> set status_keys"
  "dom (StatsAttempts (the_stats pc w)) \<subseteq> set status_keys"
proof -
  have z: "zero_counts ks k \<noteq> None \<Longrightarrow> k \<in> set ks" for ks k by (simp add: zero_counts_key split: if_splits)
  show "dom (StatsJobs (the_stats pc w)) \<subseteq> set status_keys"
    by (auto simp: the_stats_eq empty_stats_def text_in_status_keys dest!: set_counts_keys z) (auto simp: status_keys_def)
  show "dom (StatsWorkers (the_stats pc w)) \<subseteq> set status_keys"
    by (auto simp: the_stats_eq empty_stats_def text_in_status_keys split: if_splits dest!: set_counts_keys z) (auto simp: status_keys_def)
  show "dom (StatsAttempts (the_stats pc w)) \<subseteq> set status_keys"
    by (auto simp: the_stats_eq empty_stats_def text_in_status_keys dest!: set_counts_keys z) (auto simp: status_keys_def)
qed

text \<open>Which group a line belongs to can be read off its first characters.\<close>

definition status_metric :: "string \<Rightarrow> bool" where
  "status_metric m \<longleftrightarrow> m \<in> {''transcodex_jobs'', ''transcodex_workers'', ''transcodex_attempts''}"

lemma not_in_gauges: "status_metric m \<Longrightarrow> status_line m kc \<notin> set (gauge_lines fmt3 s)"
  by (auto simp: status_metric_def status_line_def gauge_lines_def)

lemma not_in_latencies:
  assumes "keeps_rows iter_latency" and "status_metric m"
  shows "status_line m kc \<notin> set (latency_lines (iter_latency (p95_values s)))"
proof -
  have "set (iter_latency (p95_values s)) = set (p95_values s)" using assms(1) by (metis keeps_rows_def set_mset_mset)
  then have names: "fst ` set (iter_latency (p95_values s)) = {''queue_wait'', ''processing'', ''total''}" by (auto simp: p95_values_def)
  have "\<exists>name v. name \<in> fst ` set rows \<and> x = ''transcodex_'' @ name @ ''_p95_milliseconds '' @ dec v" if "x \<in> set (latency_lines rows)" for x rows
    using that by (force simp: latency_lines_def map_filter_def)
  with names have "\<exists>name v. name \<in> {''queue_wait'', ''processing'', ''total''} \<and> x = ''transcodex_'' @ name @ ''_p95_milliseconds '' @ dec v"
    if "x \<in> set (latency_lines (iter_latency (p95_values s)))" for x using that by metis
  moreover have "status_line m kc \<noteq> ''transcodex_'' @ name @ ''_p95_milliseconds '' @ dec v"
    if "name \<in> {''queue_wait'', ''processing'', ''total''}" for name v
    using assms(2) that unfolding status_metric_def status_line_def by (elim insertE emptyE) simp_all
  ultimately show ?thesis by blast
qed

lemma other_metric: "status_metric m \<Longrightarrow> status_metric m' \<Longrightarrow> m \<noteq> m' \<Longrightarrow> status_line m kc \<noteq> status_line m' kc'"
  by (auto simp: status_metric_def status_line_def)

lemma status_sample:
  assumes "ranges_over iter f"
  shows "status_line m (k, v) \<in> status_line m ` set (iter f) \<longleftrightarrow> f k = Some v"
proof -
  have in_iter: "(k, c) \<in> set (iter f) \<longleftrightarrow> f k = Some c" for k c
    using assms(1) by (metis map_of_eq_Some_iff ranges_over_def)
  have "f k = Some v" if "status_line m (k, v) = status_line m kc" "kc \<in> set (iter f)" for kc
  proof -
    obtain k' c where kc: "kc = (k', c)" by fastforce
    with that(2) in_iter have "f k' = Some c" by blast
    with that(1) kc show ?thesis using status_line_inject [of m k v k' c] by auto
  qed
  then show ?thesis using in_iter by blast
qed

lemma metrics_samples:
  assumes r: "ranges_over iter (StatsJobs (the_stats pc w))" "ranges_over iter (StatsWorkers (the_stats pc w))"
    "ranges_over iter (StatsAttempts (the_stats pc w))" and k: "keeps_rows iter_latency"
  shows "status_line ''transcodex_jobs'' (job_status_text st, v) \<in> set (metrics_lines iter iter_latency fmt3 (the_stats pc w)) \<longleftrightarrow>
      StatsJobs (the_stats pc w) (job_status_text st) = Some v"
    and "status_line ''transcodex_workers'' (worker_status_text ws, v) \<in> set (metrics_lines iter iter_latency fmt3 (the_stats pc w)) \<longleftrightarrow>
      StatsWorkers (the_stats pc w) (worker_status_text ws) = Some v"
    and "status_line ''transcodex_attempts'' (attempt_status_text ast, v) \<in> set (metrics_lines iter iter_latency fmt3 (the_stats pc w)) \<longleftrightarrow>
      StatsAttempts (the_stats pc w) (attempt_status_text ast) = Some v"
proof -
  have sm: "status_metric ''transcodex_jobs''" "status_metric ''transcodex_workers''" "status_metric ''transcodex_attempts''"
    by (simp_all add: status_metric_def)
  note out = not_in_gauges [of _ _ fmt3 "the_stats pc w"] not_in_latencies [OF k, of _ _ "the_stats pc w"]
  have other: "status_line m kc \<notin> status_line m' ` X" if "status_metric m" "status_metric m'" "m \<noteq> m'" for m m' kc X
    using other_metric [OF that] by blast
  show "status_line ''transcodex_jobs'' (job_status_text st, v) \<in> set (metrics_lines iter iter_latency fmt3 (the_stats pc w)) \<longleftrightarrow>
      StatsJobs (the_stats pc w) (job_status_text st) = Some v"
    using status_sample [OF r(1)] out [OF sm(1)] other [OF sm(1) sm(2)] other [OF sm(1) sm(3)]
    by (simp add: metrics_lines_def)
  show "status_line ''transcodex_workers'' (worker_status_text ws, v) \<in> set (metrics_lines iter iter_latency fmt3 (the_stats pc w)) \<longleftrightarrow>
      StatsWorkers (the_stats pc w) (worker_status_text ws) = Some v"
    using status_sample [OF r(2)] out [OF sm(2)] other [OF sm(2) sm(1)] other [OF sm(2) sm(3)]
    by (simp add: metrics_lines_def)
  show "status_line ''transcodex_attempts'' (attempt_status_text ast, v) \<in> set (metrics_lines iter iter_latency fmt3 (the_stats pc w)) \<longleftrightarrow>
      StatsAttempts (the_stats pc w) (attempt_status_text ast) = Some v"
    using status_sample [OF r(3)] out [OF sm(3)] other [OF sm(3) sm(1)] other [OF sm(3) sm(2)]
    by (simp add: metrics_lines_def)
qed

text \<open>
  C40. The exported metrics report the database: with the calls answered, whatever the order of the
  goroutines and of the map iterations, the text has for each status of jobs, workers and attempts
  a sample with the exact number of rows, and no other sample for that status.
\<close>

theorem metrics_report_counts:
  assumes "net w = []" and "mset order = mset [0..<8]"
    and "\<forall>m. dom m \<subseteq> set status_keys \<longrightarrow> ranges_over iter m" and "keeps_rows iter_latency"
  shows "\<exists>lines. metrics pc order iter iter_latency fmt3 w = ((200, concat (map (\<lambda>line. line @ newline) lines)), w) \<and>
    (\<forall>st v. status_line ''transcodex_jobs'' (job_status_text st, v) \<in> set lines \<longleftrightarrow>
       v = int (length (filter (\<lambda>j. j_status j = st) (jobs (db w))))) \<and>
    (\<forall>st v. status_line ''transcodex_workers'' (worker_status_text st, v) \<in> set lines \<longleftrightarrow>
       v = int (length (filter (\<lambda>r. w_status r = st) (workers (db w))))) \<and>
    (\<forall>st v. status_line ''transcodex_attempts'' (attempt_status_text st, v) \<in> set lines \<longleftrightarrow>
       v = int (length (filter (\<lambda>a. a_status a = st) (job_attempts (db w)))))"
proof (rule exI [of _ "metrics_lines iter iter_latency fmt3 (the_stats pc w)"], intro conjI allI)
  show "metrics pc order iter iter_latency fmt3 w =
      ((200, concat (map (\<lambda>line. line @ newline) (metrics_lines iter iter_latency fmt3 (the_stats pc w)))), w)"
    using collectStats_answered [OF assms(1,2)] by (simp add: metrics_def the_stats_def)
  have "ranges_over iter (StatsJobs (the_stats pc w))" "ranges_over iter (StatsWorkers (the_stats pc w))"
    "ranges_over iter (StatsAttempts (the_stats pc w))" using assms(3) the_stats_dom by blast+
  note s = metrics_samples [OF this assms(4), unfolded the_stats_counts option.inject]
  show "status_line ''transcodex_jobs'' (job_status_text st, v) \<in> set (metrics_lines iter iter_latency fmt3 (the_stats pc w)) \<longleftrightarrow>
      v = int (length (filter (\<lambda>j. j_status j = st) (jobs (db w))))" for st v
    using s(1) by (simp only: eq_commute)
  show "status_line ''transcodex_workers'' (worker_status_text st, v) \<in> set (metrics_lines iter iter_latency fmt3 (the_stats pc w)) \<longleftrightarrow>
      v = int (length (filter (\<lambda>r. w_status r = st) (workers (db w))))" for st v
    using s(2) by (simp only: eq_commute)
  show "status_line ''transcodex_attempts'' (attempt_status_text st, v) \<in> set (metrics_lines iter iter_latency fmt3 (the_stats pc w)) \<longleftrightarrow>
      v = int (length (filter (\<lambda>a. a_status a = st) (job_attempts (db w))))" for st v
    using s(3) by (simp only: eq_commute)
qed

definition range_statuses :: "(string \<rightharpoonup> int) \<Rightarrow> (string \<times> int) list" where
  "range_statuses m = map (\<lambda>k. (k, the (m k))) (filter (\<lambda>k. m k \<noteq> None) status_keys)"

lemma range_statuses_ranges: "dom m \<subseteq> set status_keys \<Longrightarrow> ranges_over range_statuses m"
proof -
  assume d: "dom m \<subseteq> set status_keys"
  have "map_of (range_statuses m) k = m k" for k
    using d unfolding range_statuses_def by (cases "m k") (auto simp: map_of_map_restrict restrict_map_def)
  moreover have "distinct status_keys" by (simp add: status_keys_def)
  then have "distinct (map fst (range_statuses m))" by (simp add: range_statuses_def o_def)
  ultimately show ?thesis by (auto simp: ranges_over_def)
qed

theorem metrics_report_counts_witness:
  "\<exists>lines. metrics (\<lambda>_ _. 0) [0..<8] range_statuses rev (\<lambda>_. ''1'') w_claimed = ((200, concat (map (\<lambda>line. line @ newline) lines)), w_claimed) \<and>
     status_line ''transcodex_jobs'' (''processing'', 1) \<in> set lines"
proof -
  have n: "net w_claimed = []" and l: "length (filter (\<lambda>j. j_status j = Processing) (jobs (db w_claimed))) = 1" by (simp_all add: sample_defs)
  have k: "keeps_rows rev" by (simp add: keeps_rows_def)
  have r: "\<forall>m. dom m \<subseteq> set status_keys \<longrightarrow> ranges_over range_statuses m" using range_statuses_ranges by blast
  from metrics_report_counts [OF n refl r k, of "\<lambda>_ _. 0" "\<lambda>_. ''1''"] obtain lines where
    e: "metrics (\<lambda>_ _. 0) [0..<8] range_statuses rev (\<lambda>_. ''1'') w_claimed = ((200, concat (map (\<lambda>line. line @ newline) lines)), w_claimed)"
    and s: "\<forall>st v. status_line ''transcodex_jobs'' (job_status_text st, v) \<in> set lines \<longleftrightarrow>
       v = int (length (filter (\<lambda>j. j_status j = st) (jobs (db w_claimed))))" by blast
  from s [THEN spec, THEN spec, of Processing 1] l have "status_line ''transcodex_jobs'' (''processing'', 1) \<in> set lines" by simp
  with e show ?thesis by blast
qed

end
