(* ===== verification/Api_Router.thy ===== *)
theory Api_Router
  imports Api_Metrics Upload_Behaviour
begin

text \<open>
  The HTTP surface of the API server (\<open>buildRouter\<close>, \<open>healthz\<close>, \<open>requestLogger\<close> and
  \<open>recoveryHandler\<close> of \<open>server.go\<close>): the table of routes, and one request from the middleware to the log
  line. The engine that matches a method and a path against the table and the CORS middleware are
  libraries and hence parameters; both get what \<open>buildRouter\<close> passes to them.
\<close>

subsection \<open>Requests and replies\<close>

record request =
  req_method :: string
  req_path :: string
  req_query :: "string \<Rightarrow> string"
  req_form :: "form_event list option"

text \<open>What a handler needs from outside: the parameters of the handlers of the other theories.\<close>

record request_env =
  error_text :: "go_error \<Rightarrow> string"
  detect_type :: "string \<Rightarrow> string"
  read_buf :: "nat \<Rightarrow> nat"
  new_id :: uuid
  is_uuid :: "string \<Rightarrow> bool"
  output_order :: "output_row list \<Rightarrow> output_row list"
  worker_order :: "worker_row list \<Rightarrow> worker_row list"
  job_order :: "job_row list \<Rightarrow> job_row list"
  percentiles :: "nat \<Rightarrow> int list \<Rightarrow> int"
  goroutines :: "nat list"
  json_Marshal :: "stats \<Rightarrow> string result"
  client_write :: "string \<Rightarrow> unit result"
  client_flusher :: bool
  client_selects :: "bool list"
  count_order :: "(string \<rightharpoonup> int) \<Rightarrow> (string \<times> int) list"
  latency_order :: "(string \<times> int option) list \<Rightarrow> (string \<times> int option) list"
  float3 :: "duration \<Rightarrow> string"

datatype reply_body =
    HealthReply "string response"
  | MetricsReply "int \<times> string"
  | UploadReply upload_response
  | JobReply "(api_job \<times> job_output list) response"
  | OutputsReply "job_output list response"
  | StatsReply "stats response"
  | JobsReply "api_job list response"
  | WorkersReply "api_worker list response"
  | StreamReply "string list response"
  | RecoveredReply "unit response"
  | EngineReply int

fun response_status :: "'a response \<Rightarrow> int" where
  "response_status (JSON code _) = code"
| "response_status (ErrorJSON code _) = code"

fun status_of :: "reply_body \<Rightarrow> int" where
  "status_of (HealthReply r) = response_status r"
| "status_of (MetricsReply m) = fst m"
| "status_of (UploadReply r) = response_status r"
| "status_of (JobReply r) = response_status r"
| "status_of (OutputsReply r) = response_status r"
| "status_of (StatsReply r) = response_status r"
| "status_of (JobsReply r) = response_status r"
| "status_of (WorkersReply r) = response_status r"
| "status_of (StreamReply r) = response_status r"
| "status_of (RecoveredReply r) = response_status r"
| "status_of (EngineReply code) = code"

subsection \<open>Routes\<close>

datatype handler = Healthz | Metrics | Upload | GetJob | GetJobOutputs | GetStats | GetInternalJobs | GetWorkers | StreamStats

definition routes :: "((string \<times> string) \<times> handler) list" where
  "routes =
    [((''GET'', ''/healthz''), Healthz),
     ((''GET'', ''/metrics''), Metrics),
     ((''POST'', ''/uploads''), Upload),
     ((''GET'', ''/jobs/:id''), GetJob),
     ((''GET'', ''/jobs/:id/outputs''), GetJobOutputs),
     ((''GET'', ''/internal/stats''), GetStats),
     ((''GET'', ''/internal/jobs''), GetInternalJobs),
     ((''GET'', ''/internal/workers''), GetWorkers),
     ((''GET'', ''/internal/stats/stream''), StreamStats)]"

definition healthz :: "string response" where
  "healthz = JSON 200 ''ok''"

definition returned :: "('a \<Rightarrow> reply_body) \<Rightarrow> 'a \<times> world \<Rightarrow> reply_body outcome \<times> world" where
  "returned f rw = (Returned (f (fst rw)), snd rw)"

text \<open>The handler of a route; \<open>c.Param("id")\<close> is \<open>params ''id''\<close>, \<open>c.Query(k)\<close> is \<open>req_query req k\<close>.\<close>

fun run_handler :: "api_config \<Rightarrow> request_env \<Rightarrow> handler \<Rightarrow> (string \<Rightarrow> string) \<Rightarrow> request \<Rightarrow> world \<Rightarrow> reply_body outcome \<times> world" where
  "run_handler cfg e Healthz params req w = (Returned (HealthReply healthz), w)"
| "run_handler cfg e Metrics params req w =
     returned MetricsReply (metrics (percentiles e) (goroutines e) (count_order e) (latency_order e) (float3 e) w)"
| "run_handler cfg e Upload params req w =
     returned UploadReply (upload cfg (error_text e) (detect_type e) (read_buf e) (new_id e) (req_form req) w)"
| "run_handler cfg e GetJob params req w = returned JobReply (getJob (is_uuid e) (output_order e) (params ''id'') w)"
| "run_handler cfg e GetJobOutputs params req w = returned OutputsReply (getJobOutputs (is_uuid e) (output_order e) (params ''id'') w)"
| "run_handler cfg e GetStats params req w = returned StatsReply (getStats (percentiles e) (goroutines e) w)"
| "run_handler cfg e GetInternalJobs params req w =
     returned JobsReply (getInternalJobs (job_order e) (req_query req ''limit'') (req_query req ''status'') w)"
| "run_handler cfg e GetWorkers params req w = returned WorkersReply (getWorkers (worker_order e) w)"
| "run_handler cfg e StreamStats params req w =
     (case streamStats cfg (percentiles e) (goroutines e) (json_Marshal e) (client_write e) (client_flusher e) (client_selects e) w of
        (Returned r, w') \<Rightarrow> (Returned (StreamReply r), w')
      | (Panicked, w') \<Rightarrow> (Panicked, w'))"

subsection \<open>A request\<close>

text \<open>
  \<open>find_route\<close> gets the registered methods and paths and returns the entry that matches, with the path
  parameters; \<open>cors_abort\<close> gets the origins, methods and headers of the configuration and returns a
  status if the middleware answers itself (a preflight, a foreign origin).
\<close>

record engine =
  find_route :: "(string \<times> string) list \<Rightarrow> string \<Rightarrow> string \<Rightarrow> ((string \<times> string) \<times> (string \<Rightarrow> string)) option"
  cors_abort :: "string list \<Rightarrow> string list \<Rightarrow> string list \<Rightarrow> request \<Rightarrow> int option"

definition recoveryHandler :: reply_body where
  "recoveryHandler = RecoveredReply (ErrorJSON 500 ''internal server error'')"

definition with_recovery :: "reply_body outcome \<times> world \<Rightarrow> reply_body \<times> world" where
  "with_recovery ow = (case ow of (Returned r, w) \<Rightarrow> (r, w) | (Panicked, w) \<Rightarrow> (recoveryHandler, w))"

definition dispatch :: "engine \<Rightarrow> api_config \<Rightarrow> request_env \<Rightarrow> request \<Rightarrow> world \<Rightarrow> reply_body \<times> world" where
  "dispatch g cfg e req w =
     (case cors_abort g (CORSAllowedOrigins cfg) [''GET'', ''POST'', ''OPTIONS''] [''Content-Type'', ''Authorization''] req of
        Some code \<Rightarrow> (EngineReply code, w)
      | None \<Rightarrow>
          (case find_route g (map fst routes) (req_method req) (req_path req) of
             None \<Rightarrow> (EngineReply 404, w)
           | Some (entry, params) \<Rightarrow>
               (case map_of routes entry of
                  None \<Rightarrow> (EngineReply 404, w)
                | Some h \<Rightarrow> with_recovery (run_handler cfg e h params req w))))"

record access_log =
  log_method :: string
  log_path :: string
  log_status :: int
  log_latency :: duration

text \<open>\<open>requestLogger\<close> around everything else.\<close>

definition requestLogger :: "(request \<Rightarrow> world \<Rightarrow> reply_body \<times> world) \<Rightarrow> request \<Rightarrow> world \<Rightarrow> (reply_body \<times> access_log) \<times> world" where
  "requestLogger next req w =
     (case next req w of (r, w') \<Rightarrow>
        ((r, \<lparr>log_method = req_method req, log_path = req_path req, log_status = status_of r, log_latency = clock w' - clock w\<rparr>), w'))"

definition serve :: "engine \<Rightarrow> api_config \<Rightarrow> request_env \<Rightarrow> request \<Rightarrow> world \<Rightarrow> (reply_body \<times> access_log) \<times> world" where
  "serve g cfg e = requestLogger (dispatch g cfg e)"

subsection \<open>Reading changes nothing\<close>

definition reads :: "world \<Rightarrow> world \<Rightarrow> bool" where
  "reads w w' \<longleftrightarrow> db w' = db w \<and> rds w' = rds w \<and> objs w' = objs w \<and> clock w \<le> clock w'"

interpretation ro: run_relation reads
  by unfold_locales (auto simp: reads_def)

lemma query_reads: "runs_in reads (query q)"
  by (rule runs_inI) (metis query_db reads_def prod.collapse)

lemma scan_rows_reads: "runs_in reads (scan_rows rows)"
  by (rule runs_inI) (simp add: reads_def scan_rows_def next_reply_def split: list.splits prod.splits reply.splits)

lemma by_id_reads: "runs_in reads m \<Longrightarrow> runs_in reads (by_id uuid_ok ident m)"
  by (simp add: by_id_def ro.run_fail)

lemma query_rows_reads: "runs_in reads (query_rows f)"
  unfolding query_rows_def by (intro ro.run_and_then query_reads scan_rows_reads)

lemma depth_reads: "runs_in reads (rd (\<lambda>_ r. (f r, r)))"
  by (rule runs_inI) (simp add: reads_def rd_def next_reply_def split: list.splits prod.splits reply.splits)

lemmas read_calls = ro.run_and_then ro.run_ok ro.run_fail query_reads scan_rows_reads by_id_reads query_rows_reads depth_reads

lemma run_group_reads: "list_all (runs_in reads) gs \<Longrightarrow> reads w (snd (run_group gs s w))"
proof (induction gs arbitrary: s w)
  case (Cons g gs)
  obtain r w' where g: "g w = (r, w')" by fastforce
  with Cons.prems have "reads w w'" by (auto dest: runs_inD)
  with g Cons show ?case by (auto split: sum.splits intro: ro.join)
qed (simp add: ro.stay)

lemma stats_queries_read: "i < 8 \<Longrightarrow> runs_in reads (stats_queries pc ! i)"
  by (auto simp: less_8 stats_queries_def intro!: read_calls)

lemma collectStats_reads:
  assumes "set order \<subseteq> {..<8}"
  shows "runs_in reads (collectStats pc order)"
proof (rule runs_inI)
  show "reads w (snd (collectStats pc order w))" for w
    unfolding collectStats_def using assms
    by (intro run_group_reads) (auto simp: list_all_iff intro!: stats_queries_read)
qed

lemma writeStatsEvent_reads: "set order \<subseteq> {..<8} \<Longrightarrow> runs_in reads (writeStatsEvent pc order marshal write)"
  unfolding writeStatsEvent_def
  by (intro ro.run_and_then collectStats_reads) (auto simp: Let_def split: sum.splits intro: read_calls)

lemma stream_events_read:
  assumes "set order \<subseteq> {..<8}"
  shows "reads w (snd (stream_events pc order marshal write selects w))"
proof (induction selects arbitrary: w)
  case Nil
  from runs_inD [OF writeStatsEvent_reads [OF assms]] show ?case
    by (auto split: prod.splits sum.splits)
next
  case (Cons gone rest)
  obtain r w1 where ev: "writeStatsEvent pc order marshal write w = (r, w1)" by fastforce
  have "reads w w1" using runs_inD [OF writeStatsEvent_reads [OF assms] ev] .
  with ev Cons.IH [of w1] show ?case by (auto split: prod.splits sum.splits intro: ro.join)
qed

text \<open>The read endpoints.\<close>

lemma fetch_reads: "runs_in reads (api_fetchJob uuid_ok J)" "runs_in reads (fetchOutputs uuid_ok arr J)"
  "runs_in reads (fetchJobWithOutputs uuid_ok arr J)"
  unfolding api_fetchJob_def fetchOutputs_def fetchJobWithOutputs_def
  by (auto split: prod.splits option.splits intro!: read_calls)

lemma endpoints_read:
  "reads w (snd (getJob uuid_ok arr J w))" "reads w (snd (getJobOutputs uuid_ok arr J w))"
  "reads w (snd (getWorkers warr w))" "reads w (snd (getInternalJobs jarr lim st w))"
proof -
  note f = runs_inD [OF fetch_reads(1), of uuid_ok J] runs_inD [OF fetch_reads(2), of uuid_ok arr] runs_inD [OF fetch_reads(3), of uuid_ok arr J]
  show "reads w (snd (getJob uuid_ok arr J w))" using f(3) by (auto simp: getJob_def split: prod.splits sum.splits)
  show "reads w (snd (getJobOutputs uuid_ok arr J w))"
    by (auto simp: getJobOutputs_def split: prod.splits sum.splits dest!: f(1,2) intro: ro.join)
  note q = runs_inD [OF query_reads] runs_inD [OF scan_rows_reads]
  show "reads w (snd (getWorkers warr w))" by (auto simp: getWorkers_def split: prod.splits sum.splits dest!: q intro: ro.join)
  show "reads w (snd (getInternalJobs jarr lim st w))"
    by (auto simp: getInternalJobs_def Let_def ro.stay split: prod.splits sum.splits dest!: q intro: ro.join)
qed

lemma stats_endpoints_read:
  assumes "set order \<subseteq> {..<8}"
  shows "reads w (snd (getStats pc order w))" "reads w (snd (metrics pc order iter iter_latency fmt3 w))"
    "reads w (snd (streamStats cfg pc order marshal write flusher selects w))"
proof -
  note c = runs_inD [OF collectStats_reads [OF assms], of pc]
  show "reads w (snd (getStats pc order w))" using c by (auto simp: getStats_def split: prod.splits sum.splits)
  show "reads w (snd (metrics pc order iter iter_latency fmt3 w))" using c by (auto simp: metrics_def split: prod.splits sum.splits)
  show "reads w (snd (streamStats cfg pc order marshal write flusher selects w))"
    using stream_events_read [OF assms] by (simp add: streamStats_def ro.stay del: stream_events.simps split: prod.splits) (metis snd_conv)
qed

lemma stream_handler_world [simp]: "snd (run_handler cfg e StreamStats params req w) = snd (streamStats cfg (percentiles e)
    (goroutines e) (json_Marshal e) (client_write e) (client_flusher e) (client_selects e) w)"
  by (simp split: prod.splits outcome.splits)

lemma handlers_read:
  assumes "set (goroutines e) \<subseteq> {..<8}" and "h \<noteq> Upload"
  shows "reads w (snd (run_handler cfg e h params req w))"
proof (cases "h = StreamStats")
  case True
  then show ?thesis using stats_endpoints_read(3) [OF assms(1)] by (simp only: stream_handler_world)
next
  case False
  with assms show ?thesis by (cases h) (simp_all add: returned_def endpoints_read stats_endpoints_read ro.stay)
qed

lemma reads_steps: "reads w w' \<Longrightarrow> steps w w'"
  by (rule environment_steps) (simp_all add: reads_def)

lemma dispatch_cases:
  obtains (engine) code where "dispatch g cfg e req w = (EngineReply code, w)"
  | (routed) entry h params where "find_route g (map fst routes) (req_method req) (req_path req) = Some (entry, params)"
      and "map_of routes entry = Some h" and "dispatch g cfg e req w = with_recovery (run_handler cfg e h params req w)"
proof (cases "\<exists>code. dispatch g cfg e req w = (EngineReply code, w)")
  case False
  then obtain entry params h where "find_route g (map fst routes) (req_method req) (req_path req) = Some (entry, params)"
    and "map_of routes entry = Some h" and "dispatch g cfg e req w = with_recovery (run_handler cfg e h params req w)"
    by (fastforce simp: dispatch_def split: option.splits)
  then show ?thesis by (rule routed)
qed (use engine in blast)

lemma with_recovery_world [simp]: "snd (with_recovery ow) = snd ow"
  by (simp add: with_recovery_def split: prod.splits outcome.splits)

lemma upload_route: "map_of routes (m, p) = Some Upload \<Longrightarrow> m = ''POST''"
  by (auto simp: routes_def split: if_splits)

text \<open>The status codes of the handlers.\<close>

lemma upload_status: "response_status (fst (upload cfg text_of detect buf J form w)) \<in> {202, 400, 500}"
proof -
  have "response_status r \<in> {400, 500}" if "upload_parts cfg text_of detect buf J evs st w = (Inl r, w1)" for evs st w w1 r
    using that
    by (induction cfg text_of detect buf J evs st w rule: upload_parts.induct)
      (auto simp: store_error_def split: sum.splits prod.splits if_splits)
  then show ?thesis by (fastforce simp: upload_def split: option.splits prod.splits sum.splits)
qed

lemma handler_status:
  "case fst (run_handler cfg e h params req w) of
     Returned r \<Rightarrow> status_of r \<in> {200, 202, 400, 404, 409, 500, 503} | Panicked \<Rightarrow> h = StreamStats \<and> StatsStreamPeriod cfg \<le> 0"
  using upload_status [of cfg "error_text e" "detect_type e" "read_buf e" "new_id e" "req_form req" w]
  by (cases h) (auto simp: returned_def healthz_def metrics_def getJob_def getJobOutputs_def getStats_def getInternalJobs_def Let_def
      getWorkers_def streamStats_def split: prod.splits sum.splits outcome.splits)

lemma step_clock: "step w w' \<Longrightarrow> clock w \<le> clock w'"
  by (induction rule: step.induct) auto

lemma steps_clock: "steps w w' \<Longrightarrow> clock w \<le> clock w'"
  by (induction rule: rtranclp_induct) (auto dest: step_clock)

text \<open>What the engine is documented to do: a match is a registered entry of the request's method.\<close>

definition matches_method :: "engine \<Rightarrow> bool" where
  "matches_method g \<longleftrightarrow> (\<forall>rs m p entry params. find_route g rs m p = Some (entry, params) \<longrightarrow> entry \<in> set rs \<and> fst entry = m)"

lemma handler_runs:
  assumes "set (goroutines e) \<subseteq> {..<8}" and "new_id e \<noteq> ''''"
  shows "steps w (snd (run_handler cfg e h params req w))"
proof (cases "h = Upload")
  case True
  then show ?thesis using upload_runs [OF assms(2)] by (simp add: returned_def)
qed (rule reads_steps [OF handlers_read [OF assms(1)]])

lemma panic_is_recovered:
  assumes "fst (with_recovery (run_handler cfg e h params req w)) = recoveryHandler"
  shows "StatsStreamPeriod cfg \<le> 0 \<and> snd (run_handler cfg e h params req w) = w"
  using assms
  by (cases h) (auto simp: with_recovery_def recoveryHandler_def returned_def streamStats_def split: prod.splits if_splits)

text \<open>
  C29. Requests are contained: whatever the request, the engine's matching and the answers to the calls,
  the state stays reachable, so the invariant of the system holds between requests; a request that is not a
  POST changes neither the database nor the queue nor the object store; what is logged is the
  status of the reply, which for a reply of the handlers is one of seven codes, and a panic,
  possible only for a stream period that is not positive, is answered with 500.
\<close>

theorem requests_are_contained:
  assumes "reachable w" and "new_id e \<noteq> ''''" and "set (goroutines e) \<subseteq> {..<8}" and "matches_method g"
    and "serve g cfg e req w = ((r, entry), w')"
  shows "reachable w' \<and> (req_method req \<noteq> ''POST'' \<longrightarrow> db w' = db w \<and> rds w' = rds w \<and> objs w' = objs w) \<and>
    log_status entry = status_of r \<and> 0 \<le> log_latency entry \<and>
    (status_of r \<in> {200, 202, 400, 404, 409, 500, 503} \<or> (\<exists>code. r = EngineReply code \<and> w' = w)) \<and>
    (r = recoveryHandler \<longrightarrow> StatsStreamPeriod cfg \<le> 0 \<and> status_of r = 500 \<and> w' = w)"
proof -
  have d: "dispatch g cfg e req w = (r, w')" and log: "log_status entry = status_of r" "log_latency entry = clock w' - clock w"
    using assms(5) by (auto simp: serve_def requestLogger_def split: prod.splits)
  show ?thesis
  proof (cases rule: dispatch_cases [of g cfg e req w])
    case (engine code)
    with d log assms(1) show ?thesis by (auto simp: recoveryHandler_def)
  next
    case (routed k h params)
    let ?run = "run_handler cfg e h params req w"
    have w': "w' = snd ?run" and r: "r = fst (with_recovery ?run)" using routed(3) d by (metis with_recovery_world snd_conv, metis fst_conv)
    have run: "steps w w'" unfolding w' by (rule handler_runs [OF assms(3,2)])
    have "h \<noteq> Upload" if "req_method req \<noteq> ''POST''"
    proof -
      have "fst k = req_method req" using routed(1) assms(4) unfolding matches_method_def by blast
      moreover have "k = (fst k, snd k)" by simp
      ultimately show ?thesis using that routed(2) upload_route [of "fst k" "snd k"] by metis
    qed
    then have "req_method req \<noteq> ''POST'' \<longrightarrow> reads w w'" unfolding w' using handlers_read [OF assms(3)] by blast
    moreover have "status_of r \<in> {200, 202, 400, 404, 409, 500, 503}"
      using handler_status [where cfg = cfg and e = e and h = h and params = params and req = req and w = w] unfolding r
      by (auto simp: with_recovery_def recoveryHandler_def split: prod.splits outcome.splits)
    moreover have "r = recoveryHandler \<longrightarrow> StatsStreamPeriod cfg \<le> 0 \<and> status_of r = 500 \<and> w' = w"
      using panic_is_recovered [of cfg e h params req w] r w' by (auto simp: recoveryHandler_def)
    ultimately show ?thesis
      using reachable_steps [OF assms(1) run] steps_clock [OF run] log by (auto simp: reads_def)
  qed
qed

text \<open>An engine that knows literal paths, and an environment in which nothing is reordered.\<close>

definition literal_engine :: engine where
  "literal_engine = \<lparr>find_route = (\<lambda>rs m p. if (m, p) \<in> set rs then Some ((m, p), \<lambda>_. '''') else None),
     cors_abort = (\<lambda>_ _ _ _. None)\<rparr>"

definition plain_env :: request_env where
  "plain_env = \<lparr>error_text = (\<lambda>_. ''''), detect_type = octets, read_buf = (\<lambda>_. 4), new_id = ''j1'', is_uuid = (\<lambda>_. True),
     output_order = (\<lambda>xs. xs), worker_order = (\<lambda>xs. xs), job_order = (\<lambda>xs. xs), percentiles = (\<lambda>_ _. 0), goroutines = [0..<8],
     json_Marshal = (\<lambda>_. Inr ''{}''), client_write = (\<lambda>_. Inr ()), client_flusher = True, client_selects = [],
     count_order = (\<lambda>_. []), latency_order = (\<lambda>xs. xs), float3 = (\<lambda>_. '''')\<rparr>"

theorem requests_are_contained_witness:
  "\<exists>entry. serve literal_engine (api0\<lparr>StatsStreamPeriod := -1\<rparr>) plain_env
      \<lparr>req_method = ''GET'', req_path = ''/internal/stats/stream'', req_query = (\<lambda>_. ''''), req_form = None\<rparr> w_queued =
    ((recoveryHandler, entry), w_queued) \<and> log_status entry = 500"
proof -
  let ?req = "\<lparr>req_method = ''GET'', req_path = ''/internal/stats/stream'', req_query = (\<lambda>_. ''''), req_form = None\<rparr>"
  have m: "matches_method literal_engine" by (auto simp: matches_method_def literal_engine_def split: if_splits)
  have e: "new_id plain_env \<noteq> ''''" "set (goroutines plain_env) \<subseteq> {..<8}" by (auto simp: plain_env_def)
  obtain r entry w' where s: "serve literal_engine (api0\<lparr>StatsStreamPeriod := -1\<rparr>) plain_env ?req w_queued = ((r, entry), w')"
    by (metis prod.exhaust)
  have "r = recoveryHandler"
    using s by (simp add: serve_def requestLogger_def dispatch_def literal_engine_def routes_def streamStats_def with_recovery_def plain_env_def)
  with requests_are_contained [OF w_queued_reachable e m s] s show ?thesis by (auto simp: recoveryHandler_def)
qed

end
