(* ===== verification/Entry_Points.thy ===== *)
theory Entry_Points
  imports Startup_Behaviour Api_Router
begin

text \<open>
  The processes from start to exit. The worker's (\<open>worker/main.go\<close> and the goroutines of \<open>Run\<close> in
  \<open>worker.go\<close>) is a step relation; the other two follow at the end. Two goroutines and a heartbeat take
  steps in any order: \<open>Run\<close> polls, handles jobs and returns when polling is stopped; \<open>main\<close> waits for a
  signal, stops polling, waits for \<open>Run\<close> at most \<open>ShutdownGracePeriod\<close>, then cancels the processing
  context and waits on. A call made with a cancelled context is refused or, if it was under way, cut
  off; both are among the answers \<open>net\<close> allows, so cancelling needs no rule of its own for the job. What
  other processes do between two steps is a run of the system.
\<close>

subsection \<open>State\<close>

text \<open>Where \<open>main\<close> is: in its first \<open>select\<close>, in the second with the timer's deadline, at \<open><-done\<close>, or back; or the
  process has crashed.\<close>

datatype main_at = AwaitSignal | Draining time | AwaitDone | MainReturned | Crashed

text \<open>Where \<open>Run\<close> is: at the top of its loop, with a message, in \<open>sleepOrDone\<close>, or back.\<close>

datatype run_at = LoopTop | Handling queue_message | Sleeping time | RunReturned

record worker_process =
  main_pc :: main_at
  run_pc :: run_at
  stopPolling :: bool
  cancelProcessing :: bool
  heartbeat_on :: bool
  metrics_addr :: "string option"
  host :: machine
  open_conns :: "conn list"

definition now :: "worker_process \<Rightarrow> time" where
  "now p = clock (fst (host p))"

definition set_world :: "world \<Rightarrow> worker_process \<Rightarrow> worker_process" where
  "set_world w p = p\<lparr>host := (w, snd (host p))\<rparr>"

subsection \<open>Start and exit\<close>

text \<open>
  The beginning of \<open>main\<close>: the exit code, or the process once the goroutines are started. \<open>os.Exit\<close> runs no
  deferred call, but a failed \<open>New\<close> holds no connection. A metrics server that cannot listen is only logged.
\<close>

definition worker_main :: "drivers \<Rightarrow> environ \<Rightarrow> uuid \<Rightarrow> files \<Rightarrow> world \<Rightarrow> (int + service \<times> worker_process) \<times> process" where
  "worker_main drv getenv newID f w =
     (case worker_New drv (worker_LoadConfig getenv) newID (w, []) of
        (Inl e, s) \<Rightarrow> (Inl 1, s)
      | (Inr app, s) \<Rightarrow>
          (Inr (app, \<lparr>main_pc = AwaitSignal, run_pc = LoopTop, stopPolling = False, cancelProcessing = False, heartbeat_on = True,
             metrics_addr = Some (env getenv ''WORKER_METRICS_ADDR'' '':9090''), host = (fst s, f), open_conns = snd s\<rparr>), s))"

text \<open>The deferred calls of \<open>main\<close>: the metrics server is shut down, the service closed, the context cancelled.\<close>

definition main_return :: "service \<Rightarrow> worker_process \<Rightarrow> worker_process" where
  "main_return app p =
     p\<lparr>main_pc := MainReturned, metrics_addr := None, open_conns := snd (Close app (fst (host p), open_conns p)), cancelProcessing := True\<rparr>"

subsection \<open>Steps\<close>

inductive own_step :: "worker_config \<Rightarrow> (go_error \<Rightarrow> string) \<Rightarrow> service \<Rightarrow> worker_process \<Rightarrow> worker_process \<Rightarrow> bool"
  for cfg :: worker_config and text_of :: "go_error \<Rightarrow> string" and app :: service where
  run_stops: "run_pc p = LoopTop \<Longrightarrow> stopPolling p \<Longrightarrow>
    own_step cfg text_of app p (p\<lparr>run_pc := RunReturned, heartbeat_on := False\<rparr>)"
| run_gets: "run_pc p = LoopTop \<Longrightarrow> \<not> stopPolling p \<Longrightarrow> poll (fst (host p)) = (Inr (Some msg), w') \<Longrightarrow>
    own_step cfg text_of app p (set_world w' (p\<lparr>run_pc := Handling msg\<rparr>))"
| run_idles: "run_pc p = LoopTop \<Longrightarrow> \<not> stopPolling p \<Longrightarrow> poll (fst (host p)) = (r, w') \<Longrightarrow> \<forall>msg. r \<noteq> Inr (Some msg) \<Longrightarrow>
    own_step cfg text_of app p (set_world w' (p\<lparr>run_pc := Sleeping (clock w' + PollBackoff cfg)\<rparr>))"
| run_wakes: "run_pc p = Sleeping t \<Longrightarrow> stopPolling p \<or> t \<le> now p \<Longrightarrow>
    own_step cfg text_of app p (p\<lparr>run_pc := LoopTop\<rparr>)"
| run_handles: "run_pc p = Handling msg \<Longrightarrow> attemptID \<noteq> '''' \<Longrightarrow>
    own_step cfg text_of app p (p\<lparr>run_pc := LoopTop, host := snd (processJob cfg (svc_id app) text_of e attemptID msg (host p))\<rparr>)"
| main_sees_done: "main_pc p = AwaitSignal \<Longrightarrow> run_pc p = RunReturned \<Longrightarrow> own_step cfg text_of app p (main_return app p)"
| main_drained: "main_pc p = Draining t \<Longrightarrow> run_pc p = RunReturned \<Longrightarrow> own_step cfg text_of app p (main_return app p)"
| main_times_out: "main_pc p = Draining t \<Longrightarrow> t \<le> now p \<Longrightarrow>
    own_step cfg text_of app p (p\<lparr>main_pc := AwaitDone, cancelProcessing := True, heartbeat_on := False\<rparr>)"
| main_finishes: "main_pc p = AwaitDone \<Longrightarrow> run_pc p = RunReturned \<Longrightarrow> own_step cfg text_of app p (main_return app p)"

text \<open>
  What comes from outside: the signal, a tick of the heartbeat, other processes and the passing of time.
  The heartbeat's \<open>time.NewTicker\<close> panics on an interval that is not positive, and a panic in a goroutine
  ends the process.
\<close>

inductive outside_step :: "worker_config \<Rightarrow> service \<Rightarrow> worker_process \<Rightarrow> worker_process \<Rightarrow> bool"
  for cfg :: worker_config and app :: service where
  signal: "main_pc p = AwaitSignal \<Longrightarrow>
    outside_step cfg app p (p\<lparr>main_pc := Draining (now p + ShutdownGracePeriod cfg), stopPolling := True\<rparr>)"
| beat: "heartbeat_on p \<Longrightarrow>
    outside_step cfg app p (set_world (snd (log_err (pg (heartbeat (svc_id app))) (fst (host p)))) p)"
| ticker_panics: "heartbeat_on p \<Longrightarrow> HeartbeatInterval cfg \<le> 0 \<Longrightarrow> outside_step cfg app p (p\<lparr>main_pc := Crashed\<rparr>)"
| others: "steps (fst (host p)) w' \<Longrightarrow> outside_step cfg app p (set_world w' p)"

definition process_step :: "worker_config \<Rightarrow> (go_error \<Rightarrow> string) \<Rightarrow> service \<Rightarrow> worker_process \<Rightarrow> worker_process \<Rightarrow> bool" where
  "process_step cfg text_of app p p' \<longleftrightarrow>
     main_pc p \<noteq> Crashed \<and> (own_step cfg text_of app p p' \<or> outside_step cfg app p p')"

subsection \<open>Starting is a run of the system\<close>

definition psteps :: "process \<Rightarrow> process \<Rightarrow> bool" where
  "psteps s s' \<longleftrightarrow> steps (fst s) (fst s')"

interpretation proc: run_relation psteps
  by unfold_locales (auto simp: psteps_def)

lemma conn_world [simp]: "fst (close_conn c s) = fst s" "fst (open_conn c s) = fst s" "fst (Close app s) = fst s"
  by (simp_all add: close_conn_def open_conn_def Close_def close_opt_def split: option.splits)

lemma ping_runs: "runs_in psteps ping"
proof (rule runs_inI)
  fix s
  have "fst (snd (ping s)) = snd (next_reply (fst s))"
    by (simp add: ping_def split: prod.splits reply.splits)
  then show "psteps s (snd (ping s))" by (simp add: psteps_def next_reply_steps)
qed

lemma from_result_runs: "runs_in psteps (from_result r)"
  by (simp add: runs_in_def from_result_def psteps_def)

lemma ping_opened: "psteps s s'" if "ping (open_conn c s) = (r, s')"
  using runs_inD [OF ping_runs that] by (simp add: psteps_def)

lemma NewPool_runs: "runs_in psteps (NewPool drv url)"
proof -
  have "runs_in psteps (\<lambda>s. case ping (open_conn PgPool s) of
      (Inl e, s') \<Rightarrow> (Inl (Wrapped ''ping postgres'' e), close_conn PgPool s') | (Inr _, s') \<Rightarrow> (Inr PgPool, s'))"
    by (rule runs_inI) (auto simp: psteps_def split: prod.splits sum.splits dest!: ping_opened)
  then show ?thesis
    unfolding NewPool_def by (auto intro!: proc.run_fail proc.run_and_then runs_in_wrap from_result_runs)
qed

lemma redis_NewClient_runs: "runs_in psteps (redis_NewClient drv url)"
proof -
  have "runs_in psteps (\<lambda>s. case ping (open_conn RedisConn s) of
      (Inl e, s') \<Rightarrow> (Inl (Wrapped ''ping redis'' e), close_conn RedisConn s') | (Inr _, s') \<Rightarrow> (Inr RedisConn, s'))"
    by (rule runs_inI) (auto simp: psteps_def split: prod.splits sum.splits dest!: ping_opened)
  then show ?thesis
    unfolding redis_NewClient_def by (auto intro!: proc.run_fail proc.run_and_then runs_in_wrap from_result_runs)
qed

lemma storage_NewClient_runs: "runs_in psteps (storage_NewClient drv config)"
  unfolding storage_NewClient_def
  by (auto intro!: proc.run_fail proc.run_ok proc.run_and_then runs_in_wrap from_result_runs ping_runs)

lemma register_on_process: "runs_in psteps (on_process (pg (register W)))"
proof (rule runs_inI)
  fix s :: process
  have "steps (fst s) (snd (pg (register W) (fst s)))" using register_runs by (simp add: runs_in_def)
  then show "psteps s (snd (on_process (pg (register W)) s))" by (simp add: on_process_def psteps_def split: prod.splits) (metis snd_conv)
qed

lemmas client_runs = runs_inD [OF redis_NewClient_runs] runs_inD [OF storage_NewClient_runs] runs_inD [OF register_on_process]

lemma psteps_close: "psteps s (close_conn c s') \<longleftrightarrow> psteps s s'" "psteps s (Close app s') \<longleftrightarrow> psteps s s'"
  by (simp_all add: psteps_def)

lemma New_runs:
  "runs_in psteps (server_New drv acfg)" "runs_in psteps (worker_New drv wcfg newID)" "runs_in psteps (reaper_New drv rcfg newID)"
proof -
  show "runs_in psteps (server_New drv acfg)"
    unfolding server_New_def
    by (intro proc.run_and_then NewPool_runs runs_inI)
       (auto simp: psteps_close split: prod.splits sum.splits dest!: client_runs intro: proc.join)
  show "runs_in psteps (worker_New drv wcfg newID)"
    unfolding worker_New_def
    by (intro proc.run_and_then NewPool_runs runs_inI)
       (auto simp: psteps_close Let_def split: prod.splits sum.splits dest!: client_runs intro: proc.join)
  have "runs_in psteps (\<lambda>s. case redis_NewClient drv (rRedisURL rcfg) s of (Inl e, s1) \<Rightarrow> (Inl e, close_conn c s1)
      | (Inr rconn, s1) \<Rightarrow> (Inr \<lparr>svc_id = newID, svc_db = Some c, svc_redis = Some rconn\<rparr>, s1))" for c
    by (rule runs_inI) (auto simp: psteps_close split: prod.splits sum.splits dest!: client_runs)
  then show "runs_in psteps (reaper_New drv rcfg newID)"
    unfolding reaper_New_def by (auto intro!: proc.run_fail proc.run_and_then NewPool_runs)
qed

subsection \<open>The invariant of the process\<close>

definition process_ok :: "worker_config \<Rightarrow> service \<Rightarrow> worker_process \<Rightarrow> bool" where
  "process_ok cfg app p \<longleftrightarrow>
     0 < HeartbeatInterval cfg \<and> main_pc p \<noteq> Crashed \<and>
     reachable (fst (host p)) \<and>
     (stopPolling p \<longleftrightarrow> main_pc p \<noteq> AwaitSignal) \<and>
     (run_pc p = RunReturned \<longrightarrow> stopPolling p \<and> \<not> heartbeat_on p) \<and>
     (cancelProcessing p \<longrightarrow> main_pc p = AwaitDone \<or> main_pc p = MainReturned) \<and>
     (main_pc p = MainReturned \<longrightarrow> run_pc p = RunReturned \<and> metrics_addr p = None \<and> open_conns p = []) \<and>
     (main_pc p \<noteq> MainReturned \<longrightarrow> (\<forall>w. snd (Close app (w, open_conns p)) = []))"

lemma Close_conns: "snd (Close app (w, cs)) = snd (Close app (w', cs))"
  by (simp add: Close_def close_opt_def close_conn_def split: option.splits)

lemma started_ok:
  assumes "worker_main drv getenv newID f w = (Inr (app, p), s)" and "cfg = worker_LoadConfig getenv"
    and "0 < HeartbeatInterval cfg" and "reachable w"
  shows "process_ok cfg app p \<and> main_pc p = AwaitSignal"
proof -
  from assms(1) have new: "worker_New drv cfg newID (w, []) = (Inr app, s)"
    and p: "p = \<lparr>main_pc = AwaitSignal, run_pc = LoopTop, stopPolling = False, cancelProcessing = False, heartbeat_on = True,
       metrics_addr = Some (env getenv ''WORKER_METRICS_ADDR'' '':9090''), host = (fst s, f), open_conns = snd s\<rparr>"
    by (auto simp: assms(2) worker_main_def split: prod.splits sum.splits)
  have "steps w (fst s)" using runs_inD [OF New_runs(2) new] by (simp add: psteps_def)
  then have "reachable (fst s)" by (rule reachable_steps [OF assms(4)])
  moreover have "snd (Close app s) = []" using worker_start_clean [of drv cfg newID "(w, [])"] by (simp add: start_clean_def new)
  then have "snd (Close app (v, snd s)) = []" for v using Close_conns [of app v "snd s" "fst s"] by simp
  ultimately show ?thesis using p assms(3) by (simp add: process_ok_def)
qed

lemma set_world_fields [simp]:
  "main_pc (set_world w p) = main_pc p" "run_pc (set_world w p) = run_pc p" "stopPolling (set_world w p) = stopPolling p"
  "cancelProcessing (set_world w p) = cancelProcessing p" "heartbeat_on (set_world w p) = heartbeat_on p"
  "metrics_addr (set_world w p) = metrics_addr p" "open_conns (set_world w p) = open_conns p" "host (set_world w p) = (w, snd (host p))"
  by (simp_all add: set_world_def)

lemma own_step_world: "own_step cfg text_of app p p' \<Longrightarrow> steps (fst (host p)) (fst (host p'))"
proof (induction rule: own_step.induct)
  case (run_gets p msg w')
  with runs_inD [OF poll_runs] show ?case by simp
next
  case (run_idles p r w')
  with runs_inD [OF poll_runs] show ?case by simp
next
  case (run_handles p msg attemptID e)
  with runs_stepD [OF processJob_runs [OF run_handles(2)]] show ?case by (simp add: msteps_def)
qed (simp_all add: main_return_def)

lemma outside_step_world: "outside_step cfg app p p' \<Longrightarrow> steps (fst (host p)) (fst (host p'))"
proof (induction rule: outside_step.induct)
  case (beat p)
  then show ?case using heartbeat_runs [THEN runs_in_log] by (simp add: runs_in_def)
qed simp_all

lemma process_step_world: "process_step cfg text_of app p p' \<Longrightarrow> steps (fst (host p)) (fst (host p'))"
  by (auto simp: process_step_def dest: own_step_world outside_step_world)

lemma process_step_ok:
  assumes "process_step cfg text_of app p p'" and "process_ok cfg app p"
  shows "process_ok cfg app p'"
proof -
  have r: "reachable (fst (host p'))"
    using process_step_world [OF assms(1)] assms(2) by (auto simp: process_ok_def intro: reachable_steps)
  from assms(1) consider "own_step cfg text_of app p p'" | "outside_step cfg app p p'" by (auto simp: process_step_def)
  then show ?thesis
  proof cases
    case 1
    then show ?thesis using assms(2) r by cases (auto simp: process_ok_def main_return_def)
  next
    case 2
    then show ?thesis using assms(2) r by cases (auto simp: process_ok_def)
  qed
qed

interpretation wp: guarded_steps "process_step cfg text_of app" "process_ok cfg app" for cfg text_of app
  by unfold_locales (rule process_step_ok)

subsection \<open>Shutdown\<close>

fun run_rank :: "run_at \<Rightarrow> nat" where
  "run_rank RunReturned = 0"
| "run_rank LoopTop = 1"
| "run_rank (Sleeping _) = 2"
| "run_rank (Handling _) = 2"

fun main_rank :: "main_at \<Rightarrow> nat" where
  "main_rank MainReturned = 0"
| "main_rank Crashed = 0"
| "main_rank AwaitDone = 1"
| "main_rank (Draining _) = 2"
| "main_rank AwaitSignal = 3"

definition shutdown_rank :: "worker_process \<Rightarrow> nat" where
  "shutdown_rank p = run_rank (run_pc p) + main_rank (main_pc p)"

lemma own_step_rank:
  assumes "own_step cfg text_of app p p'" and "process_ok cfg app p" and "stopPolling p"
  shows "shutdown_rank p' < shutdown_rank p"
  using assms by cases (auto simp: shutdown_rank_def main_return_def)

lemma outside_step_rank:
  assumes "outside_step cfg app p p'" and "process_ok cfg app p" and "stopPolling p"
  shows "shutdown_rank p' = shutdown_rank p"
  using assms by cases (auto simp: shutdown_rank_def process_ok_def)

lemma own_step_enabled:
  assumes "process_ok cfg app p" and "stopPolling p" and "main_pc p \<noteq> MainReturned"
  shows "\<exists>p'. own_step cfg text_of app p p'"
proof (cases "run_pc p")
  case LoopTop
  then show ?thesis using run_stops assms(2) by blast
next
  case (Handling msg)
  then show ?thesis using run_handles [of p msg "''a''"] by blast
next
  case (Sleeping t)
  then show ?thesis using run_wakes assms(2) by blast
next
  case RunReturned
  then have "own_step cfg text_of app p (main_return app p)"
    using assms by (cases "main_pc p") (auto simp: process_ok_def intro: main_drained main_finishes)
  then show ?thesis by blast
qed

text \<open>From a draining state the processing context is cancelled only after the deadline, or on return.\<close>

definition within_grace :: "time \<Rightarrow> worker_process \<Rightarrow> bool" where
  "within_grace t p \<longleftrightarrow> main_pc p = Draining t \<and> \<not> cancelProcessing p \<or> main_pc p = AwaitDone \<and> t \<le> now p \<or> main_pc p = MainReturned"

lemma within_grace_step:
  assumes "process_step cfg text_of app p p'" and "process_ok cfg app p" and "within_grace t p"
  shows "within_grace t p'"
proof -
  have clk: "now p \<le> now p'" using process_step_world [OF assms(1)] by (simp add: now_def steps_clock)
  from assms(1) consider "own_step cfg text_of app p p'" | "outside_step cfg app p p'" by (auto simp: process_step_def)
  then show ?thesis
  proof cases
    case 1
    then show ?thesis using assms(2,3) clk by cases (auto simp: within_grace_def main_return_def now_def process_ok_def)
  next
    case 2
    then show ?thesis using assms(2,3) clk by cases (auto simp: within_grace_def now_def process_ok_def)
  qed
qed

text \<open>Once polling is stopped, no further message is taken.\<close>

lemma no_new_message_step:
  assumes "process_step cfg text_of app p p'" and "process_ok cfg app p" and "stopPolling p"
  shows "stopPolling p' \<and> shutdown_rank p' \<le> shutdown_rank p \<and> (run_pc p' = Handling msg \<longrightarrow> run_pc p = Handling msg)"
proof -
  from assms(1) consider "own_step cfg text_of app p p'" | "outside_step cfg app p p'" by (auto simp: process_step_def)
  then show ?thesis
  proof cases
    case 1
    then have "stopPolling p' \<and> (run_pc p' = Handling msg \<longrightarrow> run_pc p = Handling msg)"
      using assms(3) by cases (auto simp: main_return_def)
    with own_step_rank [OF 1 assms(2,3)] show ?thesis by simp
  next
    case 2
    then have "stopPolling p' \<and> (run_pc p' = Handling msg \<longrightarrow> run_pc p = Handling msg)"
      using assms(3) by cases auto
    with outside_step_rank [OF 2 assms(2,3)] show ?thesis by simp
  qed
qed


text \<open>Drivers that accept everything, and a worker that is started and told to stop.\<close>

definition open_drivers :: drivers where
  "open_drivers = \<lparr>pgx_ParseConfig = (\<lambda>_. Inr ()), pgx_NewWithConfig = (\<lambda>_. Inr ()), redis_ParseURL = (\<lambda>_. Inr ()),
     minio_New = (\<lambda>_ _. Inr ()), bucket_exists = (\<lambda>_. True), url_lib = plain_url\<rparr>"

definition worker_env :: environ where
  "worker_env = (\<lambda>_. '''')(''DATABASE_URL'' := ''pg'', ''REDIS_URL'' := ''rd'', ''STORAGE_ENDPOINT'' := ''minio'', ''STORAGE_BUCKET'' := ''b'')"

abbreviation "worker_cfg \<equiv> worker_LoadConfig worker_env"

lemma worker_cfg_fields [simp]:
  "wDatabaseURL worker_cfg = ''pg''" "wRedisURL worker_cfg = ''rd''" "wStorageEndpoint worker_cfg = ''minio''"
  "wStorageBucket worker_cfg = ''b''" "wStorageAccessKey worker_cfg = ''''" "wStorageSecretKey worker_cfg = ''''"
  "0 < HeartbeatInterval worker_cfg"
  by (simp_all add: worker_LoadConfig_def worker_env_def envSeconds_def Atoi_def Second_def)

lemma minio_endpoint: "normalizeEndpoint plain_url ''minio'' False = Inr (''minio'', False)"
proof -
  have "plain_host plain_url ''minio''" by (simp add: plain_host_def plain_url_def host_char_def is_letter_def is_digit_def)
  from url_Parse_bare [OF this] have "url_Parse plain_url ''minio'' = Inr ('''', '''')" by simp
  moreover have "trim_space ''minio'' = ''minio''" using trim_space_padded [of "[]" "[]" "''minio''"] by (simp add: visible_def)
  ultimately show ?thesis by (simp add: normalizeEndpoint_def)
qed

lemma sample_start:
  "\<exists>app p. fst (worker_main open_drivers worker_env ''w1'' f empty_world) = Inr (app, p) \<and> main_pc p = AwaitSignal \<and> run_pc p = LoopTop"
proof -
  have n: "net empty_world = []" by (simp add: empty_world_def)
  show ?thesis
    by (simp add: worker_main_def worker_New_def NewPool_def redis_NewClient_def storage_NewClient_def check_keys_def ping_def n
        open_drivers_def minio_endpoint and_then_def wrap_err_def from_result_def open_conn_def ok_def on_process_def Let_def
        pg_answered register_def split: if_splits)
qed


subsection \<open>The other services\<close>

text \<open>
  \<open>main\<close> of the reaper (\<open>reaper/main.go\<close>): the loop until the signal cancels its context, then the deferred
  calls; \<open>pauses\<close> as in \<open>reaper_Run\<close>. The result is the exit code and what the process leaves.
\<close>

definition reaper_main :: "drivers \<Rightarrow> environ \<Rightarrow> uuid \<Rightarrow> nat list \<Rightarrow> world \<Rightarrow> int \<times> process" where
  "reaper_main drv getenv newID pauses w =
     (let config = reaper_LoadConfig getenv in
      case reaper_New drv config newID (w, []) of
        (Inl e, s) \<Rightarrow> (1, s)
      | (Inr app, (w1, cs)) \<Rightarrow> (0, Close app (reaper_Run config (svc_id app) pauses w1, cs)))"

text \<open>
  \<open>main\<close> of the API server (\<open>api/main.go\<close>): the requests that are served until the signal. When
  \<open>ListenAndServe\<close> fails, its goroutine ends the process with \<open>os.Exit\<close>, which runs no deferred call; the
  operating system then closes what is open.
\<close>

fun serve_all :: "engine \<Rightarrow> api_config \<Rightarrow> (request_env \<times> request) list \<Rightarrow> world \<Rightarrow> world" where
  "serve_all g cfg [] w = w"
| "serve_all g cfg ((e, req) # reqs) w = serve_all g cfg reqs (snd (serve g cfg e req w))"

definition api_main :: "drivers \<Rightarrow> environ \<Rightarrow> engine \<Rightarrow> (request_env \<times> request) list \<Rightarrow> bool \<Rightarrow> world \<Rightarrow> int \<times> process" where
  "api_main drv getenv g reqs listen_fails w =
     (let config = api_LoadConfig getenv in
      case server_New drv config (w, []) of
        (Inl e, s) \<Rightarrow> (1, s)
      | (Inr app, (w1, cs)) \<Rightarrow>
          (let w2 = serve_all g config reqs w1 in if listen_fails then (1, (w2, cs)) else (0, Close app (w2, cs))))"

lemma serve_runs:
  assumes "new_id e \<noteq> ''''" and "set (goroutines e) \<subseteq> {..<8}"
  shows "steps w (snd (serve g cfg e req w))"
proof -
  have "snd (serve g cfg e req w) = snd (dispatch g cfg e req w)" by (simp add: serve_def requestLogger_def split: prod.splits)
  then show ?thesis
    by (cases rule: dispatch_cases [of g cfg e req w]) (auto intro: handler_runs [OF assms(2,1)])
qed

lemma serve_all_runs:
  "list_all (\<lambda>(e, req). new_id e \<noteq> '''' \<and> set (goroutines e) \<subseteq> {..<8}) reqs \<Longrightarrow> steps w (serve_all g cfg reqs w)"
proof (induction reqs arbitrary: w)
  case (Cons x reqs)
  obtain e req where x: "x = (e, req)" by fastforce
  with Cons.prems have "steps w (snd (serve g cfg e req w))" by (intro serve_runs) auto
  moreover have "steps (snd (serve g cfg e req w)) (serve_all g cfg reqs (snd (serve g cfg e req w)))" using Cons by simp
  ultimately show ?case unfolding x serve_all.simps by (rule rtranclp_trans)
qed simp

text \<open>
  A service that exits with 0 has closed its connections; one that fails to start has none open; in
  every case its life was a run of the system.
\<close>

lemma service_exits_clean:
  assumes "start_clean m (w, [])" and "runs_in psteps m" and "\<And>v. steps v (life v)"
    and "(code, s) = (case m (w, []) of (Inl e, s) \<Rightarrow> (1 :: int, s) | (Inr app, (w1, cs)) \<Rightarrow> (0, Close app (life w1, cs)))"
  shows "snd s = [] \<and> steps w (fst s)"
proof -
  obtain r s1 where m: "m (w, []) = (r, s1)" by (rule prod.exhaust)
  have "steps w (fst s1)" using runs_inD [OF assms(2) m] by (simp add: psteps_def)
  moreover have "steps (fst s1) (life (fst s1))" by (rule assms(3))
  moreover have "snd (Close app (life (fst s1), snd s1)) = snd (Close app (fst s1, snd s1))" for app by (rule Close_conns)
  ultimately show ?thesis
    using assms(1,4) m by (cases r; cases s1) (auto simp: start_clean_def)
qed

lemma reaper_exits_clean:
  assumes "reaper_main drv getenv newID pauses w = (code, s)"
  shows "snd s = [] \<and> steps w (fst s)"
proof -
  have id: "svc_id app = newID" if "reaper_New drv (reaper_LoadConfig getenv) newID x = (Inr app, y)" for x app y
    using that by (auto simp: reaper_New_def and_then_def fail_with_def split: if_splits prod.splits sum.splits)
  show ?thesis
    by (rule service_exits_clean [where code = code and s = s and m = "reaper_New drv (reaper_LoadConfig getenv) newID" and life = "reaper_Run (reaper_LoadConfig getenv) newID pauses", OF reaper_start_clean New_runs(3)])
       (use assms id in \<open>auto simp: Let_def reaper_main_def reaper_Run_runs split: prod.splits sum.splits\<close>)
qed

lemma api_exits_clean:
  assumes "api_main drv getenv g reqs False w = (code, s)"
    and "list_all (\<lambda>(e, req). new_id e \<noteq> '''' \<and> set (goroutines e) \<subseteq> {..<8}) reqs"
  shows "snd s = [] \<and> steps w (fst s)"
  by (rule service_exits_clean [where code = code and s = s and m = "server_New drv (api_LoadConfig getenv)" and life = "serve_all g (api_LoadConfig getenv) reqs", OF server_start_clean New_runs(1)])
     (use assms serve_all_runs [OF assms(2)] in \<open>auto simp: Let_def api_main_def split: prod.splits sum.splits\<close>)

end
