(* ===== verification/Queue_Order.thy ===== *)
theory Queue_Order
  imports Queue_Client "HOL-Library.Multiset"
begin

text \<open>
  What the queue guarantees as a whole: jobs submitted in any order are delivered as the stable
  sort of the submissions by descending priority.
\<close>

definition enqueue_all :: "(int \<times> string) list \<Rightarrow> redis \<Rightarrow> redis" where
  "enqueue_all xs r = fold (\<lambda>(p, j) r. snd (run_enqueue j p r)) xs r"

fun drain :: "nat \<Rightarrow> redis \<Rightarrow> string list" where
  "drain 0 r = []"
| "drain (Suc n) r = (case run_pop r of (j, r') \<Rightarrow> if j = '''' then [] else j # drain n r')"

definition admissible_job :: "int \<times> string \<Rightarrow> bool" where
  "admissible_job x \<longleftrightarrow> valid_priority (fst x) \<and> snd x \<noteq> ''''"

lemma drain_contents: "queue_ok r \<Longrightarrow> drain n r = map snd (take n (contents r))"
proof (induction n arbitrary: r)
  case (Suc n)
  obtain j r' where pop: "run_pop r = (j, r')" by fastforce
  show ?case
  proof (cases "contents r")
    case Nil
    with Suc.prems show ?thesis by (simp add: run_pop_empty)
  next
    case (Cons x xs)
    obtain p k where x: "x = (p, k)" by fastforce
    note first = run_pop_first [OF Suc.prems Cons [unfolded x]]
    have "k \<noteq> ''''" using rq.items_proper [OF Suc.prems] Cons x by auto
    with first pop Suc.IH [of r'] Cons x show ?thesis by simp
  qed
qed simp

lemma enqueue_all_contents:
  assumes "queue_ok r" and "list_all admissible_job xs" and "distinct (map snd xs)"
    and "\<forall>x \<in> set xs. \<not> queue_member (snd x) r"
  shows "queue_ok (enqueue_all xs r) \<and> contents (enqueue_all xs r) = fold insert_stable xs (contents r)"
  using assms
proof (induction xs arbitrary: r)
  case Nil
  then show ?case by (simp add: enqueue_all_def)
next
  case (Cons x xs)
  obtain p j where x: "x = (p, j)" by fastforce
  let ?r = "snd (run_enqueue j p r)"
  from Cons.prems x have p: "valid_priority p" "j \<noteq> ''''" "\<not> queue_member j r" by (simp_all add: admissible_job_def)
  have "queue_ok ?r" and c: "contents ?r = insert_stable (p, j) (contents r)"
    using rq.enq_invar [OF Cons.prems(1) p(1,2)] rq.enq_items [OF Cons.prems(1) p(1,2)] p(3) by simp_all
  moreover have "\<forall>y \<in> set xs. \<not> queue_member (snd y) ?r"
    using Cons.prems x by (auto simp: run_enqueue_member_after)
  ultimately have "queue_ok (enqueue_all xs ?r) \<and> contents (enqueue_all xs ?r) = fold insert_stable xs (contents ?r)"
    using Cons.IH [of ?r] Cons.prems by simp
  with c x show ?case by (simp add: enqueue_all_def)
qed

lemma mset_insert_stable: "mset (insert_stable x ys) = add_mset x (mset ys)"
  by (induction ys) auto

lemma fold_insert_stable:
  assumes "delivery_order ys"
  shows "delivery_order (fold insert_stable xs ys)" and "mset (fold insert_stable xs ys) = mset xs + mset ys"
    and "filter (\<lambda>y. fst y = p) (fold insert_stable xs ys) = filter (\<lambda>y. fst y = p) ys @ filter (\<lambda>y. fst y = p) xs"
  using assms
  by (induction xs arbitrary: ys) (simp_all add: delivery_order_insert mset_insert_stable filter_insert_stable)

lemma fold_insert_stable_sort: "fold insert_stable xs [] = sort_key (\<lambda>x. - fst x) xs"
proof (rule properties_for_sort_key [symmetric])
  note f = fold_insert_stable [of "[]"]
  have d: "delivery_order ([] :: (int \<times> string) list)" by (simp add: delivery_order_def)
  show "mset (fold insert_stable xs []) = mset xs" using f(2) [OF d] by simp
  show "filter (\<lambda>x. - fst k = - fst x) (fold insert_stable xs []) = filter (\<lambda>x. - fst k = - fst x) xs" for k
    using f(3) [OF d, of "fst k" xs] by (simp add: eq_commute [of "fst k"])
  show "sorted (map (\<lambda>x. - fst x) (fold insert_stable xs []))"
    using f(1) [OF d, of xs] by (simp add: delivery_order_def sorted_wrt_map)
qed

text \<open>
  C8. The queue scripts schedule by priority and then by arrival: distinct jobs enqueued in any
  order into an empty queue are popped in the order of the stable sort by descending priority.
\<close>

theorem queue_is_stable_priority_sort:
  assumes "list_all admissible_job xs" and "distinct (map snd xs)"
  shows "drain (length xs) (enqueue_all xs empty_redis) = map snd (sort_key (\<lambda>x. - fst x) xs)"
proof -
  have "contents empty_redis = []"
    by (simp add: contents_def tier_def [abs_def] empty_redis_def flat_empty)
  moreover have "\<forall>x \<in> set xs. \<not> queue_member (snd x) empty_redis"
    by (simp add: queue_member_def SISMEMBER_def empty_redis_def)
  ultimately have "queue_ok (enqueue_all xs empty_redis)" "contents (enqueue_all xs empty_redis) = sort_key (\<lambda>x. - fst x) xs"
    using enqueue_all_contents [OF queue_ok_empty assms] by (simp_all add: fold_insert_stable_sort)
  then show ?thesis by (simp add: drain_contents)
qed

theorem queue_is_stable_priority_sort_witness:
  "drain 3 (enqueue_all [(0, ''a''), (7, ''b''), (7, ''c'')] empty_redis) = [''b'', ''c'', ''a'']"
  using queue_is_stable_priority_sort [of "[(0, ''a''), (7, ''b''), (7, ''c'')]"]
  by (simp add: admissible_job_def valid_priority_def MinPriority_def MaxPriority_def numeral_3_eq_3 del: drain.simps)

text \<open>
  C9. \<open>Enqueue\<close> with its call answered inserts the job behind every job of the same or a higher
  priority, once: repeating it, with any priority, changes nothing. It keeps the queue's
  invariant.
\<close>

theorem enqueue_inserts_once:
  assumes "queue_ok (rds w)" and "valid_priority p" and "valid_priority p'" and "j \<noteq> ''''" and "net w = []"
  shows "\<exists>w'. Enqueue j p w = (Inr (), w') \<and> queue_ok (rds w') \<and>
    contents (rds w') = (if queue_member j (rds w) then contents (rds w) else insert_stable (p, j) (contents (rds w))) \<and>
    Enqueue j p' w' = (Inr (), w')"
proof -
  let ?w = "w\<lparr>rds := snd (run_enqueue j p (rds w))\<rparr>"
  have "Enqueue j p w = (Inr (), ?w)" using assms by (simp add: Enqueue_answered)
  moreover have "queue_ok (rds ?w)" "contents (rds ?w) =
      (if queue_member j (rds w) then contents (rds w) else insert_stable (p, j) (contents (rds w)))"
    using rq.enq_invar [OF assms(1,2,4)] rq.enq_items [OF assms(1,2,4)] by simp_all
  moreover have "Enqueue j p' ?w = (Inr (), ?w)"
    using assms by (simp add: Enqueue_answered run_enqueue_member run_enqueue_member_after)
  ultimately show ?thesis by blast
qed

theorem enqueue_inserts_once_witness:
  "\<exists>w'. Enqueue ''j1'' 5 empty_world = (Inr (), w') \<and> contents (rds w') = [(5, ''j1'')]"
proof -
  have q: "queue_ok (rds empty_world)" "net empty_world = []" "contents (rds empty_world) = []"
    using queue_ok_empty by (simp_all add: empty_world_def contents_def tier_def [abs_def] empty_redis_def flat_empty)
  have v: "valid_priority 5" by (simp add: valid_priority_def MinPriority_def MaxPriority_def)
  have "\<not> queue_member ''j1'' (rds empty_world)"
    by (simp add: queue_member_def SISMEMBER_def empty_world_def empty_redis_def)
  with enqueue_inserts_once [OF q(1) v v, of "''j1''"] q(2,3) show ?thesis by auto
qed

text \<open>
  C10. \<open>Pop\<close> with its call answered returns the job at the front of the queue, which has the
  highest priority, and removes it; on an empty queue it returns \<open>redis.Nil\<close> and changes
  nothing.
\<close>

theorem pop_takes_highest:
  assumes "queue_ok (rds w)" and "net w = []"
  shows "case contents (rds w) of
      [] \<Rightarrow> Pop w = (Inl RedisNil, w)
    | (p, j) # xs \<Rightarrow> (\<exists>w'. Pop w = (Inr j, w') \<and> contents (rds w') = xs \<and> queue_ok (rds w') \<and>
        \<not> queue_member j (rds w') \<and> list_all (\<lambda>x. fst x \<le> p) xs)"
proof (cases "contents (rds w)")
  case Nil
  with assms show ?thesis by (simp add: Pop_answered run_pop_empty)
next
  case (Cons x xs)
  obtain p j where x: "x = (p, j)" by fastforce
  note first = run_pop_first [OF assms(1) Cons [unfolded x]]
  have "j \<noteq> ''''" using rq.items_proper [OF assms(1)] Cons x by auto
  with first assms(2) have "Pop w = (Inr j, w\<lparr>rds := snd (run_pop (rds w))\<rparr>)" by (simp add: Pop_answered)
  moreover have "list_all (\<lambda>x. fst x \<le> p) xs"
    using rq.deq_highest [OF assms(1) Cons [unfolded x]] Cons by (auto simp: list_all_iff) blast
  moreover have "\<not> queue_member j (snd (run_pop (rds w)))"
    using rq.deq_not_member [OF assms(1)] first(1) by simp
  ultimately show ?thesis using first Cons x by simp
qed

theorem pop_takes_highest_witness:
  "\<exists>w'. Pop (empty_world\<lparr>rds := enqueue_all [(0, ''a''), (7, ''b'')] empty_redis\<rparr>) = (Inr ''b'', w') \<and>
     contents (rds w') = [(0, ''a'')]"
proof -
  let ?w = "empty_world\<lparr>rds := enqueue_all [(0, ''a''), (7, ''b'')] empty_redis\<rparr>"
  have "contents empty_redis = []"
    by (simp add: contents_def tier_def [abs_def] empty_redis_def flat_empty)
  then have q: "queue_ok (rds ?w)" "contents (rds ?w) = [(7, ''b''), (0, ''a'')]"
    using enqueue_all_contents [OF queue_ok_empty, of "[(0, ''a''), (7, ''b'')]"]
    by (simp_all add: admissible_job_def valid_priority_def MinPriority_def MaxPriority_def queue_member_def
        SISMEMBER_def empty_redis_def)
  moreover have "net ?w = []" by (simp add: empty_world_def)
  ultimately show ?thesis using pop_takes_highest [of ?w] by auto
qed

end
