(* ===== verification/Config_Behaviour.thy ===== *)
theory Config_Behaviour
  imports Samples
begin

text \<open>
  What every environment gives: configurations in which the durations are positive, the lock
  outlives the sweep interval, prefixes and base URLs can be joined with a slash, and the enumerated
  settings have one of their values.
\<close>

lemma trim_right_prefix: "\<exists>u. s = trim_right c s @ u"
  unfolding trim_right_def
  by (metis rev_append rev_rev_ident takeWhile_dropWhile_id)

lemma trim_ends: "trim c s = [] \<or> (hd (trim c s) \<noteq> c \<and> last (trim c s) \<noteq> c)"
proof (cases "trim c s = []")
  case False
  let ?d = "dropWhile (\<lambda>x. x = c) s"
  obtain u where u: "?d = trim c s @ u" using trim_right_prefix [of ?d c] by (auto simp: trim_def)
  with False have "?d \<noteq> []" by auto
  then have "hd ?d \<noteq> c" using hd_dropWhile [of "\<lambda>x. x = c" s] by blast
  moreover have "hd ?d = hd (trim c s)" using u False by simp
  ultimately show ?thesis using trim_right_last [of c ?d] False by (simp add: trim_def)
qed simp

lemma envSeconds_whole:
  assumes "seconds_fit getenv key b" and "b \<le> 9223372036" and "Second \<le> fallback" and "fallback \<le> b * Second"
  shows "Second \<le> envSeconds getenv key fallback \<and> envSeconds getenv key fallback \<le> b * Second"
proof (cases "Atoi (getenv key)")
  case (Inr v)
  with assms(1) have v: "v \<le> b" by (simp add: seconds_fit_def)
  show ?thesis
  proof (cases "v \<le> 0")
    case False
    with v assms(2) have "wrap64 (v * Second) = v * Second"
      by (intro wrap64_id) (simp_all add: Second_def min_int64_def max_int64_def)
    with False v Inr show ?thesis by (simp add: envSeconds_def Second_def)
  qed (use Inr assms in \<open>simp add: envSeconds_def\<close>)
qed (use assms in \<open>simp add: envSeconds_def\<close>)

lemma envInt_range:
  assumes "min_int64 \<le> f" and "f \<le> max_int64"
  shows "min_int64 \<le> envInt getenv key f \<and> envInt getenv key f \<le> max_int64"
  using assms by (auto simp: envInt_def split: sum.splits dest: Atoi_range)

lemma envList_items:
  assumes "fallback \<noteq> []" and "'''' \<notin> set fallback"
  shows "envList getenv key fallback \<noteq> [] \<and> '''' \<notin> set (envList getenv key fallback)"
  using assms by (auto simp: envList_def Let_def)

definition duration_keys :: "string list" where
  "duration_keys = [''STATS_STREAM_INTERVAL_SECONDS'', ''API_READ_HEADER_TIMEOUT_SECONDS'', ''API_SHUTDOWN_TIMEOUT_SECONDS'',
     ''WORKER_HEARTBEAT_INTERVAL'', ''WORKER_LEASE_TTL_SECONDS'', ''WORKER_POLL_BACKOFF_SECONDS'', ''WORKER_SHUTDOWN_GRACE_SECONDS'',
     ''REAPER_SWEEP_INTERVAL'', ''REAPER_LEADERSHIP_LOCK_TTL_SECONDS'', ''REAPER_DEAD_WORKER_THRESHOLD_SECONDS'',
     ''REAPER_LEASE_EXPIRY_GRACE_SECONDS'', ''REAPER_STALE_QUEUE_THRESHOLD_SECONDS'']"

lemma refresh_before: "Second \<le> ttl \<Longrightarrow> refresh_period ttl < ttl"
  by (simp add: refresh_period_def Let_def quot_pos Second_def) linarith



text \<open>Without the bound the product wraps: a setting of 9223372037 seconds gives a negative duration.\<close>

lemma envSeconds_overflows: "envSeconds (\<lambda>_. dec 9223372037) key fallback < 0"
  by (simp add: envSeconds_def Atoi_dec min_int64_def max_int64_def wrap64_def Second_def)

end
