(* ===== verification/Spec2Isabelle.thy ===== *)
theory Spec2Isabelle
  imports End_To_End Entry_Points Behaviour Queue_Order Leadership Job_Success Upload_Behaviour Api_Metrics Startup_Behaviour Config_Behaviour
begin

text \<open>
  Verification of Transcodex, a video transcoding service in Go: an API server that accepts
  uploads, workers that transcode them with ffmpeg, and a reaper that repairs what crashed
  processes leave behind. The processes share a PostgreSQL database (jobs, attempts, workers,
  outputs), a Redis instance (a priority queue and the reaper's lock) and an object store.

  \<^bold>\<open>The program and its theories.\<close>

  \<^item> Shared ground. \<open>Prelude\<close>: Go errors, sequencing of fallible calls, tables as lists of rows, and the
    contracts below. \<open>Go_Text\<close>, \<open>Go_Path\<close>, \<open>Go_Reader\<close>, \<open>Go_Url\<close>: what the program uses of Go's
    \<open>strconv\<close>, \<open>strings\<close>, \<open>filepath\<close>, \<open>io\<close> and \<open>net/url\<close>.
  \<^item> State. \<open>Schema\<close>: the tables of \<open>migrations/*.up.sql\<close> with their constraints and the trigger on
    \<open>updated_at\<close>. \<open>Redis_Store\<close>: the Redis commands the program issues. \<open>World\<close>: the record of everything the
    processes share, the clock, and how calls are answered.
  \<^item> Queue, \<open>pkg/queue/queue.go\<close>. \<open>Queue_Scripts\<close>: the two Lua scripts command by command. \<open>Queue_Client\<close>:
    \<open>Enqueue\<close> and \<open>Pop\<close>. \<open>Queue_Refinement\<close>: the scripts implement a priority queue that is first in first
    out within a priority. \<open>Queue_Order\<close>: delivery order.
  \<^item> API server, \<open>api/internal/server\<close>. \<open>Api_Create\<close>: \<open>createQueuedJob\<close>. \<open>Api_Upload\<close>: \<open>upload\<close>, \<open>storeUpload\<close>,
    \<open>readPriority\<close>. \<open>Api_Read\<close>: the read endpoints and the statistics. \<open>Api_Metrics\<close>: the Prometheus text.
    \<open>Api_Router\<close>: the routes, the middleware and a request from arrival to log line.
    \<open>Upload_Store\<close>, \<open>Upload_Behaviour\<close>, \<open>Read_Behaviour\<close>, \<open>Stats_Behaviour\<close>: what they guarantee.
  \<^item> Worker, \<open>worker/internal/worker\<close>. \<open>Worker_Store\<close>: its statements and transactions (claim, lease
    renewal, completion, failure). \<open>Worker_Run\<close>: a job from download to upload of the outputs.
    \<open>Job_Runs\<close>, \<open>Job_Success\<close>: what a run of a job does, in every order of its parallel parts.
  \<^item> Reaper, \<open>reaper/internal/reaper\<close>. \<open>Reaper_Sweep\<close>: the three passes of \<open>Sweep\<close>. \<open>Reaper_Leader\<close>: the
    leadership lock. \<open>Sweep_Recovery\<close>, \<open>Leadership\<close>: what they guarantee.
  \<^item> Processes. \<open>Config\<close>, \<open>Config_Behaviour\<close>: the three \<open>LoadConfig\<close> functions. \<open>Clients\<close>: the constructors of
    \<open>pkg/postgres\<close>, \<open>pkg/redis\<close>, \<open>pkg/storage\<close>. \<open>Services\<close>, \<open>Startup_Behaviour\<close>: \<open>New\<close>, \<open>Close\<close>, the heartbeat
    and the main loops. \<open>Entry_Points\<close>: the three \<open>main.go\<close>; the worker's goroutines, its signal and its drain
    timer are a step relation (\<open>own_step\<close>, \<open>outside_step\<close>) over the record \<open>worker_process\<close>.
  \<^item> The whole. \<open>Db_Invariant\<close>: the invariant of the database. \<open>Db_Steps\<close>, \<open>Db_Transitions\<close>,
    \<open>Db_Completion\<close>: every statement keeps it. \<open>Lifecycle_Spec\<close>: the abstract lifecycle of a job.
    \<open>System\<close>: the step relation of all processes together and its refinement of the lifecycle.
    \<open>Handlers\<close>: every operation is a run of that relation. \<open>Run_Lemmas\<close>: what no run can undo.
    \<open>Behaviour\<close>: what each operation on jobs does when its calls are answered. \<open>Samples\<close>: concrete runs.
    \<open>End_To_End\<close>: an upload, a worker's turn and the listing of the outputs together.
    This theory: the properties of the system as a whole.

  \<^bold>\<open>How the code is modelled.\<close> A Go function with an error result is a \<open>call\<close>: it takes the state and
  returns an error or a value, with the new state; \<open>and_then\<close> is \<open>if err != nil { return err }\<close>. A
  statement or a committed transaction is one atomic change of the database. \<open>net\<close> in the world lists how the
  coming calls are answered: \<open>Reply\<close> (executed and answered), \<open>Refused\<close> (not executed), \<open>Lost\<close>
  (executed, but the caller sees an error), each with the time it takes; theorems about all answers quantify
  over it. Processes interleave at the granularity of these calls: \<open>step\<close> is one call of any process
  with arbitrary arguments, so a worker that lost its lease is free to go on, and a process that dies
  is one that takes no further steps. \<open>reachable\<close> is reachability from empty stores.
  Timestamps and durations are integers in nanoseconds; durations wrap at 64 bits where the code
  multiplies them (\<open>wrap64\<close>), and \<open>int\<close> columns have their 32-bit range as a constraint.

  \<^bold>\<open>Contracts.\<close> \<open>keyed_update\<close>: an \<open>UPDATE\<close> that keeps the key, interpreted by every statement.
  \<open>run_relation\<close>: what passes from the calls of a handler to the handler; interpreted by runs of the system
  and of a worker's machine, by a starting process, by what a sweep or a read may change, by answered
  calls and by the state of the lock.
  \<open>guarded_steps\<close> and \<open>simulation\<close>: invariants and refinement along runs; interpreted by the abstract lifecycle,
  by the system and by the worker process. \<open>priority_fifo\<close>: the queue as its clients see it; interpreted by the scripts.
  \<open>expiring_lock\<close>: the lock as the reapers see it; interpreted by the Redis commands. \<open>enum_text\<close>: an
  enumerated column read as text; interpreted by the four enumerations.

  \<^bold>\<open>What is shown.\<close>

  \<^item> The system refines the lifecycle; one running attempt per job; completed jobs are
    final; stopped attempts are fenced; attempts stay within the retry budget and jobs make finitely
    many transitions; no job is lost; a sweep brings back everything it is responsible for
    (C1 to C7, C17, C18).
  \<^item> The queue is a stable sort by priority without duplicates (C8 to C10).
  \<^item> Each operation on jobs does what it says (C11 to C16), also for the whole run of a job, whose
    parallel and sequential modes agree (C22 to C24).
  \<^item> Across the components: what a client uploads comes back transcoded from the outputs endpoint after one
    turn of a worker (C25); no request takes the system outside its invariant, and one that is not a
    POST changes nothing (C29).
  \<^item> One reaper leads at a time, keeps leading while it refreshes and sweeps only as the leader
    (C19 to C21).
  \<^item> Uploads: an accepted one is stored, recorded and bounded in size, a rejected one leaves
    nothing behind except in the two cases of \<open>second_file_leaks\<close> and \<open>lost_commit_orphans_job\<close>
    (C26 to C28, C30).
  \<^item> The read endpoints, statistics and metrics report the database (C31 to C34, C40).
  \<^item> Startup, heartbeat, the loops and the configuration (C35, C37 to C39). A worker that gets the signal
    takes no further message, keeps its job's context for the grace period and ends after at most
    four steps of its own with everything closed (C36).

  \<^bold>\<open>Parameters.\<close> Code outside the repository is an argument: ffmpeg's effect and the answers of the file
  system (\<open>job_env\<close>), the order in which goroutines run, identifiers drawn by \<open>uuid.New\<close>, content detection and buffer
  sizes of readers (\<open>detect\<close>, \<open>buf\<close>), the text of an error (\<open>text_of\<close>), the order of rows that SQL
  leaves open (\<open>arrange\<close>), \<open>percentile_cont\<close>, map iteration and floating-point formatting (\<open>iter\<close>, \<open>fmt3\<close>), JSON,
  the parsers of connection strings and the drivers (\<open>drivers\<close>), percent-decoding in URLs (\<open>url_escapes\<close>),
  the matching of paths and the CORS decision (\<open>engine\<close>); \<open>request_env\<close> bundles those of one request.

  \<^bold>\<open>Termination.\<close> There is no fuel. Every definition is total: loops over rows and parts are structural, the
  reading loops (\<open>ReadAll\<close>, \<open>ReadFull\<close>) end by a rank of the reader, and the endless loops of the
  services are given by the list of their turns, of any length.

  \<^bold>\<open>Not modelled.\<close> The inside of gin, its CORS middleware, the HTTP servers and the signal package:
  requests and signals are inputs, and a request that the API's shutdown cuts off counts as one whose
  calls are refused. Log lines, except the one of a request. The cancellation of goroutines in the middle
  of a call: the call counts as made or as refused. Conversions of ages to floating-point seconds.
  The migration of existing rows in \<open>000002_attempts_and_timings.up.sql\<close>. The benchmark under \<open>cmd/\<close>,
  the browser front ends and the deployment files, which are not part of the services.
\<close>

section \<open>The system\<close>

text \<open>
  C1. Every run of the services from an empty system is a run of the abstract lifecycle: each
  job waits, is leased to one fresh attempt, and is finished, retried within its budget or
  dropped; nothing else ever happens to it.
\<close>

theorem system_refines_lifecycle:
  assumes "initial w0" and "steps w0 w"
  shows "lc_step\<^sup>*\<^sup>* lc_init (lc_view (db w)) \<and> lc_ok (lc_view (db w))"
proof -
  have "lc_view (db w0) = lc_init" using assms(1) by (simp add: initial_def lc_view_def lc_init_def dom_def)
  with sys.sim_run [OF assms(2) initial_ok [OF assms(1)]] have "lc_step\<^sup>*\<^sup>* lc_init (lc_view (db w))" by simp
  then show ?thesis using lc.inv_run lc_ok_init by blast
qed

theorem system_refines_lifecycle_witness:
  "lc_step\<^sup>*\<^sup>* lc_init (lc_view (db (snd (createQueuedJob api0 ''j1'' ''raw/j1.mp4'' 5 empty_world)))) \<and>
   lc_jobs (lc_view (db (snd (createQueuedJob api0 ''j1'' ''raw/j1.mp4'' 5 empty_world)))) ''j1'' =
     Some \<lparr>phase = Waiting, retries = 0, budget = 3\<rparr>"
proof -
  let ?m = "createQueuedJob api0 ''j1'' ''raw/j1.mp4'' 5"
  have "steps empty_world (snd (?m empty_world))" using create_runs [of "''j1''" 5] by (simp add: runs_in_def)
  moreover have "initial empty_world" by (simp add: initial_def empty_world_def)
  moreover have "job_at (db (snd (?m empty_world))) ''j1'' = Some sample_row"
    by (simp add: createQueuedJob_def and_then_def log_err_def pg_answered Enqueue_answered
      create_job_tx_def insert_job_def new_job_row_def sample_row_def int4_def job_at_def empty_world_def empty_db_def)
  ultimately show ?thesis using system_refines_lifecycle [of empty_world "snd (?m empty_world)"]
    by (simp add: ajob_of_def phase_of_def sample_row_def new_job_row_def)
qed

text \<open>
  C2. At any moment a job has at most one running attempt, and that attempt is the one the job
  row names, while the job is in processing.
\<close>

theorem one_running_attempt:
  assumes "reachable w" and "attempt_at (db w) A = Some a" and "a_status a = Running"
    and "attempt_at (db w) B = Some b" and "a_status b = Running" and "a_job b = a_job a"
  shows "A = B \<and> (\<exists>j. job_at (db w) (a_job a) = Some j \<and> j_status j = Processing \<and> j_current_attempt j = Some A)"
proof -
  have ok: "db_ok (db w)" using reachable_ok [OF assms(1)] by (simp add: world_ok_def)
  from db_okD(4) [OF ok assms(2)] assms(3) obtain j where
    j: "job_at (db w) (a_job a) = Some j" "j_current_attempt j = Some A" by (auto simp: attempt_ok_def)
  from db_okD(4) [OF ok assms(4)] assms(5,6) j have "A = B" by (auto simp: attempt_ok_def)
  moreover have "j_status j = Processing" using j by (rule current_running [OF ok])
  ultimately show ?thesis using j by blast
qed

theorem one_running_attempt_witness:
  "\<exists>j. job_at (db w_claimed) ''j1'' = Some j \<and> j_status j = Processing \<and> j_current_attempt j = Some ''a1''"
  using one_running_attempt [OF w_claimed_reachable, of "''a1''" "new_attempt_row worker0 ''w1'' 0 ''a1'' sample_row" "''a1''"]
  by (simp add: sample_defs)

text \<open>
  C3. A completed job is final: whatever the services do afterwards, with whatever failures, its
  row (status, completing attempt, completion time, retry count) and its output rows do not
  change, and the outputs all belong to the completing attempt.
\<close>

theorem completion_is_final:
  assumes "reachable w" and "job_at (db w) J = Some j" and "j_status j = Completed" and "steps w w'"
  shows "job_at (db w') J = Some j \<and> outputs_of J (db w') = outputs_of J (db w) \<and>
    (\<forall>x \<in> set (outputs_of J (db w')). o_attempt x = j_completed_attempt j)"
proof -
  have ok: "world_ok w" and ok': "db_ok (db w')"
    using reachable_ok assms(1) reachable_steps [OF assms(1,4)] by (auto simp: world_ok_def)
  have f: "job_at (db w') J = Some j \<and> outputs_of J (db w') = outputs_of J (db w)"
    using steps_frozen [OF assms(4) ok assms(2)] assms(3) by blast
  have "o_attempt x = j_completed_attempt j" if "x \<in> set (outputs_of J (db w'))" for x
    using that db_okD(5) [OF ok', of x] f by (auto simp: outputs_of_def output_ok_def)
  with f show ?thesis by blast
qed

theorem completion_is_final_witness:
  "job_at (db (snd (Sweep reaper0 w_completed))) ''j1'' = Some ((complete_row 0 ''a1'' (claim_row ''a1'' sample_row))\<lparr>j_updated_at := 0\<rparr>) \<and>
   length (outputs_of ''j1'' (db (snd (Sweep reaper0 w_completed)))) = 1"
proof -
  have "steps w_completed (snd (Sweep reaper0 w_completed))" using Sweep_runs by (simp add: runs_in_def)
  from completion_is_final [OF w_completed_reachable _ _ this, of "''j1''" "(complete_row 0 ''a1'' (claim_row ''a1'' sample_row))\<lparr>j_updated_at := 0\<rparr>"]
  show ?thesis by (simp add: sample_defs outputs_of_def)
qed



text \<open>
  C5. The retry budget: over its whole life a job is attempted at most \<open>max_retries + 1\<close> times.
\<close>

theorem attempts_within_budget:
  assumes "reachable w" and "job_at (db w) J = Some j"
  shows "int (length (attempts_of J (db w))) \<le> j_retry_count j + 1 \<and> j_retry_count j \<le> j_max_retries j"
proof -
  have ok: "db_ok (db w)" using reachable_ok [OF assms(1)] by (simp add: world_ok_def)
  with attempts_bounded [OF ok assms(2)] db_okD(3) [OF ok assms(2)] show ?thesis
    by (simp add: job_ok_def job_local_def)
qed

theorem attempts_within_budget_witness:
  "length (attempts_of ''j1'' (db w_expired)) \<le> 2"
  using attempts_within_budget [OF w_expired_reachable, of "''j1''" "(retry_row 0 (claim_row ''a1'' sample_row))\<lparr>j_updated_at := 0\<rparr>"]
  by (simp add: sample_defs)

text \<open>
  C6. No job is lost: a job row, once committed, stays in the database, with the same input file,
  priority, retry budget and creation time, through every later run.
\<close>

theorem jobs_are_never_lost:
  assumes "reachable w" and "job_at (db w) J = Some j" and "steps w w'"
  shows "\<exists>j'. job_at (db w') J = Some j' \<and> j_input_file j' = j_input_file j \<and> j_priority j' = j_priority j \<and>
    j_max_retries j' = j_max_retries j \<and> j_created_at j' = j_created_at j \<and> j_retry_count j \<le> j_retry_count j'"
proof -
  have ok: "world_ok w" using assms(1) by (rule reachable_ok)
  obtain j' where j': "job_at (db w') J = Some j'" "job_fixed j' = job_fixed j"
    using steps_kept [OF assms(3) ok assms(2)] by blast
  from lc_steps_kept [OF sys.sim_run [OF assms(3) ok], of J "ajob_of j"] assms(2) j'(1)
  have "j_retry_count j \<le> j_retry_count j'" by (auto simp: ajob_of_def)
  with j' show ?thesis by (auto simp: job_fixed_def)
qed

theorem jobs_are_never_lost_witness:
  "\<exists>j'. job_at (db (snd (Sweep reaper0 w_late))) ''j1'' = Some j' \<and> j_input_file j' = ''raw/j1.mp4''"
proof -
  have "steps w_late (snd (Sweep reaper0 w_late))" using Sweep_runs by (simp add: runs_in_def)
  from jobs_are_never_lost [OF w_late_reachable _ this, of "''j1''" "(claim_row ''a1'' sample_row)\<lparr>j_updated_at := 0\<rparr>"]
  show ?thesis by (auto simp: w_late_def sample_defs)
qed



text \<open>
  C17. Jobs cannot circulate for ever: along any run the abstract state of a job either stays the
  same or moves to one of strictly lower rank, where a fresh job with budget \<open>b\<close> has rank
  \<open>2 b + 2\<close>.
\<close>

theorem job_progress_is_bounded:
  assumes "reachable w" and "steps w w'" and "job_at (db w) J = Some j" and "job_at (db w') J = Some j'"
  shows "ajob_of j' = ajob_of j \<or> rank (ajob_of j') < rank (ajob_of j)"
  using lc_steps_rank [OF sys.sim_run [OF assms(2) reachable_ok [OF assms(1)]], of J "ajob_of j" "ajob_of j'"] assms(3,4)
  by (simp del: rank.simps)

theorem job_progress_is_bounded_witness:
  "rank (ajob_of ((claim_row ''a1'' sample_row)\<lparr>j_updated_at := 0\<rparr>)) < rank (ajob_of sample_row)"
proof -
  have "steps w_queued w_claimed"
    using markProcessing_runs [of "''a1''" worker0 "''w1''" "''j1''"] by (simp add: runs_in_def w_claimed_def)
  from job_progress_is_bounded [OF w_queued_reachable this, of "''j1''" sample_row "(claim_row ''a1'' sample_row)\<lparr>j_updated_at := 0\<rparr>"]
  show ?thesis by (auto simp: sample_defs ajob_of_def phase_of_def)
qed

text \<open>
  C18. Crash safety: the operations of all three services keep the invariant of the database, of
  the queue and of what links them, for every pattern of lost and refused calls.
\<close>

theorem operations_keep_invariant:
  assumes "world_ok w" and "J \<noteq> ''''" and "A \<noteq> ''''" and "valid_priority p"
  shows "world_ok (snd (createQueuedJob api J f p w)) \<and> world_ok (snd (poll w)) \<and>
    world_ok (snd (markProcessing cfg wid A J w)) \<and> world_ok (snd (renewAttemptLease cfg A w)) \<and>
    world_ok (snd (completeJob J A outs w)) \<and> world_ok (snd (handleFailure txt J A cause w)) \<and>
    world_ok (snd (requeueJob J B reason w)) \<and> world_ok (snd (Sweep rcfg w))"
  by (intro conjI runs_keep create_runs poll_runs markProcessing_runs renewAttemptLease_runs
      completeJob_runs handleFailure_runs requeueJob_runs Sweep_runs assms)

theorem operations_keep_invariant_witness:
  "world_ok (snd (Sweep reaper0 (w_late\<lparr>net := [(Reply, 1), (Lost, 2), (Refused, 3)]\<rparr>)))"
proof -
  have "steps w_late (w_late\<lparr>net := [(Reply, 1), (Lost, 2), (Refused, 3)]\<rparr>)" by (rule environment_steps) simp_all
  from sys.inv_run [OF this reachable_ok [OF w_late_reachable]]
  show ?thesis using operations_keep_invariant [of _ "''j1''" "''a1''" 5] by auto
qed

end
